(* ===== verification/Prelude.thy ===== *)
theory Prelude
  imports Complex_Main "HOL-Library.Word" "HOL-Library.Sublist" "HOL-Library.AList"
    "HOL-Library.List_Lexorder"
begin

text \<open>
  The vocabulary the component theories share: Python strings as lists of code points,
  byte strings, the string methods the sources call, dictionaries that remember their
  insertion order, and results that are either an error or a value.
  Nothing here is a component of the program; every definition models one construct of
  the Python language or of its standard library, as the sources use it.
\<close>

named_theorems str_simps \<open>evaluation of Python string operations\<close>
named_theorems result_simps \<open>elimination of the result combinators\<close>
named_theorems dict_simps \<open>facts about insertion-ordered dictionaries\<close>

section \<open>Strings and bytes\<close>

text \<open>
  A Python \<^verbatim>\<open>str\<close> is a sequence of code points, a \<^verbatim>\<open>bytes\<close> a sequence of octets.
  \<open>lit\<close> reads an Isabelle literal as a Python string; it is injective, so the simplifier
  compares literals without unfolding it.
\<close>

type_synonym pystr = "nat list"
type_synonym bytes = "8 word list"

definition lit :: "string \<Rightarrow> pystr" where
  "lit s = map of_char s"

definition blit :: "string \<Rightarrow> bytes" where
  "blit s = map of_char s"

lemma lit_eq_iff [simp]: "lit a = lit b \<longleftrightarrow> a = b"
  unfolding lit_def by (rule inj_map_eq_map) (rule inj_of_char)

lemma lit_Nil [simp]: "lit [] = []"
  by (simp add: lit_def)

lemma lit_eq_Nil_iff [simp]: "lit s = [] \<longleftrightarrow> s = []" "[] = lit s \<longleftrightarrow> s = []"
  by (simp_all add: lit_def)

lemma lit_append: "lit (a @ b) = lit a @ lit b"
  by (simp add: lit_def)

lemma length_lit [simp]: "length (lit s) = length s"
  by (simp add: lit_def)

lemma lit_Cons: "lit (c # s) = of_char c # lit s"
  by (simp add: lit_def)

text \<open>\<open>chr c\<close> is the code point of an ASCII character.\<close>

abbreviation chr :: "char \<Rightarrow> nat" where
  "chr c \<equiv> of_char c"

definition char_class :: "string \<Rightarrow> nat \<Rightarrow> bool" where
  "char_class cs c \<longleftrightarrow> c \<in> set (lit cs)"

definition is_digit_cp :: "nat \<Rightarrow> bool" where
  "is_digit_cp c \<longleftrightarrow> 48 \<le> c \<and> c \<le> 57"

definition is_upper_cp :: "nat \<Rightarrow> bool" where
  "is_upper_cp c \<longleftrightarrow> 65 \<le> c \<and> c \<le> 90"

definition is_lower_cp :: "nat \<Rightarrow> bool" where
  "is_lower_cp c \<longleftrightarrow> 97 \<le> c \<and> c \<le> 122"

definition is_alnum_cp :: "nat \<Rightarrow> bool" where
  "is_alnum_cp c \<longleftrightarrow> is_digit_cp c \<or> is_upper_cp c \<or> is_lower_cp c"

text \<open>The characters \<^verbatim>\<open>str.strip()\<close> removes: Unicode's white space and the separators
  28 to 31.\<close>

definition is_space :: "nat \<Rightarrow> bool" where
  "is_space c \<longleftrightarrow> (9 \<le> c \<and> c \<le> 13) \<or> (28 \<le> c \<and> c \<le> 32) \<or> c = 133 \<or> c = 160 \<or> c = 5760 \<or>
     (8192 \<le> c \<and> c \<le> 8202) \<or> c = 8232 \<or> c = 8233 \<or> c = 8239 \<or> c = 8287 \<or> c = 12288"

definition lstrip_by :: "(nat \<Rightarrow> bool) \<Rightarrow> pystr \<Rightarrow> pystr" where
  "lstrip_by p s = dropWhile p s"

definition rstrip_by :: "(nat \<Rightarrow> bool) \<Rightarrow> pystr \<Rightarrow> pystr" where
  "rstrip_by p s = rev (dropWhile p (rev s))"

definition strip :: "pystr \<Rightarrow> pystr" where
  "strip s = rstrip_by is_space (lstrip_by is_space s)"

text \<open>\<^verbatim>\<open>s.split(c)\<close> for a one-character separator: always at least one part.\<close>

fun split_on :: "'a \<Rightarrow> 'a list \<Rightarrow> 'a list list" where
  "split_on c [] = [[]]"
| "split_on c (x # xs) =
     (if x = c then [] # split_on c xs
      else case split_on c xs of [] \<Rightarrow> [[x]] | y # ys \<Rightarrow> (x # y) # ys)"

text \<open>\<^verbatim>\<open>sep.join(parts)\<close>.\<close>

fun join :: "'a list \<Rightarrow> 'a list list \<Rightarrow> 'a list" where
  "join sep [] = []"
| "join sep [x] = x"
| "join sep (x # y # zs) = x @ sep @ join sep (y # zs)"

text \<open>\<^verbatim>\<open>s.partition(c)\<close> for a one-character separator: the part before the first
  occurrence, whether there is one, and the part after it.\<close>

fun partition_on :: "'a \<Rightarrow> 'a list \<Rightarrow> 'a list \<times> bool \<times> 'a list" where
  "partition_on c [] = ([], False, [])"
| "partition_on c (x # xs) =
     (if x = c then ([], True, xs)
      else case partition_on c xs of (a, f, b) \<Rightarrow> (x # a, f, b))"

text \<open>
  \<^verbatim>\<open>s.replace(old, new)\<close>: occurrences are found from the left and do not overlap. The
  empty pattern matches before every character and at the end.
\<close>

function replace_nonempty :: "'a list \<Rightarrow> 'a list \<Rightarrow> 'a list \<Rightarrow> 'a list" where
  "replace_nonempty old new s =
     (if old = [] then s
      else case s of
        [] \<Rightarrow> []
      | x # xs \<Rightarrow>
          if prefix old s then new @ replace_nonempty old new (drop (length old) s)
          else x # replace_nonempty old new xs)"
  by pat_completeness auto
termination
  by (relation "measure (\<lambda>(old, new, s). length s)") auto

declare replace_nonempty.simps [simp del]

definition replace :: "'a list \<Rightarrow> 'a list \<Rightarrow> 'a list \<Rightarrow> 'a list" where
  "replace old new s =
     (if old = [] then new @ concat (map (\<lambda>x. x # new) s) else replace_nonempty old new s)"

text \<open>\<^verbatim>\<open>str(n)\<close> of an integer.\<close>

fun nat_text :: "nat \<Rightarrow> pystr" where
  "nat_text n = (if n < 10 then [48 + n] else nat_text (n div 10) @ [48 + n mod 10])"

declare nat_text.simps [simp del]

definition int_text :: "int \<Rightarrow> pystr" where
  "int_text i = (if i < 0 then 45 # nat_text (nat (- i)) else nat_text (nat i))"

lemma nat_text_small: "n < 10 \<Longrightarrow> nat_text n = [48 + n]"
  by (subst nat_text.simps) simp

lemma nat_text_big: "\<not> n < 10 \<Longrightarrow> nat_text n = nat_text (n div 10) @ [48 + n mod 10]"
  by (subst nat_text.simps) simp

lemma nat_text_not_Nil [simp]: "nat_text n \<noteq> []"
  by (cases "n < 10") (simp_all add: nat_text_small nat_text_big)

lemma nat_text_digits: "c \<in> set (nat_text n) \<Longrightarrow> 48 \<le> c \<and> c \<le> 57"
proof (induction n rule: nat_text.induct)
  case (1 n)
  then show ?case
    by (cases "n < 10") (auto simp: nat_text_small nat_text_big)
qed

lemma nat_text_length: "n < 10 ^ k \<Longrightarrow> length (nat_text n) \<le> max 1 k"
proof (induction k arbitrary: n)
  case (Suc k)
  show ?case
  proof (cases "n < 10")
    case False
    then have "n div 10 < 10 ^ k" "0 < k"
      using Suc.prems by (simp_all add: less_mult_imp_div_less mult.commute) (cases k; simp)+
    with Suc.IH [of "n div 10"] False show ?thesis by (simp add: nat_text_big)
  qed (simp add: nat_text_small)
qed (simp add: nat_text_small)

section \<open>Facts about the string operations\<close>

lemma replace_nonempty_Nil [simp]: "replace_nonempty old new [] = []"
  by (simp add: replace_nonempty.simps)

lemma replace_nonempty_Cons [str_simps]:
  "old \<noteq> [] \<Longrightarrow> replace_nonempty old new (x # xs) =
     (if prefix old (x # xs) then new @ replace_nonempty old new (drop (length old) (x # xs))
      else x # replace_nonempty old new xs)"
  by (simp add: replace_nonempty.simps)

lemma replace_single: "replace [c] new s = concat (map (\<lambda>x. if x = c then new else [x]) s)"
  by (induction s) (auto simp: replace_def replace_nonempty_Cons)

lemma replace_Nil [simp]: "old \<noteq> [] \<Longrightarrow> replace old new [] = []"
  by (simp add: replace_def)

lemma split_on_not_Nil [simp]: "split_on c s \<noteq> []"
  by (induction s) (auto split: list.splits)

lemma join_split_on [str_simps]: "join [c] (split_on c s) = s"
proof (induction s)
  case (Cons x xs)
  show ?case
  proof (cases "split_on c xs")
    case (Cons y ys)
    with Cons.IH show ?thesis by (cases ys) auto
  qed simp
qed simp

lemma split_on_no_sep: "p \<in> set (split_on c s) \<Longrightarrow> c \<notin> set p"
proof (induction s arbitrary: p)
  case (Cons x xs)
  then show ?case by (cases "split_on c xs") (auto split: if_splits)
qed simp

lemma split_on_no_sep_eq: "c \<notin> set s \<Longrightarrow> split_on c s = [s]"
  by (induction s) auto

lemma split_on_append_sep: "c \<notin> set a \<Longrightarrow> split_on c (a @ c # b) = a # split_on c b"
  by (induction a) auto

lemma split_on_join:
  assumes "ps \<noteq> []" and "\<forall>p \<in> set ps. c \<notin> set p"
  shows "split_on c (join [c] ps) = ps"
  using assms
proof (induction "[c]" ps rule: join.induct)
  case (3 x y zs)
  then show ?case by (simp add: split_on_append_sep)
qed (auto simp: split_on_no_sep_eq)

lemma partition_on_found:
  "partition_on c s = (a, True, b) \<Longrightarrow> s = a @ c # b \<and> c \<notin> set a"
  by (induction s arbitrary: a) (auto split: if_splits prod.splits)

lemma partition_on_absent:
  "partition_on c s = (a, False, b) \<Longrightarrow> s = a \<and> b = [] \<and> c \<notin> set s"
  by (induction s arbitrary: a) (auto split: if_splits prod.splits)

lemma partition_on_append [str_simps]:
  "c \<notin> set a \<Longrightarrow> partition_on c (a @ c # b) = (a, True, b)"
  by (induction a) auto

lemma partition_on_notin [str_simps]: "c \<notin> set a \<Longrightarrow> partition_on c a = (a, False, [])"
  by (induction a) auto

section \<open>Insertion-ordered dictionaries\<close>

text \<open>
  A Python \<^verbatim>\<open>dict\<close> is an association list without repeated keys. \<^const>\<open>map_of\<close> reads
  it, \<^const>\<open>AList.update\<close> writes it: an existing key keeps its place, a new one is
  appended.
\<close>

type_synonym ('k, 'v) dict = "('k \<times> 'v) list"

abbreviation dict_keys :: "('k, 'v) dict \<Rightarrow> 'k list" where
  "dict_keys d \<equiv> map fst d"

definition dict_ok :: "('k, 'v) dict \<Rightarrow> bool" where
  "dict_ok d \<longleftrightarrow> distinct (map fst d)"

definition has_key :: "('k, 'v) dict \<Rightarrow> 'k \<Rightarrow> bool" where
  "has_key d k \<longleftrightarrow> k \<in> set (map fst d)"

definition dict_of :: "('k \<times> 'v) list \<Rightarrow> ('k, 'v) dict" where
  \<comment> \<open>a dict display or comprehension: later values win, the first place is kept\<close>
  "dict_of kvs = fold (\<lambda>(k, v) d. AList.update k v d) kvs []"

definition dict_update :: "('k, 'v) dict \<Rightarrow> ('k, 'v) dict \<Rightarrow> ('k, 'v) dict" where
  \<comment> \<open>\<^verbatim>\<open>d.update(e)\<close>\<close>
  "dict_update d e = fold (\<lambda>(k, v) d. AList.update k v d) e d"

text \<open>\<^verbatim>\<open>dict.fromkeys(xs)\<close> as the list of its keys: first occurrences, in order.\<close>

fun unique_from :: "'a list \<Rightarrow> 'a list \<Rightarrow> 'a list" where
  "unique_from seen [] = []"
| "unique_from seen (x # xs) =
     (if x \<in> set seen then unique_from seen xs else x # unique_from (x # seen) xs)"

definition unique :: "'a list \<Rightarrow> 'a list" where
  "unique xs = unique_from [] xs"

lemma set_unique_from: "set (unique_from seen xs) = set xs - set seen"
  by (induction xs arbitrary: seen) auto

lemma distinct_unique_from: "distinct (unique_from seen xs)"
  by (induction xs arbitrary: seen) (auto simp: set_unique_from)

lemma set_unique [simp]: "set (unique xs) = set xs"
  by (simp add: unique_def set_unique_from)

lemma distinct_unique [simp]: "distinct (unique xs)"
  by (simp add: unique_def distinct_unique_from)

lemma has_key_iff [dict_simps]: "has_key d k \<longleftrightarrow> map_of d k \<noteq> None"
  by (auto simp: has_key_def map_of_eq_None_iff)

lemma dict_ok_Nil [simp]: "dict_ok []"
  by (simp add: dict_ok_def)

lemma dict_ok_update [intro]: "dict_ok d \<Longrightarrow> dict_ok (AList.update k v d)"
  by (simp add: dict_ok_def distinct_update)

lemma dict_ok_dict_update [intro]: "dict_ok d \<Longrightarrow> dict_ok (dict_update d e)"
  by (induction e arbitrary: d) (auto simp: dict_update_def)

lemma dict_ok_dict_of [simp]: "dict_ok (dict_of kvs)"
  using dict_ok_dict_update [of "[]" kvs] by (simp add: dict_update_def dict_of_def)

lemma update_fresh: "k \<notin> set (map fst d) \<Longrightarrow> AList.update k v d = d @ [(k, v)]"
  by (induction d) auto

lemma dict_update_disjoint:
  assumes "dict_ok e" and "set (map fst d) \<inter> set (map fst e) = {}"
  shows "dict_update d e = d @ e"
  using assms
proof (induction e arbitrary: d)
  case (Cons kv e)
  obtain k v where [simp]: "kv = (k, v)" by fastforce
  from Cons.prems have "k \<notin> set (map fst d)" by auto
  then have upd: "AList.update k v d = d @ [(k, v)]" by (rule update_fresh)
  have "dict_update (d @ [(k, v)]) e = (d @ [(k, v)]) @ e"
    using Cons.prems by (intro Cons.IH) (auto simp: dict_ok_def)
  with upd show ?case by (simp add: dict_update_def)
qed (simp add: dict_update_def)

section \<open>Results\<close>

text \<open>A computation that may raise returns \<open>Inl\<close> the error or \<open>Inr\<close> the value;
  \<open>try_bind\<close> is the early return on an error.\<close>

definition try_bind :: "'e + 'a \<Rightarrow> ('a \<Rightarrow> 'e + 'b) \<Rightarrow> 'e + 'b" where
  "try_bind r f = (case r of Inl e \<Rightarrow> Inl e | Inr x \<Rightarrow> f x)"

lemma try_bind_simps [simp]:
  "try_bind (Inl e) f = Inl e" "try_bind (Inr x) f = f x"
  by (simp_all add: try_bind_def)

lemma try_bind_Inr [result_simps]:
  "try_bind r f = Inr y \<longleftrightarrow> (\<exists>x. r = Inr x \<and> f x = Inr y)"
  by (cases r) auto

lemma try_bind_Inl [result_simps]:
  "try_bind r f = Inl e \<longleftrightarrow> r = Inl e \<or> (\<exists>x. r = Inr x \<and> f x = Inl e)"
  by (cases r) auto

lemma ex_try_bind:
  "(\<exists>y. try_bind r f = Inr y) \<longleftrightarrow> (\<exists>x. r = Inr x \<and> (\<exists>y. f x = Inr y))"
  by (auto simp: result_simps)

definition guard :: "bool \<Rightarrow> 'e \<Rightarrow> 'e + unit" where
  \<comment> \<open>\<^verbatim>\<open>if not b: raise e\<close>\<close>
  "guard b e = (if b then Inr () else Inl e)"

lemma guard_Inr [result_simps]: "guard b e = Inr y \<longleftrightarrow> b"
  by (simp add: guard_def)

lemma guard_Inl [result_simps]: "guard b e = Inl e' \<longleftrightarrow> \<not> b \<and> e' = e"
  by (auto simp: guard_def)

lemma guard_simps [simp]: "guard True e = Inr ()" "guard False e = Inl e"
  by (simp_all add: guard_def)

text \<open>A loop over a list whose body may raise: the first error stops it.\<close>

fun try_map :: "('a \<Rightarrow> 'e + 'b) \<Rightarrow> 'a list \<Rightarrow> 'e + 'b list" where
  "try_map f [] = Inr []"
| "try_map f (x # xs) = try_bind (f x) (\<lambda>y. try_bind (try_map f xs) (\<lambda>ys. Inr (y # ys)))"

lemma try_map_Inr_iff:
  "try_map f xs = Inr ys \<longleftrightarrow> list_all2 (\<lambda>x y. f x = Inr y) xs ys"
proof (induction xs arbitrary: ys)
  case (Cons x xs)
  then show ?case by (cases ys) (auto simp: result_simps)
qed auto

end
