(* ===== verification/Exceptions.thy ===== *)
theory Exceptions
  imports Prelude
begin

text \<open>
  The exceptions of the framework (\<^verbatim>\<open>src/hardware_test/exceptions.py\<close>) beside the
  built-in and third-party ones the sources raise or catch. An exception is its class and
  the pieces of its message; \<open>subclass_of\<close> is the class hierarchy that decides which
  \<^verbatim>\<open>except\<close> clause catches it.
\<close>

datatype exn_class =
    PyException
  | HardwareTestError
  | InventoryError
  | UnknownStandError
  | FactoryError
  | TransportError
  | TransportTimeoutError
  | UnsupportedCommandError
  | ScenarioError
  | UsageError              \<comment> \<open>\<^verbatim>\<open>pytest.UsageError\<close>\<close>
  | PyLookupError
  | PyKeyError
  | PyTypeError
  | PyValueError
  | UnicodeDecodeError      \<comment> \<open>a \<^verbatim>\<open>ValueError\<close>\<close>
  | UnicodeEncodeError      \<comment> \<open>a \<^verbatim>\<open>ValueError\<close>\<close>
  | JSONDecodeError         \<comment> \<open>\<^verbatim>\<open>json.JSONDecodeError\<close>, a \<^verbatim>\<open>ValueError\<close>\<close>
  | PyOverflowError
  | AgentError              \<comment> \<open>of the serial agent; the first piece is its code\<close>
  | PyRuntimeError
  | PyOSError
  | PyNotImplementedError
  | YAMLError               \<comment> \<open>\<^verbatim>\<open>yaml.YAMLError\<close>\<close>
  | ValidationError         \<comment> \<open>\<^verbatim>\<open>pydantic.ValidationError\<close>, a \<^verbatim>\<open>ValueError\<close>\<close>
  | SerialException         \<comment> \<open>\<^verbatim>\<open>serial.SerialException\<close>, an \<^verbatim>\<open>OSError\<close>\<close>
  | SSHException            \<comment> \<open>\<^verbatim>\<open>paramiko.SSHException\<close>\<close>
  | PyTimeoutError          \<comment> \<open>an \<^verbatim>\<open>OSError\<close>\<close>
  | PyFileNotFoundError     \<comment> \<open>an \<^verbatim>\<open>OSError\<close>\<close>
  | InvalidImageReferenceError
  | RunnerBusyError         \<comment> \<open>the first piece is the id of the running operation\<close>
  | NoActiveOperationError
  | OidcError
  | PyJWTError              \<comment> \<open>\<^verbatim>\<open>jwt.PyJWTError\<close>\<close>
  | HTTPException           \<comment> \<open>the first piece is the status code\<close>

text \<open>A message is a list of pieces, so that \<^verbatim>\<open>{x!r}\<close> and \<^verbatim>\<open>{error}\<close> need no model of
  \<^verbatim>\<open>repr\<close> and of foreign messages.\<close>

datatype piece = Txt pystr | Repr pystr | Num int | Cause exn
  and exn = Exn (exn_kind: exn_class) (exn_message: "piece list")

fun base_class :: "exn_class \<Rightarrow> exn_class option" where
  "base_class PyException = None"
| "base_class HardwareTestError = Some PyException"
| "base_class InventoryError = Some HardwareTestError"
| "base_class UnknownStandError = Some InventoryError"
| "base_class FactoryError = Some HardwareTestError"
| "base_class TransportError = Some HardwareTestError"
| "base_class TransportTimeoutError = Some TransportError"
| "base_class UnsupportedCommandError = Some TransportError"
| "base_class ScenarioError = Some PyValueError"
| "base_class UsageError = Some PyException"
| "base_class PyLookupError = Some PyException"
| "base_class PyKeyError = Some PyLookupError"
| "base_class PyTypeError = Some PyException"
| "base_class PyValueError = Some PyException"
| "base_class UnicodeDecodeError = Some PyValueError"
| "base_class UnicodeEncodeError = Some PyValueError"
| "base_class JSONDecodeError = Some PyValueError"
| "base_class PyOverflowError = Some PyException"
| "base_class AgentError = Some PyException"
| "base_class PyRuntimeError = Some PyException"
| "base_class PyOSError = Some PyException"
| "base_class PyNotImplementedError = Some PyRuntimeError"
| "base_class YAMLError = Some PyException"
| "base_class ValidationError = Some PyValueError"
| "base_class SerialException = Some PyOSError"
| "base_class SSHException = Some PyException"
| "base_class PyTimeoutError = Some PyOSError"
| "base_class PyFileNotFoundError = Some PyOSError"
| "base_class InvalidImageReferenceError = Some PyValueError"
| "base_class RunnerBusyError = Some PyRuntimeError"
| "base_class NoActiveOperationError = Some PyRuntimeError"
| "base_class OidcError = Some PyException"
| "base_class PyJWTError = Some PyException"
| "base_class HTTPException = Some PyException"

fun class_depth :: "exn_class \<Rightarrow> nat" where
  "class_depth PyException = 0"
| "class_depth UnknownStandError = 3"
| "class_depth InventoryError = 2"
| "class_depth FactoryError = 2"
| "class_depth TransportError = 2"
| "class_depth TransportTimeoutError = 3"
| "class_depth UnsupportedCommandError = 3"
| "class_depth ScenarioError = 2"
| "class_depth PyKeyError = 2"
| "class_depth PyNotImplementedError = 2"
| "class_depth ValidationError = 2"
| "class_depth UnicodeDecodeError = 2"
| "class_depth UnicodeEncodeError = 2"
| "class_depth JSONDecodeError = 2"
| "class_depth SerialException = 2"
| "class_depth PyTimeoutError = 2"
| "class_depth PyFileNotFoundError = 2"
| "class_depth InvalidImageReferenceError = 2"
| "class_depth RunnerBusyError = 2"
| "class_depth NoActiveOperationError = 2"
| "class_depth _ = 1"

lemma base_class_depth: "base_class c = Some d \<Longrightarrow> class_depth d < class_depth c"
  by (cases c) auto

function subclass_of :: "exn_class \<Rightarrow> exn_class \<Rightarrow> bool" where
  "subclass_of c d =
     (c = d \<or> (case base_class c of None \<Rightarrow> False | Some b \<Rightarrow> subclass_of b d))"
  by pat_completeness auto
termination
  by (relation "measure (\<lambda>(c, d). class_depth c)") (auto simp: base_class_depth)

declare subclass_of.simps [simp del]

text \<open>\<^verbatim>\<open>except C\<close> catches an exception whose class is a subclass of \<open>C\<close>.\<close>

definition caught_by :: "exn \<Rightarrow> exn_class \<Rightarrow> bool" where
  "caught_by e c = subclass_of (exn_kind e) c"

definition raise_txt :: "exn_class \<Rightarrow> string \<Rightarrow> exn" where
  "raise_txt c s = Exn c [Txt (lit s)]"

definition quoted :: "pystr \<Rightarrow> piece" where
  \<comment> \<open>a value between single quotes, \<^verbatim>\<open>'{value}'\<close>\<close>
  "quoted s = Txt ([39] @ s @ [39])"

lemma subclass_of_refl [simp]: "subclass_of c c"
  by (simp add: subclass_of.simps)

lemma subclass_of_PyException [simp]: "subclass_of c PyException"
  by (cases c) (simp_all add: subclass_of.simps)

lemma exn_kind_raise_txt [simp]: "exn_kind (raise_txt c s) = c"
  by (simp add: raise_txt_def)

section \<open>Model validation\<close>

text \<open>A Pydantic model raises one error that lists the errors of its fields.\<close>

definition checked :: "exn list \<Rightarrow> 'a \<Rightarrow> exn + 'a" where
  "checked es v = (if es = [] then Inr v else Inl (Exn ValidationError (map Cause es)))"

definition constraint :: "bool \<Rightarrow> string \<Rightarrow> exn list" where
  \<comment> \<open>a \<^verbatim>\<open>Field(...)\<close> constraint, reported by the field's name\<close>
  "constraint b name = (if b then [] else [raise_txt PyValueError name])"

definition with_default :: "'a \<Rightarrow> 'a option \<Rightarrow> 'a" where
  "with_default d v = (case v of None \<Rightarrow> d | Some x \<Rightarrow> x)"

lemma checked_Inr_iff [simp]: "checked es v = Inr x \<longleftrightarrow> es = [] \<and> x = v"
  by (auto simp: checked_def)

lemma checked_error: "checked es v = Inl e \<Longrightarrow> exn_kind e = ValidationError"
  by (auto simp: checked_def split: if_splits)

lemma constraint_Nil [simp]: "constraint b n = [] \<longleftrightarrow> b"
  by (simp add: constraint_def)

end
