(* ===== verification/Paths.thy ===== *)
theory Paths
  imports Exceptions
begin

text \<open>
  \<^verbatim>\<open>pathlib.PurePosixPath\<close> as the sources use it: parsing, printing, joining, parents and
  containment, and the one rule for serial device paths that the inventory
  (\<^verbatim>\<open>src/hardware_test/inventory/models.py\<close>) and the serial agent
  (\<^verbatim>\<open>helpers/serial-agent/.../agent.py\<close>) both apply.
\<close>

section \<open>Pure paths\<close>

text \<open>A path is its root (empty, \<^verbatim>\<open>/\<close>, or \<^verbatim>\<open>//\<close> for exactly two leading slashes) and its
  components; empty components and \<^verbatim>\<open>.\<close> disappear, \<^verbatim>\<open>..\<close> stays.\<close>

datatype ppath = PPath (p_root: pystr) (p_parts: "pystr list")

definition path_root_of :: "pystr \<Rightarrow> pystr" where
  "path_root_of s =
     (if prefix (lit ''//'') s \<and> \<not> prefix (lit ''///'') s then lit ''//''
      else if prefix (lit ''/'') s then lit ''/''
      else [])"

definition parse_path :: "pystr \<Rightarrow> ppath" where
  "parse_path s =
     PPath (path_root_of s) (filter (\<lambda>p. p \<noteq> [] \<and> p \<noteq> lit ''.'') (split_on 47 s))"

definition path_str :: "ppath \<Rightarrow> pystr" where
  "path_str p =
     (if p_root p = [] \<and> p_parts p = [] then lit ''.''
      else p_root p @ join (lit ''/'') (p_parts p))"

definition path_join :: "ppath \<Rightarrow> ppath \<Rightarrow> ppath" where
  \<comment> \<open>\<^verbatim>\<open>a / b\<close>: an absolute right operand replaces the left one\<close>
  "path_join a b = (if p_root b \<noteq> [] then b else PPath (p_root a) (p_parts a @ p_parts b))"

definition path_parent :: "ppath \<Rightarrow> ppath" where
  "path_parent p = PPath (p_root p) (butlast (p_parts p))"

definition path_name :: "ppath \<Rightarrow> pystr" where
  "path_name p = (if p_parts p = [] then [] else last (p_parts p))"

definition is_absolute :: "ppath \<Rightarrow> bool" where
  "is_absolute p \<longleftrightarrow> p_root p \<noteq> []"

definition is_relative_to :: "ppath \<Rightarrow> ppath \<Rightarrow> bool" where
  "is_relative_to p q \<longleftrightarrow> p_root p = p_root q \<and> prefix (p_parts q) (p_parts p)"

definition dotdot :: pystr where
  "dotdot = lit ''..''"

text \<open>A path as the constructor leaves it: components that a string can spell.\<close>

definition path_ok :: "ppath \<Rightarrow> bool" where
  "path_ok p \<longleftrightarrow> p_root p \<in> {[], lit ''/'', lit ''//''} \<and>
     (\<forall>c \<in> set (p_parts p). c \<noteq> [] \<and> c \<noteq> lit ''.'' \<and> 47 \<notin> set c)"

section \<open>Facts about paths\<close>

lemma path_ok_parse [simp]: "path_ok (parse_path s)"
  by (auto simp: path_ok_def parse_path_def path_root_of_def dest: split_on_no_sep)

lemma path_ok_join: "path_ok a \<Longrightarrow> path_ok b \<Longrightarrow> path_ok (path_join a b)"
  by (auto simp: path_ok_def path_join_def)

lemma path_parent_append [simp]: "path_parent (PPath r (ps @ [c])) = PPath r ps"
  by (simp add: path_parent_def)

lemma path_parent_join_name:
  "path_parent (path_join d (PPath [] [c])) = d"
  by (cases d) (simp add: path_join_def path_parent_def)

lemma is_relative_to_refl [simp]: "is_relative_to p p"
  by (simp add: is_relative_to_def)

lemma is_relative_to_trans: "is_relative_to p q \<Longrightarrow> is_relative_to q r \<Longrightarrow> is_relative_to p r"
  by (auto simp: is_relative_to_def intro: prefix_order.trans)

lemma is_relative_to_iff:
  "is_relative_to p q \<longleftrightarrow> (\<exists>cs. p = PPath (p_root q) (p_parts q @ cs))"
  by (cases p) (auto simp: is_relative_to_def prefix_def)

lemma path_join_relative: "p_root b = [] \<Longrightarrow> is_relative_to (path_join a b) a"
  by (cases a) (simp add: is_relative_to_def path_join_def)

lemma split_join_parts:
  assumes "path_ok p"
  shows "filter (\<lambda>c. c \<noteq> [] \<and> c \<noteq> lit ''.'') (split_on 47 (join [47] (p_parts p))) = p_parts p"
proof (cases "p_parts p = []")
  case False
  with assms have "split_on 47 (join [47] (p_parts p)) = p_parts p"
    by (intro split_on_join) (auto simp: path_ok_def)
  with assms show ?thesis by (simp add: path_ok_def filter_id_conv)
qed simp

section \<open>Serial device paths\<close>

text \<open>\<^verbatim>\<open>any(character in value for character in "\0\r\n")\<close>\<close>

definition has_control_char :: "pystr \<Rightarrow> bool" where
  "has_control_char v \<longleftrightarrow> list_ex (\<lambda>c. c \<in> set v) [0, 13, 10]"

definition dev_dir :: ppath where
  "dev_dir = parse_path (lit ''/dev'')"

definition below_dev :: "pystr \<Rightarrow> bool" where
  "below_dev v =
     (let path = parse_path v in
      \<not> (\<not> is_absolute path \<or> path = dev_dir \<or> \<not> is_relative_to path dev_dir \<or>
         dotdot \<in> set (p_parts path)))"

lemma dev_dir_eq: "dev_dir = PPath (lit ''/'') [lit ''dev'']"
  by code_simp

lemma below_dev_iff:
  "below_dev v \<longleftrightarrow>
     (\<exists>c cs. parse_path v = PPath (lit ''/'') (lit ''dev'' # c # cs) \<and> dotdot \<notin> set (c # cs))"
  (is "_ \<longleftrightarrow> ?R")
proof
  assume b: "below_dev v"
  then have rel: "is_relative_to (parse_path v) dev_dir" and ne: "parse_path v \<noteq> dev_dir"
    and dd: "dotdot \<notin> set (p_parts (parse_path v))"
    by (auto simp: below_dev_def Let_def)
  from rel obtain cs where p: "parse_path v = PPath (lit ''/'') (lit ''dev'' # cs)"
    by (auto simp: is_relative_to_iff dev_dir_eq)
  with ne obtain c cs' where "cs = c # cs'" by (cases cs) (auto simp: dev_dir_eq)
  with p dd show ?R by auto
next
  assume ?R
  then show "below_dev v"
    by (auto simp: below_dev_def Let_def is_absolute_def dev_dir_eq is_relative_to_def dotdot_def)
qed

end
