(* ===== verification/Effects.thy ===== *)
theory Effects
  imports Exceptions
begin

text \<open>
  Computations with effects: a function from the world to its outcome, an exception or a
  value, and the world it leaves; \<open>None\<close> is a computation that does not return. The
  combinators are Python's sequencing, \<^verbatim>\<open>raise\<close>, \<^verbatim>\<open>try\<close>/\<^verbatim>\<open>except\<close> and
  \<^verbatim>\<open>try\<close>/\<^verbatim>\<open>finally\<close>; polling loops are \<^theory_text>\<open>partial_function (option)\<close> over them.
\<close>

named_theorems io_simps \<open>running the effect combinators\<close>
named_theorems io_cases \<open>inversion of a finished run\<close>

type_synonym ('w, 'a) io = "'w \<Rightarrow> ((exn + 'a) \<times> 'w) option"

definition returning :: "'a \<Rightarrow> ('w, 'a) io" where
  "returning x = (\<lambda>w. Some (Inr x, w))"

definition raising :: "exn \<Rightarrow> ('w, 'a) io" where
  "raising e = (\<lambda>w. Some (Inl e, w))"

definition lifting :: "exn + 'a \<Rightarrow> ('w, 'a) io" where
  "lifting r = (\<lambda>w. Some (r, w))"

definition reading :: "('w \<Rightarrow> 'a) \<Rightarrow> ('w, 'a) io" where
  "reading f = (\<lambda>w. Some (Inr (f w), w))"

definition modifying :: "('w \<Rightarrow> 'w) \<Rightarrow> ('w, unit) io" where
  "modifying f = (\<lambda>w. Some (Inr (), f w))"

definition io_bind :: "('w, 'a) io \<Rightarrow> ('a \<Rightarrow> ('w, 'b) io) \<Rightarrow> ('w, 'b) io" where
  "io_bind m f = (\<lambda>w. case m w of
       None \<Rightarrow> None
     | Some (Inl e, w') \<Rightarrow> Some (Inl e, w')
     | Some (Inr x, w') \<Rightarrow> f x w')"

abbreviation io_then :: "('w, 'a) io \<Rightarrow> ('w, 'b) io \<Rightarrow> ('w, 'b) io" where
  "io_then m n \<equiv> io_bind m (\<lambda>_. n)"

definition try_except :: "('w, 'a) io \<Rightarrow> (exn \<Rightarrow> ('w, 'a) io) \<Rightarrow> ('w, 'a) io" where
  \<comment> \<open>\<^verbatim>\<open>except Exception\<close>: the handler decides which classes it handles\<close>
  "try_except m h = (\<lambda>w. case m w of
       None \<Rightarrow> None
     | Some (Inl e, w') \<Rightarrow> h e w'
     | Some (Inr x, w') \<Rightarrow> Some (Inr x, w'))"

definition try_finally :: "('w, 'a) io \<Rightarrow> ('w, unit) io \<Rightarrow> ('w, 'a) io" where
  \<comment> \<open>an exception of the \<^verbatim>\<open>finally\<close> block replaces the outcome\<close>
  "try_finally m f = (\<lambda>w. case m w of
       None \<Rightarrow> None
     | Some (r, w') \<Rightarrow> (case f w' of
           None \<Rightarrow> None
         | Some (Inl e, w'') \<Rightarrow> Some (Inl e, w'')
         | Some (Inr u, w'') \<Rightarrow> Some (r, w'')))"

definition io_when :: "bool \<Rightarrow> ('w, unit) io \<Rightarrow> ('w, unit) io" where
  "io_when b m = (if b then m else returning ())"

section \<open>Running\<close>

lemma run_simps [io_simps]:
  "returning x w = Some (Inr x, w)"
  "raising e w = Some (Inl e, w)"
  "lifting r w = Some (r, w)"
  "reading f w = Some (Inr (f w), w)"
  "modifying g w = Some (Inr (), g w)"
  by (simp_all add: returning_def raising_def lifting_def reading_def modifying_def)

lemma run_bind [io_simps]:
  "m w = None \<Longrightarrow> io_bind m f w = None"
  "m w = Some (Inl e, w') \<Longrightarrow> io_bind m f w = Some (Inl e, w')"
  "m w = Some (Inr x, w') \<Longrightarrow> io_bind m f w = f x w'"
  by (simp_all add: io_bind_def)

lemma run_try_except [io_simps]:
  "m w = None \<Longrightarrow> try_except m h w = None"
  "m w = Some (Inl e, w') \<Longrightarrow> try_except m h w = h e w'"
  "m w = Some (Inr x, w') \<Longrightarrow> try_except m h w = Some (Inr x, w')"
  by (simp_all add: try_except_def)

lemma run_try_finally [io_simps]:
  "m w = None \<Longrightarrow> try_finally m f w = None"
  "m w = Some (r, w') \<Longrightarrow> try_finally m f w = (case f w' of None \<Rightarrow> None
     | Some (Inl e, w'') \<Rightarrow> Some (Inl e, w'') | Some (Inr u, w'') \<Rightarrow> Some (r, w''))"
  by (simp_all add: try_finally_def)

lemma run_when [io_simps]: "io_when b m w = (if b then m w else Some (Inr (), w))"
  by (simp add: io_when_def returning_def)

lemma io_bind_Inr [io_cases]:
  "io_bind m f w = Some (Inr y, w'') \<longleftrightarrow>
     (\<exists>x w'. m w = Some (Inr x, w') \<and> f x w' = Some (Inr y, w''))"
  by (auto simp: io_bind_def split: option.splits sum.splits)

lemma io_bind_Inl [io_cases]:
  "io_bind m f w = Some (Inl e, w'') \<longleftrightarrow>
     m w = Some (Inl e, w'') \<or> (\<exists>x w'. m w = Some (Inr x, w') \<and> f x w' = Some (Inl e, w''))"
  by (auto simp: io_bind_def split: option.splits sum.splits)

lemma try_except_Inr [io_cases]:
  "try_except m h w = Some (Inr y, w'') \<longleftrightarrow>
     m w = Some (Inr y, w'') \<or> (\<exists>e w'. m w = Some (Inl e, w') \<and> h e w' = Some (Inr y, w''))"
  by (auto simp: try_except_def split: option.splits sum.splits)

lemma try_except_Inl [io_cases]:
  "try_except m h w = Some (Inl e, w'') \<longleftrightarrow>
     (\<exists>e' w'. m w = Some (Inl e', w') \<and> h e' w' = Some (Inl e, w''))"
  by (auto simp: try_except_def split: option.splits sum.splits)

lemma try_finally_Inr [io_cases]:
  "try_finally m f w = Some (Inr y, w'') \<longleftrightarrow>
     (\<exists>u w'. m w = Some (Inr y, w') \<and> f w' = Some (Inr u, w''))"
  by (auto simp: try_finally_def split: option.splits sum.splits)

lemma try_finally_Inl [io_cases]:
  "try_finally m f w = Some (Inl e, w'') \<longleftrightarrow>
     (\<exists>r w'. m w = Some (r, w') \<and>
        (f w' = Some (Inl e, w'') \<or> r = Inl e \<and> (\<exists>u. f w' = Some (Inr u, w''))))"
  by (auto simp: try_finally_def split: option.splits sum.splits)

section \<open>Parts of a world, and loops over a list\<close>

text \<open>\<open>outer\<close> and \<open>inner\<close> run a computation on one half of a world.\<close>

definition outer :: "('w, 'a) io \<Rightarrow> ('w \<times> 's, 'a) io" where
  "outer m = (\<lambda>(w, s). case m w of None \<Rightarrow> None | Some (r, w') \<Rightarrow> Some (r, (w', s)))"

definition inner :: "('s, 'a) io \<Rightarrow> ('w \<times> 's, 'a) io" where
  "inner m = (\<lambda>(w, s). case m s of None \<Rightarrow> None | Some (r, s') \<Rightarrow> Some (r, (w, s')))"

fun io_each :: "('a \<Rightarrow> ('w, unit) io) \<Rightarrow> 'a list \<Rightarrow> ('w, unit) io" where
  \<comment> \<open>\<^verbatim>\<open>for x in xs: f(x)\<close>\<close>
  "io_each f [] = returning ()"
| "io_each f (x # xs) = io_then (f x) (io_each f xs)"

lemma outer_Some [io_cases]:
  "outer m ws = Some (r, ws') \<longleftrightarrow> m (fst ws) = Some (r, fst ws') \<and> snd ws' = snd ws"
  by (cases ws; cases ws') (auto simp: outer_def split: option.splits)

lemma inner_Some [io_cases]:
  "inner m ws = Some (r, ws') \<longleftrightarrow> m (snd ws) = Some (r, snd ws') \<and> fst ws' = fst ws"
  by (cases ws; cases ws') (auto simp: inner_def split: option.splits)

lemma run_outer [io_simps]:
  "m w = None \<Longrightarrow> outer m (w, s) = None"
  "m w = Some (r, w') \<Longrightarrow> outer m (w, s) = Some (r, (w', s))"
  by (simp_all add: outer_def)

lemma io_bind_assoc: "io_bind (io_bind m f) g = io_bind m (\<lambda>x. io_bind (f x) g)"
  by (rule ext) (auto simp: io_bind_def split: option.splits sum.splits)

lemma io_bind_returning [simp]: "io_bind (returning x) f = f x"
  by (rule ext) (simp add: io_bind_def returning_def)

section \<open>Loops that may not end\<close>

text \<open>
  \<open>io_loop step s\<close> is \<^verbatim>\<open>while True\<close> over the loop variables \<open>s\<close>: the body continues with new
  ones (\<open>Inl\<close>) or leaves the loop with a value (\<open>Inr\<close>).
\<close>

definition io_sum :: "'s + 'r \<Rightarrow> ('s \<Rightarrow> ('w, 'a) io) \<Rightarrow> ('r \<Rightarrow> ('w, 'a) io) \<Rightarrow> ('w, 'a) io" where
  "io_sum x f g = (\<lambda>w. case x of Inl s \<Rightarrow> f s w | Inr r \<Rightarrow> g r w)"

lemma io_bind_mono [partial_function_mono]:
  fixes m :: "('p \<Rightarrow> 'q option) \<Rightarrow> ('w, 'a) io"
    and k :: "('p \<Rightarrow> 'q option) \<Rightarrow> 'a \<Rightarrow> ('w, 'b) io"
  assumes m: "mono_option (\<lambda>f. m f w)"
    and k: "\<And>x w'. mono_option (\<lambda>f. k f x w')"
  shows "mono_option (\<lambda>f. io_bind (m f) (k f) w)"
proof (rule monotoneI)
  fix f g :: "'p \<Rightarrow> 'q option"
  assume le: "option.le_fun f g"
  have a: "option_ord (m f w) (m g w)" using m le unfolding monotone_def by blast
  have b: "option_ord (k f x w') (k g x w')" for x w' using k le unfolding monotone_def by blast
  have b': "k f x w' = k g x w' \<or> k f x w' = None" for x w'
    using b [of x w'] by (auto simp: flat_ord_def)
  show "option_ord (io_bind (m f) (k f) w) (io_bind (m g) (k g) w)"
  proof (cases "m f w")
    case None
    then show ?thesis by (simp add: io_bind_def flat_ord_def)
  next
    case (Some rw)
    then have "m g w = Some rw" using a by (simp add: flat_ord_def)
    moreover obtain r w' where "rw = (r, w')" by (cases rw)
    ultimately show ?thesis
      using Some b' by (cases r) (auto simp: io_bind_def flat_ord_def)
  qed
qed

lemma io_sum_mono [partial_function_mono]:
  assumes "\<And>s. mono_option (\<lambda>f. m f s w)" and "\<And>r. mono_option (\<lambda>f. n f r w)"
  shows "mono_option (\<lambda>f. io_sum x (m f) (n f) w)"
  using assms by (cases x) (simp_all add: io_sum_def)

partial_function (option) io_loop ::
  "('s \<Rightarrow> ('w, 's + 'r) io) \<Rightarrow> 's \<Rightarrow> 'w \<Rightarrow> ((exn + 'r) \<times> 'w) option" where
  "io_loop step s w =
     io_bind (step s) (\<lambda>x. io_sum x (\<lambda>s' w'. io_loop step s' w') (\<lambda>r. returning r)) w"

text \<open>The finished runs of a loop.\<close>

inductive loop_run :: "('s \<Rightarrow> ('w, 's + 'r) io) \<Rightarrow> 's \<Rightarrow> 'w \<Rightarrow> exn + 'r \<Rightarrow> 'w \<Rightarrow> bool" for step where
  raised: "step s w = Some (Inl e, w') \<Longrightarrow> loop_run step s w (Inl e) w'"
| left: "step s w = Some (Inr (Inr x), w') \<Longrightarrow> loop_run step s w (Inr x) w'"
| again: "step s w = Some (Inr (Inl s'), w1) \<Longrightarrow> loop_run step s' w1 r w' \<Longrightarrow> loop_run step s w r w'"

lemma io_loop_run:
  assumes "loop_run step s w r w'" shows "io_loop step s w = Some (r, w')"
  using assms by induction (subst io_loop.simps, simp add: io_bind_def io_sum_def returning_def)+

lemma loop_run_of:
  assumes "io_loop step s w = Some z"
  shows "loop_run step s w (fst z) (snd z)"
proof (rule io_loop.raw_induct [where P = "\<lambda>step s w z. loop_run step s w (fst z) (snd z)", OF _ assms])
  fix loop and step :: "'s \<Rightarrow> ('w, 's + 'r) io" and s w z
  assume IH: "\<And>step s w z. loop step s w = Some z \<Longrightarrow> loop_run step s w (fst z) (snd z)"
    and body: "io_bind (step s) (\<lambda>x. io_sum x (loop step) returning) w = Some z"
  obtain y w1 where y: "step s w = Some (y, w1)"
    using body by (auto simp: io_bind_def split: option.splits)
  show "loop_run step s w (fst z) (snd z)"
  proof (cases y)
    case (Inl e)
    with body y show ?thesis by (auto simp: io_bind_def intro: loop_run.raised)
  next
    case (Inr q)
    with body y IH show ?thesis
      by (cases q) (auto simp: io_bind_def io_sum_def returning_def intro: loop_run.left loop_run.again)
  qed
qed

lemma io_loop_iff: "io_loop step s w = Some (r, w') \<longleftrightarrow> loop_run step s w r w'"
  using loop_run_of [of step s w "(r, w')"] io_loop_run [of step s w r w'] by auto

text \<open>A loop ends when every iteration returns and each that goes on descends in a well-founded
  relation, such as a measure.\<close>

lemma io_loop_returns_wf:
  assumes "wf R"
    and "\<And>s w. J s w \<Longrightarrow> \<exists>y w'. step s w = Some (y, w') \<and>
      (\<forall>s'. y = Inr (Inl s') \<longrightarrow> J s' w' \<and> ((s', w'), (s, w)) \<in> R)"
    and "J s w"
  shows "\<exists>z. io_loop step s w = Some z"
proof -
  have "J (fst a) (snd a) \<Longrightarrow> \<exists>z. io_loop step (fst a) (snd a) = Some z" for a
    using assms(1)
  proof (induction a rule: wf_induct_rule)
    case (less a)
    obtain s w where a: "a = (s, w)" by (cases a)
    from assms(2) [of s w] less.prems a obtain y w' where y: "step s w = Some (y, w')"
      "\<forall>s'. y = Inr (Inl s') \<longrightarrow> J s' w' \<and> ((s', w'), (s, w)) \<in> R" by auto
    consider (e) e where "y = Inl e" | (x) x where "y = Inr (Inr x)" | (s) s' where "y = Inr (Inl s')"
      by (metis sum.exhaust)
    then show ?case
    proof cases
      case (s s')
      with y(2) less.IH [of "(s', w')"] a obtain z where "io_loop step s' w' = Some z" by auto
      with y(1) s a show ?thesis by (subst io_loop.simps) (simp add: io_bind_def io_sum_def)
    qed (use y(1) a in \<open>subst io_loop.simps, simp add: io_bind_def io_sum_def returning_def\<close>)+
  qed
  from this [of "(s, w)"] assms(3) show ?thesis by simp
qed

lemma io_loop_returns:
  assumes "\<And>s w. J s w \<Longrightarrow> \<exists>y w'. step s w = Some (y, w') \<and>
      (\<forall>s'. y = Inr (Inl s') \<longrightarrow> J s' w' \<and> m s' w' < (m s w :: nat))"
    and "J s w"
  shows "\<exists>z. io_loop step s w = Some z"
  by (rule io_loop_returns_wf [where R = "measure (\<lambda>(s, w). m s w)" and J = J]) (use assms in auto)

section \<open>Invariants of a computation\<close>

definition io_keeps :: "('w \<Rightarrow> bool) \<Rightarrow> ('w, 'a) io \<Rightarrow> bool" where
  "io_keeps I m \<longleftrightarrow> (\<forall>w r w'. I w \<longrightarrow> m w = Some (r, w') \<longrightarrow> I w')"

lemma io_keepsD: "io_keeps I m \<Longrightarrow> m w = Some (r, w') \<Longrightarrow> I w \<Longrightarrow> I w'"
  by (auto simp: io_keeps_def)

lemma io_keeps_bind:
  assumes "io_keeps I m" and "\<And>x. io_keeps I (f x)"
  shows "io_keeps I (io_bind m f)"
  unfolding io_keeps_def
proof (intro allI impI)
  fix w r w' assume "I w" and "io_bind m f w = Some (r, w')"
  then show "I w'"
    using assms by (cases r) (auto simp: io_bind_Inr io_bind_Inl dest: io_keepsD)
qed

lemma io_keeps_try_except:
  assumes "io_keeps I m" and "\<And>e. io_keeps I (h e)" shows "io_keeps I (try_except m h)"
  unfolding io_keeps_def
proof (intro allI impI)
  fix w r w' assume "I w" and "try_except m h w = Some (r, w')"
  then show "I w'"
    using assms by (cases r) (auto simp: try_except_Inr try_except_Inl dest: io_keepsD)
qed

lemma io_keeps_intros:
  "io_keeps I (returning x)" "io_keeps I (raising e)" "io_keeps I (lifting s)"
  "(b \<Longrightarrow> io_keeps I m) \<Longrightarrow> (\<not> b \<Longrightarrow> io_keeps I n) \<Longrightarrow> io_keeps I (if b then m else n)"
  by (auto simp: io_keeps_def run_simps)

lemma io_keeps_loop:
  assumes "\<And>s. io_keeps I (step s)"
  shows "io_keeps I (io_loop step s)"
proof -
  have "I w'" if "loop_run step s w r w'" and "I w" for s w r w'
    using that by induction (blast dest: io_keepsD [OF assms])+
  then show ?thesis by (auto simp: io_keeps_def io_loop_iff)
qed

section \<open>Postconditions and totality\<close>

text \<open>\<open>io_post P m Q\<close>: whatever \<open>m\<close> returns or raises from a world in \<open>P\<close> satisfies \<open>Q\<close>.
  \<open>io_total I m\<close>: from a world in \<open>I\<close>, \<open>m\<close> comes back, and to a world in \<open>I\<close>.\<close>

named_theorems io_rules \<open>Hoare rules of the effect combinators\<close>

definition io_post :: "('w \<Rightarrow> bool) \<Rightarrow> ('w, 'a) io \<Rightarrow> (exn + 'a \<Rightarrow> 'w \<Rightarrow> bool) \<Rightarrow> bool" where
  "io_post P m Q \<longleftrightarrow> (\<forall>w r w'. P w \<longrightarrow> m w = Some (r, w') \<longrightarrow> Q r w')"

lemma io_postD: "io_post P m Q \<Longrightarrow> m w = Some (r, w') \<Longrightarrow> P w \<Longrightarrow> Q r w'"
  by (auto simp: io_post_def)

lemma io_post_bind [io_rules]:
  assumes "io_post P m R" and "\<And>x. io_post (R (Inr x)) (f x) Q"
    and "\<And>e w. R (Inl e) w \<Longrightarrow> Q (Inl e) w"
  shows "io_post P (io_bind m f) Q"
  unfolding io_post_def
proof (intro allI impI)
  fix w r w' assume "P w" and "io_bind m f w = Some (r, w')"
  with assms show "Q r w'"
    by (cases r) (auto simp: io_bind_Inr io_bind_Inl dest!: io_postD [OF assms(1)] dest: io_postD [OF assms(2)])
qed

lemma io_post_simple [io_rules]:
  "(\<And>w. P w \<Longrightarrow> Q (Inr x) w) \<Longrightarrow> io_post P (returning x) Q"
  "(\<And>w. P w \<Longrightarrow> Q (Inl e) w) \<Longrightarrow> io_post P (raising e) Q"
  "(\<And>w. P w \<Longrightarrow> Q r w) \<Longrightarrow> io_post P (lifting r) Q"
  by (auto simp: io_post_def run_simps)

lemma io_post_if [io_rules]:
  "(b \<Longrightarrow> io_post P m Q) \<Longrightarrow> (\<not> b \<Longrightarrow> io_post P n Q) \<Longrightarrow> io_post P (if b then m else n) Q"
  by simp

lemma io_post_weaken:
  "io_post P m Q \<Longrightarrow> (\<And>w. P' w \<Longrightarrow> P w) \<Longrightarrow> (\<And>r w. Q r w \<Longrightarrow> Q' r w) \<Longrightarrow> io_post P' m Q'"
  unfolding io_post_def by blast

lemma io_post_at: "(\<And>w0. P w0 \<Longrightarrow> io_post (\<lambda>w. f w = f w0) m Q) \<Longrightarrow> io_post P m Q"
  unfolding io_post_def by blast

lemma io_keeps_post: "io_keeps I m \<longleftrightarrow> io_post I m (\<lambda>r. I)"
  unfolding io_keeps_def io_post_def by blast

definition io_total :: "('w \<Rightarrow> bool) \<Rightarrow> ('w, 'a) io \<Rightarrow> bool" where
  "io_total I m \<longleftrightarrow> (\<forall>w. I w \<longrightarrow> (\<exists>r w'. m w = Some (r, w') \<and> I w'))"

lemma io_totalD: "io_total I m \<Longrightarrow> I w \<Longrightarrow> \<exists>r w'. m w = Some (r, w') \<and> I w'"
  by (auto simp: io_total_def)

lemma io_total_keeps:
  assumes "io_total I m" shows "io_keeps I m"
  unfolding io_keeps_def
proof (intro allI impI)
  fix w r w' assume "I w" and run: "m w = Some (r, w')"
  with io_totalD [OF assms] obtain r2 w2 where "m w = Some (r2, w2)" "I w2" by blast
  with run show "I w'" by simp
qed

lemma io_total_of_keeps:
  assumes "\<And>w. I w \<Longrightarrow> \<exists>z. m w = Some z" and "io_keeps I m"
  shows "io_total I m"
  unfolding io_total_def
proof (intro allI impI)
  fix w assume "I w"
  with assms(1) obtain r w' where run: "m w = Some (r, w')" by fastforce
  from io_keepsD [OF assms(2) run \<open>I w\<close>] run show "\<exists>r w'. m w = Some (r, w') \<and> I w'" by blast
qed

lemma io_total_bind [io_rules]:
  assumes "io_total I m" and "\<And>x. io_total I (f x)"
  shows "io_total I (io_bind m f)"
  unfolding io_total_def
proof (intro allI impI)
  fix w assume "I w"
  with assms(1) obtain r w' where r: "m w = Some (r, w')" "I w'" by (auto simp: io_total_def)
  then show "\<exists>r w'. io_bind m f w = Some (r, w') \<and> I w'"
    using assms(2) by (cases r) (auto simp: io_bind_def io_total_def)
qed

lemma io_total_simple [io_rules]:
  "io_total I (returning x)" "io_total I (raising e)" "io_total I (lifting r)"
  by (simp_all add: io_total_def run_simps)

lemma io_total_if [io_rules]:
  "(b \<Longrightarrow> io_total I m) \<Longrightarrow> (\<not> b \<Longrightarrow> io_total I n) \<Longrightarrow> io_total I (if b then m else n)"
  by simp

section \<open>Operations that return\<close>

text \<open>\<open>io_raises K m\<close>: \<open>m\<close> returns in every state, and what it raises is in \<open>K\<close>.\<close>

definition io_raises :: "(exn \<Rightarrow> bool) \<Rightarrow> ('w, 'a) io \<Rightarrow> bool" where
  "io_raises K m \<longleftrightarrow> (\<forall>w. \<exists>r w'. m w = Some (r, w') \<and> (\<forall>e. r = Inl e \<longrightarrow> K e))"

lemma io_raisesD: "io_raises K m \<Longrightarrow> \<exists>r w'. m w = Some (r, w') \<and> (\<forall>e. r = Inl e \<longrightarrow> K e)"
  by (auto simp: io_raises_def)

lemma io_raises_never:
  assumes "io_raises (\<lambda>_. False) m" shows "\<exists>x w'. m w = Some (Inr x, w')"
proof -
  obtain q w' where "m w = Some (q, w')" "\<forall>e. q \<noteq> Inl e" using io_raisesD [OF assms, of w] by blast
  then show ?thesis by (cases q) auto
qed

lemma io_raises_bind:
  assumes "io_raises K m" and "\<And>x. io_raises K (f x)"
  shows "io_raises K (io_bind m f)"
  unfolding io_raises_def
proof
  fix w
  obtain r w' where m: "m w = Some (r, w')" and r: "\<forall>e. r = Inl e \<longrightarrow> K e"
    using io_raisesD [OF assms(1)] by blast
  show "\<exists>r w'. io_bind m f w = Some (r, w') \<and> (\<forall>e. r = Inl e \<longrightarrow> K e)"
    using m r io_raisesD [OF assms(2)] by (cases r) (auto simp: io_bind_def)
qed

lemma io_raises_simple:
  "io_raises K (returning x)" "K e \<Longrightarrow> io_raises K (raising e)"
  "(\<And>e. r = Inl e \<Longrightarrow> K e) \<Longrightarrow> io_raises K (lifting r)"
  "io_raises K (reading g)" "io_raises K (modifying h)"
  by (auto simp: io_raises_def run_simps)

lemma io_raises_if: "(b \<Longrightarrow> io_raises K m) \<Longrightarrow> (\<not> b \<Longrightarrow> io_raises K n) \<Longrightarrow> io_raises K (if b then m else n)"
  by simp

lemma io_raises_finally:
  assumes "io_raises (\<lambda>_. True) m" and "io_raises (\<lambda>_. True) f"
  shows "io_raises (\<lambda>_. True) (try_finally m f)"
  unfolding io_raises_def
proof
  fix w
  obtain r w1 where run: "m w = Some (r, w1)" using io_raisesD [OF assms(1), of w] by blast
  obtain q w2 where "f w1 = Some (q, w2)" using io_raisesD [OF assms(2), of w1] by blast
  with run show "\<exists>r w'. try_finally m f w = Some (r, w') \<and> (\<forall>e. r = Inl e \<longrightarrow> True)"
    by (cases q) (auto simp: try_finally_def)
qed

lemma io_raises_outer:
  assumes "io_raises K m" shows "io_raises K (outer m)"
  unfolding io_raises_def
proof
  fix ws
  show "\<exists>r ws'. outer m ws = Some (r, ws') \<and> (\<forall>e. r = Inl e \<longrightarrow> K e)"
    using io_raisesD [OF assms, of "fst ws"] by (cases ws) (auto simp: outer_def)
qed

lemma io_raises_inner:
  assumes "io_raises K m" shows "io_raises K (inner m)"
  unfolding io_raises_def
proof
  fix ws
  show "\<exists>r ws'. inner m ws = Some (r, ws') \<and> (\<forall>e. r = Inl e \<longrightarrow> K e)"
    using io_raisesD [OF assms, of "snd ws"] by (cases ws) (auto simp: inner_def)
qed

lemma io_raises_try_except:
  assumes "io_raises L m" and "\<And>e. L e \<Longrightarrow> io_raises K (h e)"
  shows "io_raises K (try_except m h)"
  unfolding io_raises_def
proof
  fix w
  obtain r w' where m: "m w = Some (r, w')" and r: "\<forall>e. r = Inl e \<longrightarrow> L e"
    using io_raisesD [OF assms(1)] by blast
  show "\<exists>r w'. try_except m h w = Some (r, w') \<and> (\<forall>e. r = Inl e \<longrightarrow> K e)"
    using m r io_raisesD [OF assms(2)] by (cases r) (auto simp: try_except_def)
qed

lemma io_raises_weaken: "io_raises K m \<Longrightarrow> (\<And>e. K e \<Longrightarrow> L e) \<Longrightarrow> io_raises L m"
  unfolding io_raises_def by meson

lemmas io_raises_intros = io_raises_bind io_raises_simple io_raises_if io_raises_outer io_raises_inner

section \<open>Equal continuations\<close>

lemma io_bind_cong: "(\<And>x. f x = g x) \<Longrightarrow> io_bind m f = io_bind m g"
  by presburger

lemma io_bind_lifting_cong: "(\<And>x. q = Inr x \<Longrightarrow> f x = g x) \<Longrightarrow> io_bind (lifting q) f = io_bind (lifting q) g"
  by (rule ext) (auto simp: io_bind_def lifting_def split: sum.splits)

end
