(* ===== verification/Scenarios.thy ===== *)
theory Scenarios
  imports Paths Effects
begin

text \<open>
  Marker scenarios: \<^verbatim>\<open>src/hardware_test/scenarios.py\<close>. The YAML reader and Pydantic's
  coercion of the document into typed fields are parameters; the field validators, the
  order of the checks and the translation of the errors are the code's.
\<close>

section \<open>Names\<close>

definition scenario_name_ok :: "pystr \<Rightarrow> bool" where
  \<comment> \<open>\<^verbatim>\<open>^[A-Za-z0-9][A-Za-z0-9_-]*$\<close>, full match\<close>
  "scenario_name_ok s =
     (case s of [] \<Rightarrow> False
      | c # cs \<Rightarrow> is_alnum_cp c \<and> list_all (\<lambda>x. is_alnum_cp x \<or> char_class ''_-'' x) cs)"

definition marker_name_ok :: "pystr \<Rightarrow> bool" where
  \<comment> \<open>\<^verbatim>\<open>^[A-Za-z_][A-Za-z0-9_]*$\<close>, full match\<close>
  "marker_name_ok s =
     (case s of [] \<Rightarrow> False
      | c # cs \<Rightarrow> (is_upper_cp c \<or> is_lower_cp c \<or> char_class ''_'' c) \<and>
          list_all (\<lambda>x. is_alnum_cp x \<or> char_class ''_'' x) cs)"

section \<open>Scenario validation\<close>

record scenario_config =
  sc_name :: pystr
  sc_markers :: "pystr list"

fun first_duplicate_from :: "pystr list \<Rightarrow> pystr list \<Rightarrow> pystr option" where
  "first_duplicate_from seen [] = None"
| "first_duplicate_from seen (v # vs) =
     (if v \<in> set seen then Some v else first_duplicate_from (v # seen) vs)"

definition first_duplicate :: "pystr list \<Rightarrow> pystr option" where
  "first_duplicate vs = first_duplicate_from [] vs"

definition validate_name :: "pystr \<Rightarrow> exn + pystr" where
  "validate_name value =
     (if \<not> scenario_name_ok value
      then Inl (raise_txt PyValueError
        ''must contain only letters, numbers, underscores, and hyphens'')
      else Inr value)"

definition validate_markers :: "pystr list \<Rightarrow> exn + pystr list" where
  "validate_markers values =
     (let markers = map strip values;
          invalid = filter (\<lambda>m. \<not> marker_name_ok m) markers
      in if markers = [] then Inl (raise_txt PyValueError ''must contain at least one marker'')
         else if invalid \<noteq> []
         then Inl (Exn PyValueError [Txt (lit ''contains invalid marker name ''), quoted (hd invalid)])
         else case first_duplicate markers of
             Some d \<Rightarrow> Inl (Exn PyValueError [Txt (lit ''contains duplicate marker ''), quoted d])
           | None \<Rightarrow> Inr markers)"

text \<open>The model's constructor runs both validators and collects what they raise.\<close>

definition scenario_model :: "pystr \<Rightarrow> pystr list \<Rightarrow> exn + scenario_config" where
  "scenario_model name markers =
     (case (validate_name name, validate_markers markers) of
        (Inr n, Inr ms) \<Rightarrow> Inr \<lparr>sc_name = n, sc_markers = ms\<rparr>
      | (Inl e, Inr _) \<Rightarrow> Inl (Exn ValidationError [Cause e])
      | (Inr _, Inl e) \<Rightarrow> Inl (Exn ValidationError [Cause e])
      | (Inl e, Inl e') \<Rightarrow> Inl (Exn ValidationError [Cause e, Cause e']))"

definition parse_marker_sequence :: "pystr \<Rightarrow> exn + pystr list" where
  "parse_marker_sequence value =
     (case scenario_model (lit ''command-line'') (split_on 44 value) of
        Inr s \<Rightarrow> Inr (sc_markers s)
      | Inl e \<Rightarrow>
          if caught_by e PyValueError
          then Inl (Exn ScenarioError [Txt (lit ''Invalid marker sequence: ''), Cause e])
          else Inl e)"

section \<open>Loading a scenario file\<close>

text \<open>
  \<open>read_text\<close> reads a file, \<open>safe_load\<close> parses YAML into a document, and \<open>to_fields\<close> is
  Pydantic's coercion of the document into the declared fields. All three may raise.
\<close>

definition scenario_path :: "ppath \<Rightarrow> pystr \<Rightarrow> ppath" where
  "scenario_path rootpath name =
     path_join (path_join (path_join rootpath (parse_path (lit ''test-runs'')))
       (parse_path (lit ''scenarios''))) (parse_path (name @ lit ''.yaml''))"

definition load_scenario ::
  "(ppath \<Rightarrow> ('w, pystr) io) \<Rightarrow> (pystr \<Rightarrow> exn + 'y) \<Rightarrow> ('y \<Rightarrow> exn + pystr \<times> pystr list)
     \<Rightarrow> ppath \<Rightarrow> pystr \<Rightarrow> ('w, scenario_config) io" where
  "load_scenario read_text safe_load to_fields rootpath name =
     (if \<not> scenario_name_ok name
      then raising (Exn ScenarioError [Txt (lit ''Invalid scenario name ''), quoted name,
        Txt (lit '': use only letters, numbers, underscores, and hyphens'')])
      else
        let path = scenario_path rootpath name in
        io_bind
          (try_except
            (io_bind (read_text path) (\<lambda>text. lifting (try_bind (safe_load text) (\<lambda>content.
               try_bind (to_fields content) (\<lambda>(n, ms). scenario_model n ms)))))
            (\<lambda>e.
              if caught_by e PyOSError
              then raising (Exn ScenarioError [Txt (lit ''Cannot read scenario ''), quoted name,
                Txt (lit '' from ''), quoted (path_str path), Txt (lit '': ''), Cause e])
              else if caught_by e YAMLError
              then raising (Exn ScenarioError [Txt (lit ''Invalid YAML in scenario ''), quoted name,
                Txt (lit '' at ''), quoted (path_str path), Txt (lit '': ''), Cause e])
              else if caught_by e PyValueError
              then raising (Exn ScenarioError [Txt (lit ''Invalid scenario ''), quoted name,
                Txt (lit '' at ''), quoted (path_str path), Txt (lit '': ''), Cause e])
              else raising e))
          (\<lambda>scenario.
            if sc_name scenario \<noteq> name
            then raising (Exn ScenarioError [Txt (lit ''Scenario file ''), quoted (path_str path),
              Txt (lit '' declares name ''), quoted (sc_name scenario),
              Txt (lit '', expected ''), quoted name])
            else returning scenario))"

section \<open>Properties\<close>

lemma first_duplicate_from_None:
  "first_duplicate_from seen vs = None \<longleftrightarrow> distinct vs \<and> set vs \<inter> set seen = {}"
  by (induction vs arbitrary: seen) auto

lemma first_duplicate_None [simp]: "first_duplicate vs = None \<longleftrightarrow> distinct vs"
  by (simp add: first_duplicate_def first_duplicate_from_None)

lemma first_duplicate_Some_not_distinct: "first_duplicate vs = Some d \<Longrightarrow> \<not> distinct vs"
  using first_duplicate_None [of vs] by auto

lemma first_duplicate_from_Some:
  "first_duplicate_from seen vs = Some d \<Longrightarrow>
     \<exists>xs ys. vs = xs @ d # ys \<and> d \<in> set seen \<union> set xs \<and> distinct xs \<and> set xs \<inter> set seen = {}"
proof (induction vs arbitrary: seen)
  case (Cons v vs)
  show ?case
  proof (cases "v \<in> set seen")
    case True
    with Cons.prems show ?thesis by (intro exI [of _ "[]"] exI [of _ vs]) auto
  next
    case False
    with Cons obtain xs ys where "vs = xs @ d # ys" "d \<in> insert v (set seen) \<union> set xs"
      "distinct xs" "set xs \<inter> insert v (set seen) = {}"
      by fastforce
    with False show ?thesis by (intro exI [of _ "v # xs"] exI [of _ ys]) auto
  qed
qed simp

lemma validate_markers_Inr_iff:
  "validate_markers vs = Inr ms \<longleftrightarrow>
     ms = map strip vs \<and> ms \<noteq> [] \<and> list_all marker_name_ok ms \<and> distinct ms"
  by (auto simp: validate_markers_def Let_def list_all_iff filter_empty_conv
      dest: first_duplicate_Some_not_distinct split: option.splits)

lemma scenario_model_Inr_iff:
  "scenario_model n vs = Inr s \<longleftrightarrow>
     scenario_name_ok n \<and> validate_markers vs = Inr (sc_markers s) \<and> sc_name s = n"
  by (auto simp: scenario_model_def validate_name_def split: sum.splits)

lemma scenario_model_error:
  "scenario_model n vs = Inl e \<Longrightarrow> exn_kind e = ValidationError"
  by (auto simp: scenario_model_def split: sum.splits)

lemma scenario_name_file:
  assumes "scenario_name_ok n"
  shows "parse_path (n @ lit ''.yaml'') = PPath [] [n @ lit ''.yaml'']"
proof -
  obtain c cs where n: "n = c # cs" and c: "is_alnum_cp c"
    and cs: "\<forall>x \<in> set cs. is_alnum_cp x \<or> char_class ''_-'' x"
    using assms by (auto simp: scenario_name_ok_def list_all_iff split: list.splits)
  have "47 \<notin> set (n @ lit ''.yaml'')"
    using c cs by (auto simp: n lit_Cons is_alnum_cp_def is_digit_cp_def is_upper_cp_def
        is_lower_cp_def char_class_def)
  then have "split_on 47 (n @ lit ''.yaml'') = [n @ lit ''.yaml'']"
    by (rule split_on_no_sep_eq)
  moreover have "c \<noteq> 47" "c \<noteq> 46"
    using c by (auto simp: is_alnum_cp_def is_digit_cp_def is_upper_cp_def is_lower_cp_def)
  ultimately show ?thesis
    by (simp add: parse_path_def path_root_of_def n lit_Cons)
qed

text \<open>
  C23. \<^verbatim>\<open>parse_marker_sequence\<close> accepts a comma-separated line exactly when its parts, each
  stripped of surrounding white space, are valid marker names without a repetition, and then
  returns these names in the order of the line; every rejection is a \<^verbatim>\<open>ScenarioError\<close>.
\<close>

theorem parse_marker_sequence_correct:
  "parse_marker_sequence v =
     (if list_all marker_name_ok (map strip (split_on 44 v)) \<and> distinct (map strip (split_on 44 v))
      then Inr (map strip (split_on 44 v))
      else Inl (Exn ScenarioError [Txt (lit ''Invalid marker sequence: ''),
        Cause (Exn ValidationError [Cause (projl (validate_markers (split_on 44 v)))])]))"
proof (cases "validate_markers (split_on 44 v)")
  case (Inl e)
  then have "\<not> (list_all marker_name_ok (map strip (split_on 44 v)) \<and>
      distinct (map strip (split_on 44 v)))"
    using validate_markers_Inr_iff [of "split_on 44 v" "map strip (split_on 44 v)"] by auto
  moreover have "validate_name (lit ''command-line'') = Inr (lit ''command-line'')"
    by code_simp
  moreover have "subclass_of ValidationError PyValueError" by code_simp
  ultimately show ?thesis
    using Inl by (simp add: parse_marker_sequence_def scenario_model_def caught_by_def)
next
  case (Inr ms)
  moreover have "validate_name (lit ''command-line'') = Inr (lit ''command-line'')"
    by code_simp
  ultimately show ?thesis
    using validate_markers_Inr_iff [of "split_on 44 v" ms]
    by (auto simp: parse_marker_sequence_def scenario_model_def)
qed

lemma scenario_path_eq:
  assumes "scenario_name_ok name"
  shows "scenario_path rootpath name =
    PPath (p_root rootpath)
      (p_parts rootpath @ [lit ''test-runs'', lit ''scenarios'', name @ lit ''.yaml''])"
proof -
  have "parse_path (lit ''test-runs'') = PPath [] [lit ''test-runs'']"
    "parse_path (lit ''scenarios'') = PPath [] [lit ''scenarios'']"
    by code_simp+
  then show ?thesis by (simp add: scenario_path_def path_join_def scenario_name_file [OF assms])
qed

text \<open>A reader of files that also records which paths it was asked for.\<close>

definition recording :: "(ppath \<Rightarrow> ('w, pystr) io) \<Rightarrow> ppath \<Rightarrow> ('w \<times> ppath list, pystr) io" where
  "recording read_text path = io_then (inner (modifying (\<lambda>paths. paths @ [path]))) (outer (read_text path))"

lemma recording_Some:
  "recording read_text path (w, paths) = Some (r, (w', paths')) \<longleftrightarrow>
     read_text path w = Some (r, w') \<and> paths' = paths @ [path]"
  by (cases r) (auto simp: recording_def io_cases run_simps)

lemma load_scenario_paths:
  assumes "load_scenario (recording read_text) safe_load to_fields rootpath name (w, []) = Some (r, (w', paths))"
  shows "paths = (if scenario_name_ok name then [scenario_path rootpath name] else [])"
  using assms
  by (cases r) (auto simp: load_scenario_def Let_def io_cases recording_Some run_simps split: if_splits)

lemma load_scenario_Inr:
  assumes "load_scenario read_text safe_load to_fields rootpath name w = Some (Inr s, w')"
  shows "scenario_name_ok name \<and> sc_name s = name \<and> sc_markers s \<noteq> [] \<and>
    list_all marker_name_ok (sc_markers s) \<and> distinct (sc_markers s)"
proof -
  from assms have "scenario_name_ok name"
    by (auto simp: load_scenario_def run_simps split: if_splits)
  with assms obtain n vs where "scenario_model n vs = Inr s" and "sc_name s = name"
    by (auto simp: load_scenario_def Let_def io_cases run_simps result_simps split: if_splits)
  with \<open>scenario_name_ok name\<close> show ?thesis
    by (auto simp: scenario_model_Inr_iff validate_markers_Inr_iff)
qed

text \<open>
  C24. A scenario name can only reach the file named after it: whatever the name and whatever
  comes of it, \<^verbatim>\<open>load_scenario\<close> asks for at most one file, a direct child of
  \<^verbatim>\<open><root>/test-runs/scenarios\<close> called \<^verbatim>\<open><name>.yaml\<close>; what it returns carries the
  requested name and a non-empty list of distinct valid markers.
\<close>

theorem load_scenario_confined:
  assumes "load_scenario (recording read_text) safe_load to_fields rootpath name (w, []) = Some (r, (w', paths))"
  shows "length paths \<le> 1 \<and>
    (\<forall>p \<in> set paths. path_parent p = PPath (p_root rootpath) (p_parts rootpath @ [lit ''test-runs'', lit ''scenarios''])
      \<and> path_name p = name @ lit ''.yaml'') \<and>
    (\<forall>s. r = Inr s \<longrightarrow> paths \<noteq> [] \<and> sc_name s = name \<and> sc_markers s \<noteq> [] \<and>
      list_all marker_name_ok (sc_markers s) \<and> distinct (sc_markers s))"
proof -
  note paths = load_scenario_paths [OF assms]
  have "path_parent (scenario_path rootpath name) =
      PPath (p_root rootpath) (p_parts rootpath @ [lit ''test-runs'', lit ''scenarios''])"
    "path_name (scenario_path rootpath name) = name @ lit ''.yaml''" if "scenario_name_ok name"
    by (simp_all add: scenario_path_eq [OF that] path_parent_def path_name_def butlast_append)
  moreover have "scenario_name_ok name \<and> sc_name s = name \<and> sc_markers s \<noteq> [] \<and>
    list_all marker_name_ok (sc_markers s) \<and> distinct (sc_markers s)" if "r = Inr s" for s
    using load_scenario_Inr [OF assms [unfolded that]] .
  ultimately show ?thesis using paths by simp
qed

theorem load_scenario_confined_witness:
  "\<exists>p. load_scenario (recording (\<lambda>p. returning [])) (\<lambda>_. Inr ()) (\<lambda>_. Inr (lit ''smoke'', [lit '' unit'']))
      (parse_path (lit ''/repo'')) (lit ''smoke'') ((), [])
      = Some (Inr \<lparr>sc_name = lit ''smoke'', sc_markers = [lit ''unit'']\<rparr>, ((), [p])) \<and>
    path_parent p = PPath (lit ''/'') [lit ''repo'', lit ''test-runs'', lit ''scenarios'']"
proof -
  obtain p where run: "load_scenario (recording (\<lambda>p. returning [])) (\<lambda>_. Inr ()) (\<lambda>_. Inr (lit ''smoke'', [lit '' unit'']))
      (parse_path (lit ''/repo'')) (lit ''smoke'') ((), [])
      = Some (Inr \<lparr>sc_name = lit ''smoke'', sc_markers = [lit ''unit'']\<rparr>, ((), [p]))"
    by (rule that [of "PPath (lit ''/'') [lit ''repo'', lit ''test-runs'', lit ''scenarios'', lit ''smoke.yaml'']"])
      code_simp
  have repo: "parse_path (lit ''/repo'') = PPath (lit ''/'') [lit ''repo'']" by code_simp
  from load_scenario_confined [OF run] have "path_parent p = PPath (lit ''/'') [lit ''repo'', lit ''test-runs'', lit ''scenarios'']"
    by (simp add: repo)
  with run show ?thesis by blast
qed

end
