(* ===== verification/Plugin.thy ===== *)
theory Plugin
  imports Scenarios "HOL-Library.Multiset"
begin

text \<open>
  The pytest plugin, \<^verbatim>\<open>src/hardware_test/pytest_plugin.py\<close>: command-line configuration and
  the session directory, marker sequences over the collected items, the guard for hardware
  tests, run metadata and the stop-on-fail hook, and the step logger of
  \<^verbatim>\<open>src/hardware_test/logging/step.py\<close>. pytest itself (option parsing, collection, reports),
  the file system and the git executable are parameters.
\<close>

section \<open>Configuration and session state\<close>

text \<open>The options and ini values the plugin reads, and the part of pytest's \<^verbatim>\<open>config\<close> it
  writes: the stash and \<^verbatim>\<open>maxfail\<close>.\<close>

record options =
  opt_run_id :: "pystr option"
  opt_artifacts_root :: "ppath option"
  opt_marker_sequence :: "pystr option"
  opt_scenario :: "pystr option"
  opt_stand :: "pystr option"
  ini_markers :: "pystr list"
  rootpath :: ppath
  cli_args :: "pystr list"

record stash =
  st_marker_sequence :: "pystr list"   \<comment> \<open>\<^verbatim>\<open>()\<close> when the key is absent\<close>
  st_run_directory :: "ppath option"
  st_run_metadata :: "(pystr, pystr) dict option"
  st_maxfail :: "nat option"           \<comment> \<open>\<^verbatim>\<open>None\<close>: pytest's own value\<close>

definition empty_stash :: stash where
  "empty_stash = \<lparr>st_marker_sequence = [], st_run_directory = None, st_run_metadata = None,
     st_maxfail = None\<rparr>"

text \<open>The file-system calls of \<^verbatim>\<open>pytest_configure\<close>, over any type of file systems.\<close>

record 'fs fs_ops =
  fs_resolve :: "'fs \<Rightarrow> ppath \<Rightarrow> ppath"
  fs_mkdir_parents :: "ppath \<Rightarrow> 'fs \<Rightarrow> exn + 'fs"   \<comment> \<open>\<^verbatim>\<open>mkdir(parents=True, exist_ok=True)\<close>\<close>
  fs_mkdir_new :: "ppath \<Rightarrow> 'fs \<Rightarrow> exn + 'fs"       \<comment> \<open>\<^verbatim>\<open>mkdir(exist_ok=False)\<close>\<close>

definition truthy :: "pystr option \<Rightarrow> bool" where
  "truthy s = (case s of None \<Rightarrow> False | Some x \<Rightarrow> x \<noteq> [])"

definition usage_of_scenario_error :: "exn \<Rightarrow> exn" where
  \<comment> \<open>\<^verbatim>\<open>except ScenarioError as error: raise pytest.UsageError(str(error))\<close>\<close>
  "usage_of_scenario_error e =
     (if caught_by e ScenarioError then Exn UsageError (exn_message e) else e)"

definition get_marker_sequence ::
  "(ppath \<Rightarrow> pystr \<Rightarrow> exn + scenario_config) \<Rightarrow> options \<Rightarrow> exn + pystr list" where
  \<comment> \<open>\<open>load\<close> is the outcome of \<open>load_scenario\<close> on the files there are\<close>
  "get_marker_sequence load config =
     (let marker_sequence = opt_marker_sequence config; scenario_name = opt_scenario config in
      if truthy marker_sequence \<and> truthy scenario_name
      then Inl (raise_txt UsageError ''--marker-sequence and --scenario cannot be used together'')
      else case (if truthy marker_sequence then parse_marker_sequence (the marker_sequence)
                 else if truthy scenario_name
                 then try_bind (load (rootpath config) (the scenario_name)) (\<lambda>s. Inr (sc_markers s))
                 else Inr []) of
             Inl e \<Rightarrow> Inl (usage_of_scenario_error e)
           | Inr ms \<Rightarrow> Inr ms)"

definition marker_of_definition :: "pystr \<Rightarrow> pystr" where
  \<comment> \<open>\<^verbatim>\<open>definition.partition(":")[0].partition("(")[0].strip()\<close>\<close>
  "marker_of_definition d = strip (fst (partition_on 40 (fst (partition_on 58 d))))"

definition validate_registered_markers :: "options \<Rightarrow> pystr list \<Rightarrow> exn + unit" where
  "validate_registered_markers config marker_sequence =
     (let registered = map marker_of_definition (ini_markers config);
          unknown = filter (\<lambda>m. m \<notin> set registered) marker_sequence
      in if unknown \<noteq> []
         then Inl (Exn UsageError [Txt (lit ''Marker ''), quoted (hd unknown),
           Txt (lit '' is not registered. Register it in [tool.pytest.ini_options].markers.'')])
         else Inr ())"

definition run_id_ok :: "pystr \<Rightarrow> bool" where
  \<comment> \<open>\<^verbatim>\<open>[A-Za-z0-9][A-Za-z0-9_.-]{0,127}\<close>, full match\<close>
  "run_id_ok s =
     (case s of [] \<Rightarrow> False
      | c # cs \<Rightarrow> is_alnum_cp c \<and> list_all (\<lambda>x. is_alnum_cp x \<or> char_class ''_.-'' x) cs \<and>
          length cs \<le> 127)"

text \<open>\<open>now_id\<close> is the local time in the format of a default run identity.\<close>

definition pytest_configure ::
  "(ppath \<Rightarrow> pystr \<Rightarrow> exn + scenario_config) \<Rightarrow> pystr \<Rightarrow> 'fs fs_ops \<Rightarrow> options \<Rightarrow> stash \<Rightarrow> 'fs
     \<Rightarrow> exn + stash \<times> 'fs" where
  "pytest_configure load now_id ops config stash fs =
     try_bind (get_marker_sequence load config) (\<lambda>marker_sequence.
     try_bind (if marker_sequence \<noteq> []
               then try_bind (validate_registered_markers config marker_sequence) (\<lambda>_.
                 Inr (stash\<lparr>st_marker_sequence := marker_sequence, st_maxfail := Some 1\<rparr>))
               else Inr stash) (\<lambda>stash.
     let run_id = (case opt_run_id config of Some i \<Rightarrow> i | None \<Rightarrow> now_id) in
     if \<not> run_id_ok run_id
     then Inl (raise_txt UsageError
       ''Invalid --run-id: use 1-128 ASCII letters, digits, dots, underscores or hyphens, starting with a letter or digit'')
     else
       let root_dir = fs_resolve ops fs (path_join (rootpath config)
             (case opt_artifacts_root config of Some p \<Rightarrow> p | None \<Rightarrow> parse_path (lit ''artifacts'')));
           run_dir = path_join root_dir (parse_path run_id);
           os_error = (\<lambda>e. if caught_by e PyOSError
             then Exn UsageError [Txt (lit ''Cannot create new session directory ''),
               quoted (path_str run_dir), Txt (lit '': ''), Cause e]
             else e)
       in case fs_mkdir_parents ops root_dir fs of
            Inl e \<Rightarrow> Inl (os_error e)
          | Inr fs \<Rightarrow>
              if path_parent (fs_resolve ops fs run_dir) \<noteq> root_dir
              then Inl (raise_txt UsageError ''Session directory must stay within the artifacts root'')
              else case fs_mkdir_new ops run_dir fs of
                  Inl e \<Rightarrow> Inl (os_error e)
                | Inr fs \<Rightarrow> Inr (stash\<lparr>st_run_directory := Some run_dir\<rparr>, fs)))"

section \<open>Collected items\<close>

text \<open>An item's markers are the names \<^verbatim>\<open>get_closest_marker\<close> finds.\<close>

record item =
  nodeid :: pystr
  item_path :: "pystr list"
  markers :: "pystr list"

definition suite_markers :: "pystr list" where
  "suite_markers = [lit ''unit'', lit ''integration'', lit ''hardware'']"

definition add_suite_markers :: "item \<Rightarrow> item" where
  "add_suite_markers i =
     i\<lparr>markers := markers i @ filter (\<lambda>m. m \<in> set (item_path i)) suite_markers\<rparr>"

definition matching_markers :: "pystr list \<Rightarrow> item \<Rightarrow> pystr list" where
  "matching_markers marker_sequence i = filter (\<lambda>m. m \<in> set (markers i)) marker_sequence"

text \<open>The loop over the items: the groups, in the order of the sequence, and the rest.\<close>

fun group_items ::
  "pystr list \<Rightarrow> item list \<Rightarrow> (pystr \<Rightarrow> item list) \<Rightarrow> item list
     \<Rightarrow> exn + (pystr \<Rightarrow> item list) \<times> item list" where
  "group_items ms [] grouped deselected = Inr (grouped, deselected)"
| "group_items ms (i # is) grouped deselected =
     (case matching_markers ms i of
        [] \<Rightarrow> group_items ms is grouped (deselected @ [i])
      | [m] \<Rightarrow> group_items ms is (grouped(m := grouped m @ [i])) deselected
      | m # m' # others \<Rightarrow> Inl (Exn UsageError [Txt (lit ''Test ''), quoted (nodeid i),
          Txt (lit '' belongs to multiple scenario steps: ''),
          Txt (join (lit '', '') (m # m' # others))]))"

definition apply_marker_sequence ::
  "item list \<Rightarrow> pystr list \<Rightarrow> exn + item list \<times> item list" where
  \<comment> \<open>the new item list and the items reported to \<^verbatim>\<open>pytest_deselected\<close>\<close>
  "apply_marker_sequence items ms =
     try_bind (group_items ms items (\<lambda>_. []) []) (\<lambda>(grouped, deselected).
       case filter (\<lambda>m. grouped m = []) ms of
         m # _ \<Rightarrow> Inl (Exn UsageError [Txt (lit ''Marker sequence requires ''), quoted m,
           Txt (lit '', but no matching tests were collected.'')])
       | [] \<Rightarrow> Inr (concat (map grouped ms), deselected))"

definition pytest_collection_modifyitems ::
  "options \<Rightarrow> stash \<Rightarrow> item list \<Rightarrow> exn + item list \<times> item list" where
  "pytest_collection_modifyitems config stash items =
     (let items = map add_suite_markers items; ms = st_marker_sequence stash in
      try_bind (if ms \<noteq> [] then apply_marker_sequence items ms else Inr (items, []))
        (\<lambda>(items, deselected).
          let has_hardware_tests = list_ex (\<lambda>i. lit ''hardware'' \<in> set (markers i)) items;
              hardware_path_requested = (ms = [] \<and>
                list_ex (\<lambda>a. lit ''hardware'' \<in> set (p_parts (parse_path a))) (cli_args config))
          in if (has_hardware_tests \<or> hardware_path_requested) \<and> opt_stand config = None
             then Inl (raise_txt UsageError ''Hardware tests require --stand'')
             else Inr (items, deselected)))"

section \<open>Session hooks\<close>

definition get_run_directory :: "stash \<Rightarrow> exn + ppath" where
  "get_run_directory stash =
     (case st_run_directory stash of
        None \<Rightarrow> Inl (raise_txt PyKeyError ''run directory'')
      | Some d \<Rightarrow> Inr d)"

text \<open>\<open>git\<close> is the outcome of \<^verbatim>\<open>git rev-parse\<close>: \<^verbatim>\<open>None\<close> when the executable is missing, cannot
  be started or times out, else its exit code and standard output.\<close>

definition git_revision :: "(int \<times> pystr) option \<Rightarrow> pystr option" where
  "git_revision git =
     (case git of
        None \<Rightarrow> None
      | Some (code, out) \<Rightarrow>
          if code = 0 then (if strip out \<noteq> [] then Some (strip out) else None) else None)"

definition run_properties ::
  "pystr \<Rightarrow> pystr \<Rightarrow> (int \<times> pystr) option \<Rightarrow> options \<Rightarrow> stash \<Rightarrow> ppath
     \<Rightarrow> (pystr \<times> pystr option) list" where
  "run_properties py_version pytest_version git config stash run_dir =
     [(lit ''run_id'', Some (path_name run_dir)),
      (lit ''python_version'', Some py_version),
      (lit ''pytest_version'', Some pytest_version),
      (lit ''git_revision'', git_revision git),
      (lit ''stand'', opt_stand config),
      (lit ''scenario'', opt_scenario config),
      (lit ''marker_sequence'', Some (join (lit '','') (st_marker_sequence stash)))]"

definition get_run_metadata ::
  "pystr \<Rightarrow> pystr \<Rightarrow> (int \<times> pystr) option \<Rightarrow> options \<Rightarrow> stash
     \<Rightarrow> exn + (pystr, pystr) dict \<times> stash" where
  "get_run_metadata py_version pytest_version git config stash =
     (case st_run_metadata stash of
        Some m \<Rightarrow> Inr (m, stash)
      | None \<Rightarrow> try_bind (get_run_directory stash) (\<lambda>run_dir.
          let metadata = [(n, the v). (n, v) \<leftarrow>
                run_properties py_version pytest_version git config stash run_dir, truthy v]
          in Inr (metadata, stash\<lparr>st_run_metadata := Some metadata\<rparr>)))"

definition runtest_makereport :: "bool \<Rightarrow> item \<Rightarrow> pystr option \<Rightarrow> pystr option" where
  \<comment> \<open>\<^verbatim>\<open>session.shouldstop\<close> after a report that failed or not\<close>
  "runtest_makereport failed i shouldstop =
     (if failed \<and> lit ''stop_on_fail'' \<in> set (markers i)
      then Some (lit ''stopping after failure in '' @ nodeid i)
      else shouldstop)"

record step_logger =
  step :: nat
  logged :: "(nat \<times> pystr) list"   \<comment> \<open>the records \<^verbatim>\<open>Step %d: %s\<close> handed to the logger\<close>

definition new_step_logger :: step_logger where
  "new_step_logger = \<lparr>step = 0, logged = []\<rparr>"

definition log_step :: "pystr \<Rightarrow> step_logger \<Rightarrow> step_logger" where
  "log_step message l =
     (let n = step l + 1 in l\<lparr>step := n, logged := logged l @ [(n, message)]\<rparr>)"

section \<open>Marker sequences: the groups\<close>

lemma group_items_Inr:
  "group_items ms is g d = Inr (g', d') \<Longrightarrow>
     (\<forall>i \<in> set is. length (matching_markers ms i) \<le> 1) \<and>
     (\<forall>m. g' m = g m @ filter (\<lambda>i. matching_markers ms i = [m]) is) \<and>
     d' = d @ filter (\<lambda>i. matching_markers ms i = []) is"
  by (induction ms "is" g d rule: group_items.induct) (auto split: list.splits)

lemma matching_singleton:
  assumes "matching_markers ms i = [m]"
  shows "m \<in> set ms \<and> m \<in> set (markers i)"
proof -
  from assms have "m \<in> set (matching_markers ms i)" by simp
  then show ?thesis by (simp add: matching_markers_def)
qed

lemma matching_subset: "matching_markers ms i = m # rest \<Longrightarrow> m \<in> set ms"
  by (metis filter_is_subset list.set_intros(1) matching_markers_def subsetD)

lemma matching_at_most_one:
  assumes "length (matching_markers ms i) \<le> 1" and "m \<in> set ms"
  shows "matching_markers ms i = [m] \<longleftrightarrow> m \<in> set (markers i)"
proof
  assume "m \<in> set (markers i)"
  with assms(2) have "m \<in> set (matching_markers ms i)"
    by (simp add: matching_markers_def)
  with assms(1) show "matching_markers ms i = [m]"
    by (cases "matching_markers ms i") auto
qed (simp add: matching_singleton)

lemma matching_Nil: "matching_markers ms i = [] \<longleftrightarrow> (\<forall>m \<in> set ms. m \<notin> set (markers i))"
  by (auto simp: matching_markers_def filter_empty_conv)

text \<open>Grouping by the only match, over distinct steps, loses and repeats nothing.\<close>

lemma mset_groups:
  assumes "distinct ms" and "\<forall>i \<in> set is. f i \<in> Some ` set ms \<or> f i = None"
  shows "mset (concat (map (\<lambda>m. filter (\<lambda>i. f i = Some m) is) ms))
    + mset (filter (\<lambda>i. f i = None) is) = mset is"
  using assms(2)
proof (induction "is")
  case (Cons i "is")
  have "mset (concat (map (\<lambda>m. filter (\<lambda>i. f i = Some m) (i # is)) ms))
      = (if f i \<in> Some ` set ms then {#i#} else {#})
        + mset (concat (map (\<lambda>m. filter (\<lambda>i. f i = Some m) is) ms))"
    using assms(1) by (induction ms) auto
  with Cons show ?case by auto
qed auto

lemma distinct_if_groups:
  assumes "\<forall>i \<in> set is. length (matching_markers ms i) \<le> 1"
    and "\<forall>m \<in> set ms. filter (\<lambda>i. matching_markers ms i = [m]) is \<noteq> []"
  shows "distinct ms"
proof (rule ccontr)
  assume "\<not> distinct ms"
  then obtain xs ys zs m where ms: "ms = xs @ [m] @ ys @ [m] @ zs"
    using not_distinct_decomp by blast
  with assms(2) obtain i where "matching_markers ms i = [m]"
    by (auto simp: filter_empty_conv)
  moreover from this have "m \<in> set (markers i)" by (rule matching_singleton [THEN conjunct2])
  ultimately have "length (matching_markers ms i) \<ge> 2"
    by (simp add: matching_markers_def ms)
  with \<open>matching_markers ms i = [m]\<close> show False by simp
qed

lemma apply_marker_sequence_Inr:
  assumes "apply_marker_sequence items ms = Inr (selected, deselected)"
  obtains "\<forall>i \<in> set items. length (matching_markers ms i) \<le> 1"
    and "selected = concat (map (\<lambda>m. filter (\<lambda>i. matching_markers ms i = [m]) items) ms)"
    and "deselected = filter (\<lambda>i. matching_markers ms i = []) items"
    and "\<forall>m \<in> set ms. filter (\<lambda>i. matching_markers ms i = [m]) items \<noteq> []"
proof -
  from assms obtain g d where gi: "group_items ms items (\<lambda>_. []) [] = Inr (g, d)"
    and res: "(case filter (\<lambda>m. g m = []) ms of
         m # _ \<Rightarrow> Inl (Exn UsageError [Txt (lit ''Marker sequence requires ''), quoted m,
           Txt (lit '', but no matching tests were collected.'')])
       | [] \<Rightarrow> Inr (concat (map g ms), d)) = Inr (selected, deselected)"
    by (auto simp: apply_marker_sequence_def result_simps)
  from res have "filter (\<lambda>m. g m = []) ms = []" "selected = concat (map g ms)" "deselected = d"
    by (auto split: list.splits)
  moreover from group_items_Inr [OF gi]
  have "g = (\<lambda>m. filter (\<lambda>i. matching_markers ms i = [m]) items)" by auto
  ultimately show thesis
    using group_items_Inr [OF gi] by (intro that) (auto simp: filter_empty_conv)
qed

lemma apply_marker_sequence_subset:
  "apply_marker_sequence items ms = Inr (selected, deselected) \<Longrightarrow> set selected \<subseteq> set items"
  by (auto elim!: apply_marker_sequence_Inr)

lemma mset_matching_groups:
  assumes "\<forall>i \<in> set is. length (matching_markers ms i) \<le> 1" and "distinct ms"
  shows "mset (concat (map (\<lambda>m. filter (\<lambda>i. matching_markers ms i = [m]) is) ms))
    + mset (filter (\<lambda>i. matching_markers ms i = []) is) = mset is"
proof -
  define f where "f i = (case matching_markers ms i of [] \<Rightarrow> None | m # _ \<Rightarrow> Some m)" for i
  have "f i = Some m \<longleftrightarrow> matching_markers ms i = [m]" if "i \<in> set is" for i m
    using assms(1) that by (auto simp: f_def split: list.splits)
  then have "filter (\<lambda>i. f i = Some m) is = filter (\<lambda>i. matching_markers ms i = [m]) is" for m
    by (intro filter_cong) auto
  moreover have "f i = None \<longleftrightarrow> matching_markers ms i = []" for i
    by (auto simp: f_def split: list.splits)
  moreover have "\<forall>i \<in> set is. f i \<in> Some ` set ms \<or> f i = None"
    by (auto simp: f_def dest: matching_subset split: list.splits)
  ultimately show ?thesis using mset_groups [OF assms(2), of "is" f] by simp
qed

lemma add_suite_markers_simps [simp]:
  "set (markers (add_suite_markers i)) = set (markers i) \<union> (set (item_path i) \<inter> set suite_markers)"
  "item_path (add_suite_markers i) = item_path i"
  by (auto simp: add_suite_markers_def)

lemma hardware_suite_marker [simp]: "lit ''hardware'' \<in> set suite_markers"
  by (simp add: suite_markers_def)

section \<open>Properties\<close>

text \<open>
  C8. Applying a marker sequence keeps exactly the items of its steps, sorted by step and,
  within a step, in collection order; the rest is what is reported as deselected. Every
  collected item is in exactly one of the two lists, no item belongs to two steps, and no
  step is empty.
\<close>

theorem apply_marker_sequence_correct:
  assumes "apply_marker_sequence items ms = Inr (selected, deselected)"
  shows "selected = concat (map (\<lambda>m. filter (\<lambda>i. m \<in> set (markers i)) items) ms)
    \<and> deselected = filter (\<lambda>i. \<forall>m \<in> set ms. m \<notin> set (markers i)) items
    \<and> mset selected + mset deselected = mset items
    \<and> distinct ms
    \<and> (\<forall>m \<in> set ms. \<exists>i \<in> set items. m \<in> set (markers i))"
proof -
  from assms have le1: "\<forall>i \<in> set items. length (matching_markers ms i) \<le> 1"
    and sel: "selected = concat (map (\<lambda>m. filter (\<lambda>i. matching_markers ms i = [m]) items) ms)"
    and des: "deselected = filter (\<lambda>i. matching_markers ms i = []) items"
    and ne: "\<forall>m \<in> set ms. filter (\<lambda>i. matching_markers ms i = [m]) items \<noteq> []"
    by (auto elim: apply_marker_sequence_Inr)
  have groups: "filter (\<lambda>i. matching_markers ms i = [m]) items
      = filter (\<lambda>i. m \<in> set (markers i)) items" if "m \<in> set ms" for m
    using le1 that by (intro filter_cong) (auto simp: matching_at_most_one)
  have "distinct ms" using le1 ne by (rule distinct_if_groups)
  moreover from this le1 have "mset selected + mset deselected = mset items"
    unfolding sel des by (intro mset_matching_groups)
  moreover have "selected = concat (map (\<lambda>m. filter (\<lambda>i. m \<in> set (markers i)) items) ms)"
    unfolding sel using groups by (intro arg_cong [where f = concat] map_cong) auto
  moreover have "\<forall>m \<in> set ms. \<exists>i \<in> set items. m \<in> set (markers i)"
    using ne groups by (auto simp: filter_empty_conv)
  ultimately show ?thesis by (auto simp: des matching_Nil)
qed

theorem apply_marker_sequence_correct_witness:
  "mset [\<lparr>nodeid = lit ''b'', item_path = [], markers = [lit ''unit'']\<rparr>]
     + mset [\<lparr>nodeid = lit ''a'', item_path = [], markers = [lit ''slow'']\<rparr>]
   = mset [\<lparr>nodeid = lit ''a'', item_path = [], markers = [lit ''slow'']\<rparr>,
      \<lparr>nodeid = lit ''b'', item_path = [], markers = [lit ''unit'']\<rparr>]"
proof -
  have "apply_marker_sequence
      [\<lparr>nodeid = lit ''a'', item_path = [], markers = [lit ''slow'']\<rparr>,
       \<lparr>nodeid = lit ''b'', item_path = [], markers = [lit ''unit'']\<rparr>] [lit ''unit'']
    = Inr ([\<lparr>nodeid = lit ''b'', item_path = [], markers = [lit ''unit'']\<rparr>],
       [\<lparr>nodeid = lit ''a'', item_path = [], markers = [lit ''slow'']\<rparr>])"
    by (simp add: apply_marker_sequence_def matching_markers_def)
  from apply_marker_sequence_correct [OF this] show ?thesis by blast
qed

text \<open>
  C25. Without \<^verbatim>\<open>--stand\<close> no hardware test survives collection: whatever the sequence and the
  arguments, the items that are left neither carry the \<^verbatim>\<open>hardware\<close> marker nor lie below a
  directory of that name, and without a sequence no argument names such a directory.
\<close>

theorem hardware_needs_stand:
  assumes "pytest_collection_modifyitems config stash items = Inr (selected, deselected)"
    and "opt_stand config = None"
  shows "(\<forall>i \<in> set selected. lit ''hardware'' \<notin> set (markers i)
        \<and> lit ''hardware'' \<notin> set (item_path i))
    \<and> (st_marker_sequence stash = [] \<longrightarrow>
        (\<forall>a \<in> set (cli_args config). lit ''hardware'' \<notin> set (p_parts (parse_path a))))"
proof -
  let ?items = "map add_suite_markers items"
  from assms obtain sel where sel: "selected = sel"
    and sub: "set sel \<subseteq> set ?items"
    and no: "\<forall>i \<in> set sel. lit ''hardware'' \<notin> set (markers i)"
    and args: "st_marker_sequence stash = [] \<longrightarrow>
        (\<forall>a \<in> set (cli_args config). lit ''hardware'' \<notin> set (p_parts (parse_path a)))"
    by (auto simp: pytest_collection_modifyitems_def Let_def result_simps list_ex_iff
        split: if_splits dest!: apply_marker_sequence_subset)
  moreover have "lit ''hardware'' \<notin> set (item_path i)"
    if "i \<in> set ?items" and "lit ''hardware'' \<notin> set (markers i)" for i
    using that by auto
  ultimately show ?thesis by auto
qed

theorem hardware_needs_stand_witness:
  "lit ''hardware'' \<notin> set (markers (add_suite_markers
     \<lparr>nodeid = lit ''t'', item_path = [lit ''unit''], markers = []\<rparr>))"
proof -
  define config where "config = \<lparr>opt_run_id = None, opt_artifacts_root = None,
     opt_marker_sequence = None, opt_scenario = None, opt_stand = None, ini_markers = [],
     rootpath = PPath [] [], cli_args = []\<rparr>"
  have "pytest_collection_modifyitems config empty_stash
      [\<lparr>nodeid = lit ''t'', item_path = [lit ''unit''], markers = []\<rparr>]
    = Inr ([add_suite_markers \<lparr>nodeid = lit ''t'', item_path = [lit ''unit''], markers = []\<rparr>], [])"
    by (simp add: pytest_collection_modifyitems_def empty_stash_def config_def
        add_suite_markers_def suite_markers_def)
  moreover have "opt_stand config = None" by (simp add: config_def)
  ultimately show ?thesis using hardware_needs_stand by fastforce
qed

end
