(* ===== verification/Commands.thy ===== *)
theory Commands
  imports Exceptions
begin

text \<open>
  The value objects of \<^verbatim>\<open>src/hardware_test/models\<close>: commands with their run-time type checks
  and the text they submit, command results, measurements, the SSH host-key policy and the
  device status with its parser (\<^verbatim>\<open>src/hardware_test/parsing/device.py\<close>).
  The text of a privileged non-interactive command is quoted for a POSIX shell; \<open>sh_words\<close>
  is the part of the shell's word splitting that the quoting has to respect.
\<close>

section \<open>Shell quoting\<close>

text \<open>\<^verbatim>\<open>shlex.quote\<close>: a string of safe ASCII characters is its own quotation, any other
  is put in single quotes, each single quote in it written \<^verbatim>\<open>'"'"'\<close>.\<close>

definition shell_safe :: "nat \<Rightarrow> bool" where
  "shell_safe c \<longleftrightarrow> is_alnum_cp c \<or> char_class ''%+,-./:=@_'' c"

definition quote_quote :: pystr where
  "quote_quote = [39, 34, 39, 34, 39]"

definition shlex_quote :: "pystr \<Rightarrow> pystr" where
  "shlex_quote s =
     (if s = [] then [39, 39]
      else if list_all shell_safe s then s
      else [39] @ replace [39] quote_quote s @ [39])"

text \<open>
  The POSIX rules for words made of plain characters, single-quoted parts and double-quoted
  parts: blanks separate words, nothing is special between single quotes, and between double
  quotes only \<^verbatim>\<open>$\<close>, the back quote, the backslash (and \<^verbatim>\<open>!\<close> of interactive shells) are. An
  unquoted character that could be an operator, an expansion or a comment has no reading
  (\<open>None\<close>), and neither has an open quote.
\<close>

datatype sh_mode = Unquoted | Single_quoted | Double_quoted

definition word_so_far :: "pystr option \<Rightarrow> pystr" where
  "word_so_far w = (case w of None \<Rightarrow> [] | Some s \<Rightarrow> s)"

fun sh_lex :: "sh_mode \<Rightarrow> pystr option \<Rightarrow> pystr \<Rightarrow> pystr list option" where
  "sh_lex Unquoted w [] = Some (case w of None \<Rightarrow> [] | Some s \<Rightarrow> [s])"
| "sh_lex m w [] = None"
| "sh_lex Unquoted w (c # cs) =
     (if c = 32 then map_option ((@) (case w of None \<Rightarrow> [] | Some s \<Rightarrow> [s])) (sh_lex Unquoted None cs)
      else if c = 39 then sh_lex Single_quoted (Some (word_so_far w)) cs
      else if c = 34 then sh_lex Double_quoted (Some (word_so_far w)) cs
      else if shell_safe c then sh_lex Unquoted (Some (word_so_far w @ [c])) cs
      else None)"
| "sh_lex Single_quoted w (c # cs) =
     (if c = 39 then sh_lex Unquoted w cs
      else sh_lex Single_quoted (Some (word_so_far w @ [c])) cs)"
| "sh_lex Double_quoted w (c # cs) =
     (if c = 34 then sh_lex Unquoted w cs
      else if char_class ''$`!'' c \<or> c = 92 then None
      else sh_lex Double_quoted (Some (word_so_far w @ [c])) cs)"

definition sh_words :: "pystr \<Rightarrow> pystr list option" where
  "sh_words s = sh_lex Unquoted None s"

lemma word_so_far_simps [simp]: "word_so_far None = []" "word_so_far (Some s) = s"
  by (simp_all add: word_so_far_def)

lemma shell_safe_plain: "shell_safe c \<Longrightarrow> c \<noteq> 32 \<and> c \<noteq> 39 \<and> c \<noteq> 34"
  by (auto simp: shell_safe_def is_alnum_cp_def is_digit_cp_def is_upper_cp_def is_lower_cp_def
      char_class_def lit_def)

lemma sh_lex_safe:
  "list_all shell_safe s \<Longrightarrow> s \<noteq> [] \<Longrightarrow>
     sh_lex Unquoted w (s @ rest) = sh_lex Unquoted (Some (word_so_far w @ s)) rest"
proof (induction s arbitrary: w)
  case (Cons c s)
  then show ?case by (cases "s = []") (auto dest: shell_safe_plain)
qed simp

lemma sh_lex_single_quoted:
  "sh_lex Single_quoted (Some w) (replace [39] quote_quote s @ 39 # rest)
     = sh_lex Unquoted (Some (w @ s)) rest"
proof (induction s arbitrary: w)
  case (Cons c s)
  show ?case
  proof (cases "c = 39")
    case True
    with Cons [of "w @ [39]"] show ?thesis
      by (simp add: replace_single quote_quote_def char_class_def lit_def)
  next
    case False
    with Cons [of "w @ [c]"] show ?thesis by (simp add: replace_single)
  qed
qed (simp add: replace_single)

text \<open>A quoted string reads as one word, wherever it stands in the command line.\<close>

lemma sh_lex_quote:
  "sh_lex Unquoted None (shlex_quote s @ rest) = sh_lex Unquoted (Some s) rest"
  by (auto simp: shlex_quote_def sh_lex_safe sh_lex_single_quoted)

section \<open>Commands\<close>

text \<open>
  \<^verbatim>\<open>Command\<close> and its subclasses, as they are constructed: the query may be of either type
  until \<^verbatim>\<open>__post_init__\<close> has checked it. A timeout is a Python float or \<^verbatim>\<open>None\<close>.
\<close>

datatype query = StrQuery pystr | BytesQuery bytes

datatype command =
    Command (cmd_query: query) (cmd_timeout: "rat option")
  | BinaryCommand (cmd_query: query) (cmd_timeout: "rat option")
  | TextCommand (cmd_query: query) (cmd_timeout: "rat option")
  | UnixCommand (cmd_query: query) (cmd_timeout: "rat option") (cmd_sudo: bool)
      (cmd_non_interactive: bool)
  | PowerShellCommand (cmd_query: query) (cmd_timeout: "rat option")

fun class_name :: "command \<Rightarrow> pystr" where
  "class_name (Command _ _) = lit ''Command''"
| "class_name (BinaryCommand _ _) = lit ''BinaryCommand''"
| "class_name (TextCommand _ _) = lit ''TextCommand''"
| "class_name (UnixCommand _ _ _ _) = lit ''UnixCommand''"
| "class_name (PowerShellCommand _ _) = lit ''PowerShellCommand''"

fun is_text_command :: "command \<Rightarrow> bool" where
  "is_text_command (TextCommand _ _) = True"
| "is_text_command (UnixCommand _ _ _ _) = True"
| "is_text_command (PowerShellCommand _ _) = True"
| "is_text_command _ = False"

fun is_unix_command :: "command \<Rightarrow> bool" where
  "is_unix_command (UnixCommand _ _ _ _) = True"
| "is_unix_command _ = False"

fun is_str_query :: "query \<Rightarrow> bool" where
  "is_str_query (StrQuery _) = True"
| "is_str_query (BytesQuery _) = False"

text \<open>\<^verbatim>\<open>__post_init__\<close>, run by every constructor: the base class checks nothing.\<close>

definition post_init :: "command \<Rightarrow> exn + command" where
  "post_init c =
     (case c of
        Command _ _ \<Rightarrow> Inr c
      | BinaryCommand q _ \<Rightarrow>
          if is_str_query q
          then Inl (Exn PyTypeError [Txt (class_name c), Txt (lit '' query must be bytes'')])
          else Inr c
      | _ \<Rightarrow>
          if \<not> is_str_query (cmd_query c)
          then Inl (Exn PyTypeError [Txt (class_name c), Txt (lit '' query must be str'')])
          else Inr c)"

definition sudo_text :: "pystr \<Rightarrow> pystr" where
  "sudo_text q = lit ''sudo '' @ q"

definition non_interactive_text :: "pystr \<Rightarrow> pystr" where
  "non_interactive_text q = lit ''sudo -n -- sh -c '' @ shlex_quote q"

definition unix_text :: "pystr \<Rightarrow> bool \<Rightarrow> bool \<Rightarrow> pystr" where
  "unix_text q sudo non_interactive =
     (if \<not> sudo then q
      else if non_interactive then non_interactive_text q
      else sudo_text q)"

text \<open>The \<^verbatim>\<open>text\<close> property; \<open>None\<close> where the class has none or the query is no string.\<close>

fun command_text :: "command \<Rightarrow> pystr option" where
  "command_text (TextCommand (StrQuery q) _) = Some q"
| "command_text (UnixCommand (StrQuery q) _ sudo ni) = Some (unix_text q sudo ni)"
| "command_text (PowerShellCommand (StrQuery q) _) = Some q"
| "command_text _ = None"

record command_result =
  stdout :: pystr
  stderr :: pystr
  exit_code :: int

record measurement =
  m_name :: pystr
  m_value :: rat
  m_unit :: pystr

lemma post_init_keeps: "post_init c = Inr c' \<Longrightarrow> c' = c"
  by (auto simp: post_init_def split: command.splits if_splits)

lemma post_init_text:
  "post_init c = Inr c' \<Longrightarrow> is_text_command c' \<Longrightarrow> \<exists>t. command_text c' = Some t"
  by (cases "cmd_query c"; cases c) (auto simp: post_init_def)

lemma text_command_text: "command_text c = Some t \<Longrightarrow> is_text_command c"
  by (cases c) auto

section \<open>Host-key policy and device status\<close>

datatype host_key_policy = REJECT | ACCEPT_NEW | WARN

fun policy_value :: "host_key_policy \<Rightarrow> pystr" where
  "policy_value REJECT = lit ''reject''"
| "policy_value ACCEPT_NEW = lit ''accept_new''"
| "policy_value WARN = lit ''warn''"

datatype device_status = UNKNOWN | READY | ERROR

fun status_value :: "device_status \<Rightarrow> pystr" where
  "status_value UNKNOWN = lit ''unknown''"
| "status_value READY = lit ''ready''"
| "status_value ERROR = lit ''error''"

text \<open>
  \<^verbatim>\<open>str.lower()\<close>, as far as a comparison with an ASCII word can tell: the capital ASCII
  letters, the Kelvin sign and the dotted capital I have lower cases with ASCII letters, every
  other code point lowers to non-ASCII ones, which the model leaves as they are.
\<close>

definition lower_cp :: "nat \<Rightarrow> pystr" where
  "lower_cp c =
     (if is_upper_cp c then [c + 32]
      else if c = 8490 then [107]
      else if c = 304 then [105, 775]
      else [c])"

definition lower :: "pystr \<Rightarrow> pystr" where
  "lower s = concat (map lower_cp s)"

definition status_of_value :: "pystr \<Rightarrow> device_status option" where
  "status_of_value v =
     (if v = status_value UNKNOWN then Some UNKNOWN
      else if v = status_value READY then Some READY
      else if v = status_value ERROR then Some ERROR
      else None)"

definition parse_device_status :: "pystr \<Rightarrow> device_status" where
  "parse_device_status value =
     (case status_of_value (lower (strip value)) of
        Some s \<Rightarrow> s
      | None \<Rightarrow> UNKNOWN)"

section \<open>Properties\<close>

lemma lower_append: "lower (a @ b) = lower a @ lower b"
  by (simp add: lower_def)

lemma strip_surround:
  assumes "list_all is_space pre" and "list_all is_space post"
    and "s \<noteq> []" and "\<not> is_space (hd s)" and "\<not> is_space (last s)"
  shows "strip (pre @ s @ post) = s"
proof -
  have "dropWhile is_space (pre @ s @ post) = s @ post"
    using assms by (cases s) (auto simp: list_all_iff dropWhile_append)
  moreover have "dropWhile is_space (rev post @ rev s) = rev s"
    using assms by (cases s rule: rev_cases) (auto simp: list_all_iff dropWhile_append)
  ultimately show ?thesis by (simp add: strip_def lstrip_by_def rstrip_by_def)
qed

text \<open>
  C22. A \<^verbatim>\<open>UnixCommand\<close> with \<^verbatim>\<open>sudo\<close> and \<^verbatim>\<open>non_interactive\<close> submits a line that a POSIX
  shell reads as exactly the six words \<^verbatim>\<open>sudo -n -- sh -c <query>\<close>, with the query, whatever
  characters it holds, arriving unchanged as the one argument of \<^verbatim>\<open>sh -c\<close>.
\<close>

theorem non_interactive_words:
  "map_option sh_words (command_text (UnixCommand (StrQuery q) t True True)) =
     Some (Some [lit ''sudo'', lit ''-n'', lit ''--'', lit ''sh'', lit ''-c'', q])"
proof -
  have "sh_lex Unquoted None (lit ''sudo -n -- sh -c '' @ shlex_quote q @ [])
      = Some [lit ''sudo'', lit ''-n'', lit ''--'', lit ''sh'', lit ''-c'', q]"
    by (simp add: lit_Cons sh_lex_quote shell_safe_def is_alnum_cp_def is_digit_cp_def
        is_upper_cp_def is_lower_cp_def char_class_def del: append_Nil2)
  then show ?thesis by (simp add: sh_words_def unix_text_def non_interactive_text_def)
qed

end
