(* ===== verification/Inventory.thy ===== *)
theory Inventory
  imports Paths Commands
begin

text \<open>
  The declarative inventory: the validated models of
  \<^verbatim>\<open>src/hardware_test/inventory/models.py\<close> and the loader of
  \<^verbatim>\<open>src/hardware_test/inventory/loader.py\<close>. Pydantic's coercion of YAML documents into
  typed fields, the YAML reader and the file system are parameters; defaults, constraints,
  validators, the merging of the device files and the translation of errors are the code's.
\<close>

section \<open>Connection data\<close>

record ssh_inventory =
  ssh_host :: pystr
  ssh_port :: int
  ssh_credentials :: pystr
  ssh_host_key_policy :: "host_key_policy option"

record console_inventory =
  con_prompt :: pystr
  con_initial_prompt_suffix :: pystr
  con_login_prompt :: pystr
  con_password_prompt :: pystr
  con_credentials :: "pystr option"

text \<open>The fields of a document before defaults and constraints.\<close>

record raw_ssh =
  rs_host :: pystr
  rs_port :: "int option"
  rs_credentials :: pystr
  rs_host_key_policy :: "host_key_policy option"

record raw_console =
  rc_prompt :: pystr
  rc_initial_prompt_suffix :: "pystr option"
  rc_login_prompt :: "pystr option"
  rc_password_prompt :: "pystr option"
  rc_credentials :: "pystr option"

definition build_ssh :: "raw_ssh \<Rightarrow> ssh_inventory" where
  "build_ssh r = \<lparr>ssh_host = rs_host r, ssh_port = with_default 22 (rs_port r),
     ssh_credentials = rs_credentials r, ssh_host_key_policy = rs_host_key_policy r\<rparr>"

definition ssh_errors :: "ssh_inventory \<Rightarrow> exn list" where
  "ssh_errors s = constraint (1 \<le> ssh_port s \<and> ssh_port s \<le> 65535) ''port''"

definition build_console :: "raw_console \<Rightarrow> console_inventory" where
  "build_console r = \<lparr>con_prompt = rc_prompt r,
     con_initial_prompt_suffix = with_default (lit ''# '') (rc_initial_prompt_suffix r),
     con_login_prompt = with_default (lit ''login:'') (rc_login_prompt r),
     con_password_prompt = with_default (lit ''Password:'') (rc_password_prompt r),
     con_credentials = rc_credentials r\<rparr>"

definition validate_console_marker :: "pystr \<Rightarrow> exn + pystr" where
  "validate_console_marker value =
     (if has_control_char value
      then Inl (raise_txt PyValueError ''prompt must not contain control characters'')
      else Inr value)"

definition console_marker_errors :: "string \<Rightarrow> pystr \<Rightarrow> exn list" where
  \<comment> \<open>\<^verbatim>\<open>min_length=1\<close>, then the validator\<close>
  "console_marker_errors name value =
     (if value = [] then constraint False name
      else case validate_console_marker value of Inl e \<Rightarrow> [e] | Inr _ \<Rightarrow> [])"

definition console_errors :: "console_inventory \<Rightarrow> exn list" where
  "console_errors c =
     console_marker_errors ''prompt'' (con_prompt c) @
     console_marker_errors ''initial_prompt_suffix'' (con_initial_prompt_suffix c) @
     console_marker_errors ''login_prompt'' (con_login_prompt c) @
     console_marker_errors ''password_prompt'' (con_password_prompt c)"

definition validate_serial_device :: "pystr \<Rightarrow> exn + pystr" where
  "validate_serial_device value =
     (if has_control_char value
      then Inl (raise_txt PyValueError ''serial_device must not contain control characters'')
      else if \<not> below_dev value
      then Inl (raise_txt PyValueError ''serial_device must be an absolute path below /dev'')
      else Inr value)"

definition serial_errors :: "pystr \<Rightarrow> int \<Rightarrow> exn list" where
  "serial_errors device baudrate =
     (case validate_serial_device device of Inl e \<Rightarrow> [e] | Inr _ \<Rightarrow> []) @
     constraint (0 < baudrate) ''baudrate''"

section \<open>Transport configurations\<close>

text \<open>The union of \<^verbatim>\<open>TransportConfig\<close>, told apart by its \<^verbatim>\<open>type\<close> literal.\<close>

datatype transport_config =
    SshTransportConfig (tc_ssh: ssh_inventory)
  | PicocomOverSshTransportConfig (tc_ssh: ssh_inventory) (tc_serial_device: pystr)
      (tc_baudrate: int) (tc_console: console_inventory)
  | PySerialTransportConfig (tc_serial_device: pystr) (tc_baudrate: int)
      (tc_console: console_inventory)
  | PySerialOverSshTransportConfig (tc_ssh: ssh_inventory) (tc_serial_device: pystr)
      (tc_baudrate: int) (tc_console: console_inventory)

datatype raw_transport =
    RawSsh raw_ssh
  | RawPicocomOverSsh raw_ssh pystr "int option" raw_console
  | RawPySerial pystr "int option" raw_console
  | RawPySerialOverSsh raw_ssh pystr "int option" raw_console

fun build_transport :: "raw_transport \<Rightarrow> transport_config" where
  "build_transport (RawSsh s) = SshTransportConfig (build_ssh s)"
| "build_transport (RawPicocomOverSsh s d b c) =
     PicocomOverSshTransportConfig (build_ssh s) d (with_default 115200 b) (build_console c)"
| "build_transport (RawPySerial d b c) =
     PySerialTransportConfig d (with_default 115200 b) (build_console c)"
| "build_transport (RawPySerialOverSsh s d b c) =
     PySerialOverSshTransportConfig (build_ssh s) d (with_default 115200 b) (build_console c)"

fun transport_errors :: "transport_config \<Rightarrow> exn list" where
  "transport_errors (SshTransportConfig s) = ssh_errors s"
| "transport_errors (PicocomOverSshTransportConfig s d b c) =
     ssh_errors s @ serial_errors d b @ console_errors c"
| "transport_errors (PySerialTransportConfig d b c) = serial_errors d b @ console_errors c"
| "transport_errors (PySerialOverSshTransportConfig s d b c) =
     ssh_errors s @ serial_errors d b @ console_errors c"

definition validate_transport :: "raw_transport \<Rightarrow> exn + transport_config" where
  "validate_transport r = checked (transport_errors (build_transport r)) (build_transport r)"

text \<open>What a validated configuration guarantees to the rest of the framework.\<close>

definition console_wf :: "console_inventory \<Rightarrow> bool" where
  "console_wf c \<longleftrightarrow>
     (\<forall>m \<in> {con_prompt c, con_initial_prompt_suffix c, con_login_prompt c, con_password_prompt c}.
        m \<noteq> [] \<and> \<not> has_control_char m)"

fun transport_wf :: "transport_config \<Rightarrow> bool" where
  "transport_wf (SshTransportConfig s) \<longleftrightarrow> 1 \<le> ssh_port s \<and> ssh_port s \<le> 65535"
| "transport_wf (PicocomOverSshTransportConfig s d b c) \<longleftrightarrow>
     1 \<le> ssh_port s \<and> ssh_port s \<le> 65535 \<and> \<not> has_control_char d \<and> below_dev d \<and> 0 < b \<and> console_wf c"
| "transport_wf (PySerialTransportConfig d b c) \<longleftrightarrow>
     \<not> has_control_char d \<and> below_dev d \<and> 0 < b \<and> console_wf c"
| "transport_wf (PySerialOverSshTransportConfig s d b c) \<longleftrightarrow>
     1 \<le> ssh_port s \<and> ssh_port s \<le> 65535 \<and> \<not> has_control_char d \<and> below_dev d \<and> 0 < b \<and> console_wf c"

lemma serial_errors_Nil [simp]:
  "serial_errors d b = [] \<longleftrightarrow> \<not> has_control_char d \<and> below_dev d \<and> 0 < b"
  by (auto simp: serial_errors_def validate_serial_device_def)

lemma console_marker_errors_Nil [simp]:
  "console_marker_errors n m = [] \<longleftrightarrow> m \<noteq> [] \<and> \<not> has_control_char m"
  by (simp add: console_marker_errors_def validate_console_marker_def)

lemma console_errors_Nil [simp]: "console_errors c = [] \<longleftrightarrow> console_wf c"
  by (auto simp: console_errors_def console_wf_def)

lemma transport_errors_Nil [simp]: "transport_errors t = [] \<longleftrightarrow> transport_wf t"
  by (cases t) (auto simp: ssh_errors_def)

section \<open>Devices, stands and the inventory\<close>

record 't device_config =
  dc_type :: pystr
  dc_model :: pystr
  dc_transport :: 't

record stand_config =
  sd_description :: "pystr option"
  sd_capabilities :: "pystr list"       \<comment> \<open>a set: order and repetition mean nothing\<close>
  sd_devices :: "(pystr, pystr) dict"   \<comment> \<open>role to device id\<close>

record 'd device_inventory =
  di_version :: int
  di_devices :: "(pystr, 'd) dict"

record stand_inventory =
  si_version :: int
  si_device_files :: "ppath list"
  si_stands :: "(pystr, stand_config) dict"

record 'd inventory =
  inv_version :: int
  inv_devices :: "(pystr, 'd) dict"
  inv_stands :: "(pystr, stand_config) dict"

definition device_inventory_model :: "int \<Rightarrow> (pystr, 'd) dict \<Rightarrow> exn + 'd device_inventory" where
  "device_inventory_model v ds =
     checked (constraint (v = 1) ''version'') \<lparr>di_version = v, di_devices = ds\<rparr>"

definition stand_inventory_model ::
  "int \<Rightarrow> ppath list \<Rightarrow> (pystr, stand_config) dict \<Rightarrow> exn + stand_inventory" where
  "stand_inventory_model v files stands =
     checked (constraint (v = 1) ''version'' @ constraint (1 \<le> length files) ''device_files'')
       \<lparr>si_version = v, si_device_files = files, si_stands = stands\<rparr>"

text \<open>\<^verbatim>\<open>validate_device_references\<close>: the dictionary of the references that lead nowhere, under
  the key \<^verbatim>\<open>stand.role\<close>.\<close>

definition missing_references ::
  "(pystr, 'd) dict \<Rightarrow> (pystr, stand_config) dict \<Rightarrow> (pystr, pystr) dict" where
  "missing_references devices stands =
     dict_of [(stand_name @ lit ''.'' @ role, device_name).
       (stand_name, stand) \<leftarrow> stands, (role, device_name) \<leftarrow> sd_devices stand,
       \<not> has_key devices device_name]"

definition validate_device_references :: "'d inventory \<Rightarrow> exn + 'd inventory" where
  "validate_device_references self =
     (let missing = missing_references (inv_devices self) (inv_stands self) in
      if missing \<noteq> []
      then Inl (Exn PyValueError [Txt (lit ''Unknown device references: ''),
        Txt (join (lit '', '') (map (\<lambda>(role, device). role @ lit '' -> '' @ device) missing))])
      else Inr self)"

definition inventory_model ::
  "int \<Rightarrow> (pystr, 'd) dict \<Rightarrow> (pystr, stand_config) dict \<Rightarrow> exn + 'd inventory" where
  "inventory_model v ds ss =
     try_bind (checked (constraint (v = 1) ''version'')
         \<lparr>inv_version = v, inv_devices = ds, inv_stands = ss\<rparr>)
       (\<lambda>i. case validate_device_references i of
           Inl e \<Rightarrow> Inl (Exn ValidationError [Cause e])
         | Inr i \<Rightarrow> Inr i)"

definition references_ok :: "'d inventory \<Rightarrow> bool" where
  "references_ok i \<longleftrightarrow>
     (\<forall>n s r d. (n, s) \<in> set (inv_stands i) \<longrightarrow> (r, d) \<in> set (sd_devices s) \<longrightarrow>
        has_key (inv_devices i) d)"

lemma dict_of_Nil_iff [simp]: "dict_of kvs = [] \<longleftrightarrow> kvs = []"
proof (cases kvs rule: rev_cases)
  case (snoc xs x)
  then show ?thesis by (cases x) (simp add: dict_of_def)
qed (simp add: dict_of_def)

lemma missing_references_Nil:
  "missing_references ds ss = [] \<longleftrightarrow>
     (\<forall>n s r d. (n, s) \<in> set ss \<longrightarrow> (r, d) \<in> set (sd_devices s) \<longrightarrow> has_key ds d)"
  (is "_ \<longleftrightarrow> ?R")
proof -
  let ?m = "[(n @ lit ''.'' @ r, d). (n, s) \<leftarrow> ss, (r, d) \<leftarrow> sd_devices s, \<not> has_key ds d]"
  have "set ?m = {} \<longleftrightarrow> ?R" by force
  then show ?thesis by (simp add: missing_references_def del: set_concat set_map)
qed

lemma inventory_model_Inr_iff:
  "inventory_model v ds ss = Inr i \<longleftrightarrow>
     v = 1 \<and> i = \<lparr>inv_version = v, inv_devices = ds, inv_stands = ss\<rparr> \<and> references_ok i"
  by (auto simp: inventory_model_def validate_device_references_def Let_def result_simps
      missing_references_Nil references_ok_def split: sum.splits if_splits)

lemma inventory_model_error:
  "inventory_model v ds ss = Inl e \<Longrightarrow> exn_kind e = ValidationError"
  by (auto simp: inventory_model_def result_simps dest: checked_error split: sum.splits)

end
