(* ===== verification/Loader.thy ===== *)
theory Loader
  imports Inventory
begin

text \<open>
  \<^verbatim>\<open>src/hardware_test/inventory/loader.py\<close>: reading a stand file and the device files it
  names, merging them without overriding, and looking a stand up. \<open>read_text\<close> and
  \<open>safe_load\<close> are the file system and the YAML library, an adapter is a Pydantic
  \<^verbatim>\<open>TypeAdapter\<close>; the built-in adapters run the validators of \<^theory_text>\<open>Inventory\<close>.
\<close>

section \<open>The loader\<close>

definition load_yaml :: "(ppath \<Rightarrow> exn + pystr) \<Rightarrow> (pystr \<Rightarrow> exn + 'y) \<Rightarrow> ppath \<Rightarrow> exn + 'y" where
  "load_yaml read_text safe_load path =
     (case try_bind (read_text path) safe_load of
        Inl e \<Rightarrow>
          if caught_by e PyOSError
          then Inl (Exn InventoryError [Txt (lit ''Cannot read inventory ''),
            quoted (path_str path), Txt (lit '': ''), Cause e])
          else if caught_by e YAMLError
          then Inl (Exn InventoryError [Txt (lit ''Invalid inventory ''),
            quoted (path_str path), Txt (lit '': ''), Cause e])
          else Inl e
      | Inr y \<Rightarrow> Inr y)"

definition invalid_inventory :: "ppath \<Rightarrow> exn \<Rightarrow> exn" where
  \<comment> \<open>\<^verbatim>\<open>except ValidationError as error: raise InventoryError(...) from error\<close>\<close>
  "invalid_inventory path e =
     (if caught_by e ValidationError
      then Exn InventoryError [Txt (lit ''Invalid inventory ''), quoted (path_str path),
        Txt (lit '': ''), Cause e]
      else e)"

definition source_str :: "(pystr, ppath) dict \<Rightarrow> pystr \<Rightarrow> pystr" where
  "source_str sources name = (case map_of sources name of None \<Rightarrow> [] | Some p \<Rightarrow> path_str p)"

fun load_device_files ::
  "(ppath \<Rightarrow> exn + 'y) \<Rightarrow> ('y \<Rightarrow> exn + 'd device_inventory) \<Rightarrow> ppath \<Rightarrow> ppath list
     \<Rightarrow> (pystr, 'd) dict \<Rightarrow> (pystr, ppath) dict \<Rightarrow> exn + (pystr, 'd) dict" where
  "load_device_files load adapter base [] devices sources = Inr devices"
| "load_device_files load adapter base (f # fs) devices sources =
     (let devices_path = path_join base f in
      case try_bind (load devices_path) adapter of
        Inl e \<Rightarrow> Inl (invalid_inventory devices_path e)
      | Inr device_inventory \<Rightarrow>
          let new = di_devices device_inventory;
              duplicates = filter (has_key new) (dict_keys devices)
          in if duplicates \<noteq> []
             then Inl (Exn InventoryError [Txt (lit ''Duplicate device IDs: ''),
               Txt (join (lit '', '') (map (\<lambda>name. name @ lit '' ('' @ source_str sources name @
                 lit '' and '' @ path_str devices_path @ lit '')'') (sort duplicates)))])
             else load_device_files load adapter base fs (dict_update devices new)
               (dict_update sources (map (\<lambda>(name, d). (name, devices_path)) new)))"

definition load_inventory_with ::
  "(ppath \<Rightarrow> exn + 'y) \<Rightarrow> ('y \<Rightarrow> exn + stand_inventory) \<Rightarrow> ('y \<Rightarrow> exn + 'd device_inventory)
     \<Rightarrow> (int \<Rightarrow> (pystr, 'd) dict \<Rightarrow> (pystr, stand_config) dict \<Rightarrow> exn + 'i) \<Rightarrow> ppath \<Rightarrow> exn + 'i" where
  "load_inventory_with load stand_validate adapter inventory_adapter path =
     (case try_bind (try_bind (load path) stand_validate) (\<lambda>stand_inventory.
        try_bind (load_device_files load adapter (path_parent path)
            (si_device_files stand_inventory) [] []) (\<lambda>devices.
          inventory_adapter (si_version stand_inventory) devices (si_stands stand_inventory))) of
        Inl e \<Rightarrow> Inl (invalid_inventory path e)
      | Inr i \<Rightarrow> Inr i)"

text \<open>The optional adapters: both or none.\<close>

definition load_inventory ::
  "(ppath \<Rightarrow> exn + 'y) \<Rightarrow> ('y \<Rightarrow> exn + stand_inventory) \<Rightarrow> ('y \<Rightarrow> exn + 'd device_inventory)
     \<Rightarrow> (int \<Rightarrow> (pystr, 'd) dict \<Rightarrow> (pystr, stand_config) dict \<Rightarrow> exn + 'i)
     \<Rightarrow> ('y \<Rightarrow> exn + 'd device_inventory) option
     \<Rightarrow> (int \<Rightarrow> (pystr, 'd) dict \<Rightarrow> (pystr, stand_config) dict \<Rightarrow> exn + 'i) option
     \<Rightarrow> ppath \<Rightarrow> exn + 'i" where
  "load_inventory load stand_validate builtin_devices builtin_inventory devices_adapter
      inventory_adapter path =
     (case (devices_adapter, inventory_adapter) of
        (None, None) \<Rightarrow> load_inventory_with load stand_validate builtin_devices builtin_inventory path
      | (Some a, Some i) \<Rightarrow> load_inventory_with load stand_validate a i path
      | _ \<Rightarrow> Inl (raise_txt PyTypeError
          ''Custom inventory loading requires both device_inventory_adapter and inventory_adapter''))"

text \<open>The built-in adapters after coercion: the stand file's fields and the device file's.\<close>

definition builtin_stands ::
  "('y \<Rightarrow> exn + int \<times> ppath list \<times> (pystr, stand_config) dict) \<Rightarrow> 'y \<Rightarrow> exn + stand_inventory" where
  "builtin_stands coerce y =
     try_bind (coerce y) (\<lambda>(v, files, stands). stand_inventory_model v files stands)"

definition build_device :: "raw_transport device_config \<Rightarrow> transport_config device_config" where
  "build_device d = \<lparr>dc_type = dc_type d, dc_model = dc_model d,
     dc_transport = build_transport (dc_transport d)\<rparr>"

definition builtin_devices ::
  "('y \<Rightarrow> exn + int \<times> (pystr, raw_transport device_config) dict)
     \<Rightarrow> 'y \<Rightarrow> exn + transport_config device_config device_inventory" where
  "builtin_devices coerce y =
     try_bind (coerce y) (\<lambda>(v, raw).
       let ds = map (\<lambda>(n, d). (n, build_device d)) raw in
       checked (constraint (v = 1) ''version'' @
           concat (map (\<lambda>(n, d). transport_errors (dc_transport d)) ds))
         \<lparr>di_version = v, di_devices = ds\<rparr>)"

definition get_stand :: "'d inventory \<Rightarrow> pystr \<Rightarrow> exn + stand_config" where
  "get_stand inventory stand_name =
     (case map_of (inv_stands inventory) stand_name of
        Some s \<Rightarrow> Inr s
      | None \<Rightarrow>
          let available = join [10] (map (\<lambda>name. lit ''- '' @ name) (sort (dict_keys (inv_stands inventory))))
          in Inl (Exn UnknownStandError [Txt (lit ''Unknown stand ''), quoted stand_name,
            Txt (lit ''.'' @ [10, 10] @ lit ''Available stands:'' @ [10]),
            Txt (if available \<noteq> [] then available else lit ''- none'')]))"

section \<open>What a successful load has read\<close>

text \<open>\<open>read_devices\<close> is the device dictionary of one file.\<close>

definition read_devices ::
  "(ppath \<Rightarrow> exn + 'y) \<Rightarrow> ('y \<Rightarrow> exn + 'd device_inventory) \<Rightarrow> ppath \<Rightarrow> (pystr, 'd) dict option" where
  "read_devices load adapter p =
     (case try_bind (load p) adapter of Inl e \<Rightarrow> None | Inr di \<Rightarrow> Some (di_devices di))"

lemma load_device_files_Inr:
  assumes "load_device_files load adapter base fs ds srcs = Inr ds'"
    and "\<And>p di. try_bind (load p) adapter = Inr di \<Longrightarrow> dict_ok (di_devices di)"
    and "dict_ok ds"
  shows "\<exists>parts. list_all2 (\<lambda>f part. read_devices load adapter (path_join base f) = Some part) fs parts
    \<and> ds' = ds @ concat parts \<and> dict_ok ds'"
  using assms(1,3)
proof (induction fs arbitrary: ds srcs)
  case Nil
  then show ?case by simp
next
  case (Cons f fs)
  let ?p = "path_join base f"
  from Cons.prems(1) obtain di where di: "try_bind (load ?p) adapter = Inr di"
    and disj: "filter (has_key (di_devices di)) (dict_keys ds) = []"
    and rest: "load_device_files load adapter base fs (dict_update ds (di_devices di))
      (dict_update srcs (map (\<lambda>(name, d). (name, ?p)) (di_devices di))) = Inr ds'"
    by (auto simp: Let_def split: sum.splits if_splits)
  have ok: "dict_ok (di_devices di)" using di by (rule assms(2))
  from disj have "set (dict_keys ds) \<inter> set (dict_keys (di_devices di)) = {}"
    by (auto simp: filter_empty_conv has_key_def)
  with ok have upd: "dict_update ds (di_devices di) = ds @ di_devices di"
    by (rule dict_update_disjoint)
  have "dict_ok (ds @ di_devices di)"
    using dict_ok_dict_update [OF Cons.prems(2), of "di_devices di"] by (simp add: upd)
  with Cons.IH [OF rest [unfolded upd]] obtain parts where
    "list_all2 (\<lambda>f part. read_devices load adapter (path_join base f) = Some part) fs parts"
    "ds' = (ds @ di_devices di) @ concat parts" "dict_ok ds'"
    by blast
  with di show ?case
    by (intro exI [of _ "di_devices di # parts"]) (simp add: read_devices_def)
qed

lemma load_inventory_with_Inr:
  assumes "load_inventory_with load stand_validate adapter inventory_adapter path = Inr i"
    and "\<And>p di. try_bind (load p) adapter = Inr di \<Longrightarrow> dict_ok (di_devices di)"
  obtains si parts where "try_bind (load path) stand_validate = Inr si"
    and "list_all2 (\<lambda>f part. read_devices load adapter (path_join (path_parent path) f) = Some part)
      (si_device_files si) parts"
    and "dict_ok (concat parts)"
    and "inventory_adapter (si_version si) (concat parts) (si_stands si) = Inr i"
proof -
  from assms(1) obtain si ds where "try_bind (load path) stand_validate = Inr si"
    and files: "load_device_files load adapter (path_parent path) (si_device_files si) [] [] = Inr ds"
    and "inventory_adapter (si_version si) ds (si_stands si) = Inr i"
    by (auto simp: load_inventory_with_def result_simps split: sum.splits)
  moreover from files have "\<exists>parts. list_all2 (\<lambda>f part.
      read_devices load adapter (path_join (path_parent path) f) = Some part)
      (si_device_files si) parts \<and> ds = [] @ concat parts \<and> dict_ok ds"
    by (rule load_device_files_Inr) (auto intro: assms(2))
  ultimately show thesis by (auto intro: that)
qed

lemma builtin_devices_wf:
  "builtin_devices coerce y = Inr di \<Longrightarrow> (n, d) \<in> set (di_devices di) \<Longrightarrow> transport_wf (dc_transport d)"
  by (fastforce simp: builtin_devices_def result_simps Let_def)

lemma builtin_devices_keys:
  "builtin_devices coerce y = Inr di \<Longrightarrow>
     \<exists>v raw. coerce y = Inr (v, raw) \<and> dict_keys (di_devices di) = dict_keys raw"
  by (auto simp: builtin_devices_def result_simps Let_def comp_def case_prod_unfold)

section \<open>Which errors a load can raise\<close>

lemma load_yaml_error:
  assumes "load_yaml read_text safe_load path = Inl e"
    and "\<And>p e. read_text p = Inl e \<Longrightarrow> caught_by e PyOSError"
    and "\<And>t e. safe_load t = Inl e \<Longrightarrow> caught_by e YAMLError"
  shows "exn_kind e = InventoryError"
  using assms(1) by (auto simp: load_yaml_def result_simps split: sum.splits if_splits
      dest: assms(2,3))

lemma inventory_error_not_validation:
  "exn_kind e = InventoryError \<Longrightarrow> \<not> caught_by e ValidationError"
proof -
  have "\<not> subclass_of InventoryError ValidationError" by code_simp
  then show "exn_kind e = InventoryError \<Longrightarrow> ?thesis" by (simp add: caught_by_def)
qed

lemma invalid_inventory_kind:
  "caught_by e ValidationError \<or> exn_kind e = InventoryError \<Longrightarrow>
     exn_kind (invalid_inventory p e) = InventoryError"
  by (auto simp: invalid_inventory_def)

lemma load_device_files_error:
  assumes "load_device_files load adapter base fs ds srcs = Inl e"
    and "\<And>p e. load p = Inl e \<Longrightarrow> exn_kind e = InventoryError"
    and "\<And>y e. adapter y = Inl e \<Longrightarrow> caught_by e ValidationError"
  shows "exn_kind e = InventoryError"
  using assms(1)
proof (induction fs arbitrary: ds srcs)
  case (Cons f fs)
  then show ?case
    by (auto simp: Let_def result_simps split: sum.splits if_splits
        intro!: invalid_inventory_kind dest: assms(2,3))
qed simp

text \<open>What the parameters promise in the built-in configuration: readers raise \<^verbatim>\<open>OSError\<close> or
  \<^verbatim>\<open>YAMLError\<close>, Pydantic raises \<^verbatim>\<open>ValidationError\<close>, and a parsed mapping has distinct keys.\<close>

definition reader_ok :: "(ppath \<Rightarrow> exn + pystr) \<Rightarrow> (pystr \<Rightarrow> exn + 'y) \<Rightarrow> bool" where
  "reader_ok read_text safe_load \<longleftrightarrow>
     (\<forall>p e. read_text p = Inl e \<longrightarrow> caught_by e PyOSError) \<and>
     (\<forall>t e. safe_load t = Inl e \<longrightarrow> caught_by e YAMLError)"

definition coercion_ok ::
  "('y \<Rightarrow> exn + int \<times> ppath list \<times> (pystr, stand_config) dict)
     \<Rightarrow> ('y \<Rightarrow> exn + int \<times> (pystr, raw_transport device_config) dict) \<Rightarrow> bool" where
  "coercion_ok stands devices \<longleftrightarrow>
     (\<forall>y e. stands y = Inl e \<longrightarrow> caught_by e ValidationError) \<and>
     (\<forall>y e. devices y = Inl e \<longrightarrow> caught_by e ValidationError) \<and>
     (\<forall>y v raw. devices y = Inr (v, raw) \<longrightarrow> dict_ok raw)"

lemma validation_error_caught: "exn_kind e = ValidationError \<Longrightarrow> caught_by e ValidationError"
  by (simp add: caught_by_def)

lemma builtin_stands_error:
  "coercion_ok stands devices \<Longrightarrow> builtin_stands stands y = Inl e \<Longrightarrow> caught_by e ValidationError"
  by (auto simp: builtin_stands_def coercion_ok_def result_simps stand_inventory_model_def
      dest!: checked_error intro: validation_error_caught)

lemma builtin_devices_error:
  "coercion_ok stands devices \<Longrightarrow> builtin_devices devices y = Inl e \<Longrightarrow> caught_by e ValidationError"
  by (auto simp: builtin_devices_def coercion_ok_def result_simps Let_def
      dest!: checked_error intro: validation_error_caught)

lemma builtin_devices_dict_ok:
  assumes "coercion_ok stands devices" and "builtin_devices devices y = Inr di"
  shows "dict_ok (di_devices di)"
  using builtin_devices_keys [OF assms(2)] assms(1) by (auto simp: coercion_ok_def dict_ok_def)

section \<open>Properties\<close>

definition load_builtin ::
  "(ppath \<Rightarrow> exn + pystr) \<Rightarrow> (pystr \<Rightarrow> exn + 'y)
     \<Rightarrow> ('y \<Rightarrow> exn + int \<times> ppath list \<times> (pystr, stand_config) dict)
     \<Rightarrow> ('y \<Rightarrow> exn + int \<times> (pystr, raw_transport device_config) dict)
     \<Rightarrow> ppath \<Rightarrow> exn + transport_config device_config inventory" where
  \<comment> \<open>\<^verbatim>\<open>load_inventory(path)\<close>\<close>
  "load_builtin read_text safe_load stands devices path =
     load_inventory (load_yaml read_text safe_load) (builtin_stands stands) (builtin_devices devices)
       inventory_model None None path"

text \<open>
  C21. A loaded inventory is the concatenation of the device files in the order the stand file
  lists them, each read below the stand file's directory, with no device defined twice; every
  device's transport is within its bounds and every stand refers to loaded devices only.
\<close>

theorem load_inventory_sound:
  assumes "load_builtin read_text safe_load stands devices path = Inr i"
    and "coercion_ok stands devices"
  shows "\<exists>si parts. try_bind (load_yaml read_text safe_load path) (builtin_stands stands) = Inr si
      \<and> list_all2 (\<lambda>f part. read_devices (load_yaml read_text safe_load) (builtin_devices devices)
            (path_join (path_parent path) f) = Some part) (si_device_files si) parts
      \<and> inv_devices i = concat parts \<and> distinct (dict_keys (inv_devices i))
      \<and> inv_stands i = si_stands si \<and> references_ok i
      \<and> (\<forall>(n, d) \<in> set (inv_devices i). transport_wf (dc_transport d))"
proof -
  from assms obtain si parts where
    si: "try_bind (load_yaml read_text safe_load path) (builtin_stands stands) = Inr si"
    and parts: "list_all2 (\<lambda>f part. read_devices (load_yaml read_text safe_load)
        (builtin_devices devices) (path_join (path_parent path) f) = Some part)
      (si_device_files si) parts"
    and ok: "dict_ok (concat parts)"
    and i: "inventory_model (si_version si) (concat parts) (si_stands si) = Inr i"
    unfolding load_builtin_def load_inventory_def
    by (auto elim!: load_inventory_with_Inr simp: result_simps
        intro: builtin_devices_dict_ok)
  have "transport_wf (dc_transport d)" if "(n, d) \<in> set (concat parts)" for n d
  proof -
    from that obtain part where "part \<in> set parts" and d: "(n, d) \<in> set part" by auto
    then obtain k where "k < length parts" and "parts ! k = part"
      by (auto simp: in_set_conv_nth)
    with parts have "read_devices (load_yaml read_text safe_load) (builtin_devices devices)
        (path_join (path_parent path) (si_device_files si ! k)) = Some part"
      by (auto simp: list_all2_conv_all_nth)
    with d show ?thesis
      by (auto simp: read_devices_def result_simps split: sum.splits
          intro: builtin_devices_wf)
  qed
  with si parts ok i show ?thesis
    by (auto simp: inventory_model_Inr_iff dict_ok_def intro!: exI [of _ si] exI [of _ parts])
qed

definition example_stand :: stand_config where
  "example_stand = \<lparr>sd_description = None, sd_capabilities = [],
     sd_devices = [(lit ''dut'', lit ''dut-01'')]\<rparr>"

definition example_raw_device :: "raw_transport device_config" where
  "example_raw_device = \<lparr>dc_type = lit ''dut'', dc_model = lit ''example'',
     dc_transport = RawPySerial (lit ''/dev/ttyUSB0'') None
       \<lparr>rc_prompt = lit ''board> '', rc_initial_prompt_suffix = None, rc_login_prompt = None,
         rc_password_prompt = None, rc_credentials = None\<rparr>\<rparr>"

definition example_inventory :: "transport_config device_config inventory" where
  "example_inventory = \<lparr>inv_version = 1,
     inv_devices = [(lit ''dut-01'', build_device example_raw_device)],
     inv_stands = [(lit ''stand-01'', example_stand)]\<rparr>"

lemma example_transport_wf: "transport_wf (build_transport (dc_transport example_raw_device))"
proof -
  have "below_dev (lit ''/dev/ttyUSB0'')" by code_simp
  then show ?thesis
    by (simp add: example_raw_device_def build_console_def with_default_def console_wf_def
        has_control_char_def lit_Cons)
qed

lemma example_load:
  "load_builtin (\<lambda>_. Inr []) Inr
     (\<lambda>_. Inr (1, [parse_path (lit ''devices.yaml'')], [(lit ''stand-01'', example_stand)]))
     (\<lambda>_. Inr (1, [(lit ''dut-01'', example_raw_device)])) (parse_path (lit ''inventory/stands.yaml''))
   = Inr example_inventory"
  using example_transport_wf
  by (simp add: load_builtin_def load_inventory_def load_inventory_with_def load_yaml_def
      builtin_stands_def builtin_devices_def stand_inventory_model_def checked_def Let_def
      constraint_def dict_update_def inventory_model_def validate_device_references_def
      missing_references_def dict_of_def has_key_def example_stand_def example_inventory_def
      build_device_def)

lemma example_coercion_ok:
  "coercion_ok (\<lambda>_. Inr (1, [parse_path (lit ''devices.yaml'')], [(lit ''stand-01'', example_stand)]))
     (\<lambda>_. Inr (1, [(lit ''dut-01'', example_raw_device)]))"
  by (simp add: coercion_ok_def dict_ok_def)

theorem load_inventory_sound_witness:
  "references_ok example_inventory \<and> distinct (dict_keys (inv_devices example_inventory))"
  using load_inventory_sound [OF example_load example_coercion_ok] by auto

text \<open>
  Loading fails consistently: as long as files fail with \<^verbatim>\<open>OSError\<close>, the YAML reader with
  \<^verbatim>\<open>YAMLError\<close> and Pydantic with \<^verbatim>\<open>ValidationError\<close>, every failure of \<^verbatim>\<open>load_inventory\<close>
  (missing files, malformed documents, duplicate devices, dangling references) is raised as
  an \<^verbatim>\<open>InventoryError\<close>.
\<close>

lemma load_inventory_errors:
  assumes "load_builtin read_text safe_load stands devices path = Inl e"
    and "reader_ok read_text safe_load" and "coercion_ok stands devices"
  shows "exn_kind e = InventoryError"
proof -
  let ?load = "load_yaml read_text safe_load"
  have load: "exn_kind e = InventoryError" if "?load p = Inl e" for p e
    using that assms(2) by (auto intro: load_yaml_error simp: reader_ok_def)
  from assms(1) obtain e' where e: "e = invalid_inventory path e'"
    and e': "try_bind (try_bind (?load path) (builtin_stands stands)) (\<lambda>si.
        try_bind (load_device_files ?load (builtin_devices devices) (path_parent path)
          (si_device_files si) [] []) (\<lambda>ds. inventory_model (si_version si) ds (si_stands si)))
      = Inl e'"
    by (auto simp: load_builtin_def load_inventory_def load_inventory_with_def split: sum.splits)
  from e' consider "?load path = Inl e'" | y where "builtin_stands stands y = Inl e'"
    | fs where "load_device_files ?load (builtin_devices devices) (path_parent path) fs [] [] = Inl e'"
    | v ss and ds :: "(pystr, transport_config device_config) dict"
      where "inventory_model v ds ss = Inl e'"
    by (auto simp: result_simps)
  then have "caught_by e' ValidationError \<or> exn_kind e' = InventoryError"
  proof cases
    case 3
    then have "exn_kind e' = InventoryError"
      by (rule load_device_files_error) (auto intro: load builtin_devices_error [OF assms(3)])
    then show ?thesis ..
  qed (auto intro: load builtin_stands_error [OF assms(3)] validation_error_caught
      dest: inventory_model_error)
  then show ?thesis unfolding e by (rule invalid_inventory_kind)
qed

lemma load_inventory_errors_witness:
  "exn_kind (invalid_inventory (parse_path (lit ''s.yaml''))
     (Exn InventoryError [Txt (lit ''Cannot read inventory ''), quoted (lit ''s.yaml''),
        Txt (lit '': ''), Cause (raise_txt PyOSError ''missing'')])) = InventoryError"
proof -
  have os: "caught_by (raise_txt PyOSError ''missing'') PyOSError" by code_simp
  have "load_builtin (\<lambda>_. Inl (raise_txt PyOSError ''missing'')) Inr
      (\<lambda>_ :: pystr. Inr (1, [], [])) (\<lambda>_. Inr (1, [])) (parse_path (lit ''s.yaml''))
    = Inl (invalid_inventory (parse_path (lit ''s.yaml''))
       (Exn InventoryError [Txt (lit ''Cannot read inventory ''), quoted (lit ''s.yaml''),
        Txt (lit '': ''), Cause (raise_txt PyOSError ''missing'')]))"
  proof -
    have "path_str (parse_path (lit ''s.yaml'')) = lit ''s.yaml''" by code_simp
    with os show ?thesis
      by (simp add: load_builtin_def load_inventory_def load_inventory_with_def load_yaml_def)
  qed
  moreover have "reader_ok (\<lambda>_. Inl (raise_txt PyOSError ''missing'')) (Inr :: pystr \<Rightarrow> exn + pystr)"
    using os by (simp add: reader_ok_def)
  moreover have "coercion_ok (\<lambda>_ :: pystr. Inr (1, [], [])) (\<lambda>_. Inr (1, []))"
    by (simp add: coercion_ok_def)
  ultimately show ?thesis by (rule load_inventory_errors)
qed

text \<open>
  A reader that fails otherwise is passed through: a file that is not UTF-8 makes
  \<^verbatim>\<open>read_text\<close> raise \<^verbatim>\<open>UnicodeDecodeError\<close>, which neither clause of \<^verbatim>\<open>_load_yaml\<close> catches.
\<close>

lemma load_inventory_unicode_error:
  assumes "read_text path = Inl (Exn UnicodeDecodeError m)"
  shows "load_builtin read_text safe_load stands devices path = Inl (Exn UnicodeDecodeError m)"
proof -
  have "\<not> subclass_of UnicodeDecodeError c" if "c \<in> {PyOSError, YAMLError, ValidationError}" for c
    using that by (auto simp: subclass_of.simps)
  then show ?thesis
    by (simp add: load_builtin_def load_inventory_def load_inventory_with_def load_yaml_def
        invalid_inventory_def caught_by_def assms)
qed

end
