(* ===== verification/Credentials.thy ===== *)
theory Credentials
  imports Paths Inventory
begin

text \<open>
  Runtime settings and named credentials: \<^verbatim>\<open>src/hardware_test/settings\<close>. A
  \<^verbatim>\<open>SecretStr\<close> is the string it hides. Reading the environment is Pydantic's; the defaults and
  the constraints on the fields are the code's.
\<close>

record credential =
  cr_username :: pystr
  cr_password :: pystr

record credential_settings =
  default_ssh :: "credential option"
  analyzer_default :: "credential option"
  generator_default :: "credential option"
  cs_ssh :: "(pystr, credential) dict"
  cs_console :: "(pystr, credential) dict"

definition get_ssh :: "credential_settings \<Rightarrow> pystr \<Rightarrow> credential option" where
  "get_ssh self name =
     (let built_in = [(lit ''default-ssh'', default_ssh self),
            (lit ''analyzer-default'', analyzer_default self),
            (lit ''generator-default'', generator_default self)]
      in case map_of built_in name of
           Some (Some c) \<Rightarrow> Some c
         | _ \<Rightarrow> map_of (cs_ssh self) name)"

definition get_console :: "credential_settings \<Rightarrow> pystr \<Rightarrow> credential option" where
  "get_console self name = map_of (cs_console self) name"

record settings =
  credentials :: credential_settings
  inventory_path :: ppath
  command_timeout :: rat
  connect_timeout :: rat
  ssh_host_key_policy_default :: host_key_policy
  ssh_known_hosts_path :: "ppath option"
  serial_agent_command :: pystr

definition no_credentials :: credential_settings where
  "no_credentials = \<lparr>default_ssh = None, analyzer_default = None, generator_default = None,
     cs_ssh = [], cs_console = []\<rparr>"

definition default_settings :: settings where
  "default_settings = \<lparr>credentials = no_credentials,
     inventory_path = parse_path (lit ''inventory/stands.yaml''),
     command_timeout = 30, connect_timeout = 10, ssh_host_key_policy_default = REJECT,
     ssh_known_hosts_path = None, serial_agent_command = lit ''hardware-serial-helper''\<rparr>"

text \<open>The constraints \<^verbatim>\<open>gt=0\<close> and \<^verbatim>\<open>min_length=1\<close> of the fields.\<close>

definition settings_errors :: "settings \<Rightarrow> exn list" where
  "settings_errors s =
     constraint (0 < command_timeout s) ''command_timeout'' @
     constraint (0 < connect_timeout s) ''connect_timeout'' @
     constraint (serial_agent_command s \<noteq> []) ''serial_agent_command''"

definition validate_settings :: "settings \<Rightarrow> exn + settings" where
  "validate_settings s = checked (settings_errors s) s"

definition is_builtin_reference :: "pystr \<Rightarrow> bool" where
  "is_builtin_reference name \<longleftrightarrow>
     name \<in> {lit ''default-ssh'', lit ''analyzer-default'', lit ''generator-default''}"

lemma validate_default_settings: "validate_settings default_settings = Inr default_settings"
  by (simp add: validate_settings_def settings_errors_def default_settings_def)

text \<open>A configured built-in profile wins over a named one of the same name; any other name, and
  a built-in name that is not configured, is looked up among the named profiles.\<close>

lemma get_ssh_builtin:
  "default_ssh s = Some c \<Longrightarrow> get_ssh s (lit ''default-ssh'') = Some c"
  "analyzer_default s = Some c \<Longrightarrow> get_ssh s (lit ''analyzer-default'') = Some c"
  "generator_default s = Some c \<Longrightarrow> get_ssh s (lit ''generator-default'') = Some c"
  by (simp_all add: get_ssh_def)

lemma get_ssh_named: "\<not> is_builtin_reference n \<Longrightarrow> get_ssh s n = map_of (cs_ssh s) n"
  by (auto simp: get_ssh_def is_builtin_reference_def)

end
