(* ===== verification/Transport_Config.thy ===== *)
theory Transport_Config
  imports Commands Paths
begin

text \<open>The resolved configurations of \<^verbatim>\<open>src/hardware_test/transport/config.py\<close>.\<close>

record ssh_connection =
  sc_host :: pystr
  sc_port :: int
  sc_username :: pystr
  sc_password :: pystr
  sc_host_key_policy :: host_key_policy
  sc_known_hosts_path :: "ppath option"

record console_session_config =
  cc_prompt :: pystr
  cc_initial_prompt_suffix :: pystr
  cc_login_prompt :: pystr
  cc_password_prompt :: pystr
  cc_username :: "pystr option"
  cc_password :: "pystr option"

end
