(* ===== verification/Factory.thy ===== *)
theory Factory
  imports Loader Credentials Transport_Config
begin

text \<open>
  Construction of the runtime objects, \<^verbatim>\<open>src/hardware_test/factory\<close>: transports with resolved
  credentials, typed devices, and a stand that holds one device object per physical device.
  An object is its identity, a number counted up by allocation, and what its constructor
  stored. The factories a project may inject are parameters of \<open>stand_create\<close>.
\<close>

section \<open>Transports\<close>

text \<open>What the constructors of the four transports store (timeouts last). Each is wrapped in a
  \<^verbatim>\<open>SynchronizedTransport\<close>.\<close>

datatype transport =
    SSHTransport (t_ssh: ssh_connection) (t_connect_timeout: rat) (t_command_timeout: rat)
  | PicocomOverSshTransport (t_ssh: ssh_connection) (t_serial_device: pystr) (t_baudrate: int)
      (t_console: console_session_config) (t_connect_timeout: rat) (t_command_timeout: rat)
  | PySerialTransport (t_serial_device: pystr) (t_baudrate: int)
      (t_console: console_session_config) (t_connect_timeout: rat) (t_command_timeout: rat)
  | PySerialOverSshTransport (t_ssh: ssh_connection) (t_serial_device: pystr) (t_baudrate: int)
      (t_console: console_session_config) (t_agent_command: pystr) (t_connect_timeout: rat)
      (t_command_timeout: rat)

datatype lockable_transport = SynchronizedTransport (wrapped: transport)

definition create_ssh_config :: "ssh_inventory \<Rightarrow> settings \<Rightarrow> exn + ssh_connection" where
  "create_ssh_config config settings =
     (case get_ssh (credentials settings) (ssh_credentials config) of
        None \<Rightarrow> Inl (Exn FactoryError [Txt (lit ''SSH credentials ''),
          quoted (ssh_credentials config), Txt (lit '' are not configured in runtime settings'')])
      | Some c \<Rightarrow> Inr \<lparr>sc_host = ssh_host config, sc_port = ssh_port config,
          sc_username = cr_username c, sc_password = cr_password c,
          sc_host_key_policy = with_default (ssh_host_key_policy_default settings)
            (ssh_host_key_policy config),
          sc_known_hosts_path = ssh_known_hosts_path settings\<rparr>)"

definition resolve_console_credentials :: "pystr option \<Rightarrow> settings \<Rightarrow> exn + credential option" where
  "resolve_console_credentials reference settings =
     (case reference of
        None \<Rightarrow> Inr None
      | Some r \<Rightarrow>
          (case get_console (credentials settings) r of
             None \<Rightarrow> Inl (Exn FactoryError [Txt (lit ''Console credentials ''), quoted r,
               Txt (lit '' are not configured in runtime settings'')])
           | Some c \<Rightarrow> Inr (Some c)))"

definition create_console_config ::
  "console_inventory \<Rightarrow> settings \<Rightarrow> exn + console_session_config" where
  "create_console_config console settings =
     try_bind (resolve_console_credentials (con_credentials console) settings) (\<lambda>c.
       Inr \<lparr>cc_prompt = con_prompt console,
         cc_initial_prompt_suffix = con_initial_prompt_suffix console,
         cc_login_prompt = con_login_prompt console,
         cc_password_prompt = con_password_prompt console,
         cc_username = map_option cr_username c, cc_password = map_option cr_password c\<rparr>)"

definition validate_agent_command :: "pystr \<Rightarrow> exn + pystr" where
  "validate_agent_command value =
     (if has_control_char value
      then Inl (raise_txt PyValueError ''serial_agent_command must not contain control characters'')
      else Inr value)"

fun create_transport :: "transport_config \<Rightarrow> settings \<Rightarrow> exn + lockable_transport" where
  "create_transport (PySerialTransportConfig d b c) settings =
     try_bind (create_console_config c settings) (\<lambda>console.
       Inr (SynchronizedTransport (PySerialTransport d b console
         (connect_timeout settings) (command_timeout settings))))"
| "create_transport (PicocomOverSshTransportConfig s d b c) settings =
     try_bind (create_ssh_config s settings) (\<lambda>ssh.
     try_bind (create_console_config c settings) (\<lambda>console.
       Inr (SynchronizedTransport (PicocomOverSshTransport ssh d b console
         (connect_timeout settings) (command_timeout settings)))))"
| "create_transport (PySerialOverSshTransportConfig s d b c) settings =
     try_bind (create_ssh_config s settings) (\<lambda>ssh.
     try_bind (create_console_config c settings) (\<lambda>console.
     try_bind (validate_agent_command (serial_agent_command settings)) (\<lambda>agent_command.
       Inr (SynchronizedTransport (PySerialOverSshTransport ssh d b console agent_command
         (connect_timeout settings) (command_timeout settings))))))"
| "create_transport (SshTransportConfig s) settings =
     try_bind (create_ssh_config s settings) (\<lambda>ssh.
       Inr (SynchronizedTransport (SSHTransport ssh
         (connect_timeout settings) (command_timeout settings))))"

section \<open>Devices\<close>

datatype device_class = Device | Dut | Analyzer | Generator

text \<open>\<^verbatim>\<open>isinstance\<close> against a class of \<^verbatim>\<open>src/hardware_test/devices\<close>.\<close>

definition device_isinstance :: "device_class \<Rightarrow> device_class \<Rightarrow> bool" where
  "device_isinstance c expected \<longleftrightarrow> c = expected \<or> expected = Device"

record 't device =
  dev_class :: device_class
  dev_transport :: 't
  dev_model :: pystr

definition device_types :: "(pystr, device_class) dict" where
  "device_types = [(lit ''dut'', Dut), (lit ''analyzer'', Analyzer), (lit ''generator'', Generator)]"

definition create_device :: "'c device_config \<Rightarrow> 't \<Rightarrow> exn + 't device" where
  "create_device config transport =
     (case map_of device_types (dc_type config) of
        None \<Rightarrow> Inl (Exn FactoryError [Txt (lit ''Unsupported device type ''),
          quoted (dc_type config), Txt (lit ''. Supported types: ''),
          Txt (join (lit '', '') (sort (dict_keys device_types)))])
      | Some c \<Rightarrow> Inr \<lparr>dev_class = c, dev_transport = transport, dev_model = dc_model config\<rparr>)"

section \<open>Stands\<close>

text \<open>
  \<open>objs\<close> is the list of device objects in the order of their creation; an object's identity
  is its position. A stand maps roles to identities. The loop carries the physical devices
  built so far and the roles filled so far.
\<close>

record 'd test_stand =
  ts_devices :: "(pystr, nat) dict"
  ts_objects :: "'d list"

fun stand_loop ::
  "('c \<Rightarrow> exn + 't) \<Rightarrow> (('c, 'm) device_config_scheme \<Rightarrow> 't \<Rightarrow> exn + 'd) \<Rightarrow> (pystr, ('c, 'm) device_config_scheme) dict
     \<Rightarrow> (pystr \<times> pystr) list \<Rightarrow> (pystr, nat) dict \<Rightarrow> (pystr, nat) dict \<Rightarrow> 'd list
     \<Rightarrow> exn + (pystr, nat) dict \<times> 'd list" where
  "stand_loop tf df devices [] physical by_role objs = Inr (by_role, objs)"
| "stand_loop tf df devices ((role, name) # roles) physical by_role objs =
     (case map_of physical name of
        Some oid \<Rightarrow>
          stand_loop tf df devices roles physical (AList.update role oid by_role) objs
      | None \<Rightarrow>
          (case map_of devices name of
             None \<Rightarrow> Inl (Exn PyKeyError [Repr name])
           | Some config \<Rightarrow>
               try_bind (tf (dc_transport config)) (\<lambda>transport.
               try_bind (df config transport) (\<lambda>device.
                 let oid = length objs in
                 stand_loop tf df devices roles (AList.update name oid physical)
                   (AList.update role oid by_role) (objs @ [device])))))"

definition stand_create ::
  "('c \<Rightarrow> exn + 't) \<Rightarrow> (('c, 'm) device_config_scheme \<Rightarrow> 't \<Rightarrow> exn + 'd) \<Rightarrow> (pystr, ('c, 'm) device_config_scheme) dict
     \<Rightarrow> stand_config \<Rightarrow> exn + 'd test_stand" where
  "stand_create tf df devices config =
     try_bind (stand_loop tf df devices (sd_devices config) [] [] []) (\<lambda>(by_role, objs).
       Inr \<lparr>ts_devices = by_role, ts_objects = objs\<rparr>)"

definition create_stand ::
  "transport_config device_config inventory \<Rightarrow> stand_config \<Rightarrow> settings
     \<Rightarrow> exn + lockable_transport device test_stand" where
  "create_stand inventory config settings =
     stand_create (\<lambda>c. create_transport c settings) create_device (inv_devices inventory) config"

section \<open>The factory interfaces\<close>

text \<open>
  The contract of \<^verbatim>\<open>TransportFactory\<close> and \<^verbatim>\<open>DeviceFactory\<close> as \<^verbatim>\<open>StandFactory\<close> relies on it:
  a factory fails only with one of its announced error classes, and a device is built over
  the transport it is handed.
\<close>

locale stand_factories =
  fixes tf :: "'c \<Rightarrow> exn + 't"
    and df :: "('c, 'm) device_config_scheme \<Rightarrow> 't \<Rightarrow> exn + 'd"
    and transport_of :: "'d \<Rightarrow> 't"
    and announced :: "exn_class set"
  assumes tf_error: "tf c = Inl e \<Longrightarrow> exn_kind e \<in> announced"
    and df_error: "df dc t = Inl e \<Longrightarrow> exn_kind e \<in> announced"
    and df_transport: "df dc t = Inr d \<Longrightarrow> transport_of d = t"

definition built ::
  "('c \<Rightarrow> exn + 't) \<Rightarrow> (('c, 'm) device_config_scheme \<Rightarrow> 't \<Rightarrow> exn + 'd) \<Rightarrow> (pystr, ('c, 'm) device_config_scheme) dict
     \<Rightarrow> pystr \<Rightarrow> 'd \<Rightarrow> bool" where
  \<comment> \<open>\<open>d\<close> is what the factories make of the device called \<open>n\<close>\<close>
  "built tf df devices n d \<longleftrightarrow>
     (\<exists>c t. map_of devices n = Some c \<and> tf (dc_transport c) = Inr t \<and> df c t = Inr d)"

definition stand_inv ::
  "('c \<Rightarrow> exn + 't) \<Rightarrow> (('c, 'm) device_config_scheme \<Rightarrow> 't \<Rightarrow> exn + 'd) \<Rightarrow> (pystr, ('c, 'm) device_config_scheme) dict
     \<Rightarrow> (pystr \<times> pystr) list \<Rightarrow> (pystr, nat) dict \<Rightarrow> (pystr, nat) dict \<Rightarrow> 'd list \<Rightarrow> bool" where
  "stand_inv tf df devices roles physical by_role objs \<longleftrightarrow>
     dict_ok physical \<and> map snd physical = [0..<length objs] \<and>
     set (map fst physical) = set (map snd roles) \<and>
     by_role = map (\<lambda>(r, n). (r, the (map_of physical n))) roles \<and>
     (\<forall>(n, oid) \<in> set physical. built tf df devices n (objs ! oid))"

lemma stand_inv_keys:
  "stand_inv tf df devices roles physical by_role objs \<Longrightarrow> map fst by_role = map fst roles"
  by (simp add: stand_inv_def comp_def case_prod_unfold)

lemma stand_inv_reuse:
  assumes "stand_inv tf df devices seen physical by_role objs"
    and "map_of physical n = Some oid" and "r \<notin> set (map fst seen)"
  shows "stand_inv tf df devices (seen @ [(r, n)]) physical (AList.update r oid by_role) objs"
proof -
  have "n \<in> set (map fst physical)" using assms(2) by (force dest: map_of_SomeD)
  moreover have "AList.update r oid by_role = by_role @ [(r, oid)]"
    using assms(3) stand_inv_keys [OF assms(1)] by (intro update_fresh) simp
  ultimately show ?thesis using assms(1,2) by (auto simp: stand_inv_def)
qed

lemma stand_inv_build:
  assumes "stand_inv tf df devices seen physical by_role objs"
    and "map_of physical n = None" and "r \<notin> set (map fst seen)" and "built tf df devices n d"
  shows "stand_inv tf df devices (seen @ [(r, n)]) (AList.update n (length objs) physical)
    (AList.update r (length objs) by_role) (objs @ [d])"
proof -
  have fresh: "n \<notin> set (map fst physical)" using assms(2) by (simp add: map_of_eq_None_iff)
  then have p: "AList.update n (length objs) physical = physical @ [(n, length objs)]"
    by (rule update_fresh)
  have b: "AList.update r (length objs) by_role = by_role @ [(r, length objs)]"
    using assms(3) stand_inv_keys [OF assms(1)] by (intro update_fresh) simp
  let ?phys = "physical @ [(n, length objs)]"
  have new: "map_of ?phys n = Some (length objs)"
    using assms(2) by (simp add: map_add_def)
  have old: "map_of ?phys (snd x) = map_of physical (snd x)" if "x \<in> set seen" for x
  proof -
    from that assms(1) have "snd x \<in> set (map fst physical)" by (simp add: stand_inv_def)
    then show ?thesis
      by (auto simp: map_add_def map_of_eq_None_iff dest: weak_map_of_SomeI split: option.splits)
  qed
  then have same: "map (\<lambda>(r, m). (r, the (map_of ?phys m))) seen = by_role"
    using assms(1) by (auto simp: stand_inv_def case_prod_unfold simp del: map_of_append)
  have "oid < length objs" if "(m, oid) \<in> set physical" for m oid
  proof -
    from that have "oid \<in> set (map snd physical)" by force
    also have "map snd physical = [0..<length objs]" using assms(1) by (simp add: stand_inv_def)
    finally show ?thesis by simp
  qed
  then have "\<forall>(m, oid) \<in> set ?phys. built tf df devices m ((objs @ [d]) ! oid)"
    using assms(1,4) by (auto simp: stand_inv_def nth_append)
  moreover have "dict_ok ?phys" and "map snd ?phys = [0..<length (objs @ [d])]"
    and "set (map fst ?phys) = set (map snd (seen @ [(r, n)]))"
    using assms(1) fresh by (auto simp: stand_inv_def dict_ok_def)
  ultimately show ?thesis
    using same new unfolding p b stand_inv_def by (simp del: map_of_append)
qed

lemma stand_loop_inv:
  assumes "stand_loop tf df devices roles physical by_role objs = Inr (by_role', objs')"
    and "stand_inv tf df devices seen physical by_role objs"
    and "distinct (map fst (seen @ roles))"
  shows "\<exists>physical'. stand_inv tf df devices (seen @ roles) physical' by_role' objs'"
  using assms
proof (induction roles arbitrary: seen physical by_role objs)
  case (Cons rn roles)
  obtain r n where rn: "rn = (r, n)" by fastforce
  have fresh: "r \<notin> set (map fst seen)" and dist: "distinct (map fst ((seen @ [rn]) @ roles))"
    using Cons.prems(3) by (auto simp: rn)
  show ?case
  proof (cases "map_of physical n")
    case (Some oid)
    with Cons.prems(1) Cons.IH [OF _ stand_inv_reuse [OF Cons.prems(2) Some fresh]] dist
    show ?thesis by (simp add: rn)
  next
    case None
    with Cons.prems(1) obtain c t d where "map_of devices n = Some c" "tf (dc_transport c) = Inr t"
      "df c t = Inr d"
      and rest: "stand_loop tf df devices roles (AList.update n (length objs) physical)
        (AList.update r (length objs) by_role) (objs @ [d]) = Inr (by_role', objs')"
      by (auto simp: rn Let_def result_simps split: option.splits)
    then have "built tf df devices n d" by (auto simp: built_def)
    with Cons.IH [OF rest stand_inv_build [OF Cons.prems(2) None fresh]] dist
    show ?thesis by (simp add: rn)
  qed
qed auto

lemma stand_create_inv:
  assumes "stand_create tf df devices config = Inr st" and "dict_ok (sd_devices config)"
  obtains physical where
    "stand_inv tf df devices (sd_devices config) physical (ts_devices st) (ts_objects st)"
proof -
  from assms(1) have loop: "stand_loop tf df devices (sd_devices config) [] [] []
      = Inr (ts_devices st, ts_objects st)"
    by (auto simp: stand_create_def result_simps)
  have "stand_inv tf df devices [] [] [] []" by (simp add: stand_inv_def)
  from stand_loop_inv [OF loop this] assms(2) show thesis
    by (auto simp: dict_ok_def intro: that)
qed

lemma stand_loop_error_of:
  assumes "stand_loop tf df devices roles physical by_role objs = Inl e"
    and "\<And>r n. (r, n) \<in> set roles \<Longrightarrow> has_key devices n"
  shows "\<exists>c. tf c = Inl e \<or> (\<exists>n dc t. map_of devices n = Some dc \<and> df dc t = Inl e)"
  using assms
proof (induction roles arbitrary: physical by_role objs)
  case (Cons rn roles)
  obtain r n where rn: "rn = (r, n)" by fastforce
  from Cons.prems(2) [of r n] have "map_of devices n \<noteq> None" by (simp add: rn has_key_iff)
  with Cons show ?case
    by (fastforce simp: rn Let_def result_simps split: option.splits)
qed simp

context stand_factories
begin

text \<open>With every reference resolved, composing a stand raises only announced errors.\<close>

lemma create_error:
  assumes "stand_create tf df devices config = Inl e"
    and "\<And>r n. (r, n) \<in> set (sd_devices config) \<Longrightarrow> has_key devices n"
  shows "exn_kind e \<in> announced"
proof -
  from assms(1) have "stand_loop tf df devices (sd_devices config) [] [] [] = Inl e"
    by (auto simp: stand_create_def result_simps)
  with assms(2) show ?thesis
    using stand_loop_error_of [of tf df devices "sd_devices config"] tf_error df_error by blast
qed

lemma built_transport:
  "built tf df devices n d \<Longrightarrow> \<exists>c. map_of devices n = Some c \<and> tf (dc_transport c) = Inr (transport_of d)"
  using df_transport by (fastforce simp: built_def)

end

section \<open>The built-in factories\<close>

fun ssh_refs :: "transport_config \<Rightarrow> pystr list" where
  "ssh_refs (PySerialTransportConfig _ _ _) = []"
| "ssh_refs t = [ssh_credentials (tc_ssh t)]"

fun console_refs :: "transport_config \<Rightarrow> pystr list" where
  "console_refs (SshTransportConfig _) = []"
| "console_refs t = (case con_credentials (tc_console t) of None \<Rightarrow> [] | Some r \<Rightarrow> [r])"

fun needs_agent :: "transport_config \<Rightarrow> bool" where
  "needs_agent (PySerialOverSshTransportConfig _ _ _ _) = True"
| "needs_agent _ = False"

lemma create_ssh_config_error: "create_ssh_config s st = Inl e \<Longrightarrow> exn_kind e = FactoryError"
  by (auto simp: create_ssh_config_def split: option.splits)

lemma create_console_config_error:
  "create_console_config c st = Inl e \<Longrightarrow> exn_kind e = FactoryError"
  by (auto simp: create_console_config_def resolve_console_credentials_def result_simps
      split: option.splits)

lemma create_transport_error:
  "create_transport cfg st = Inl e \<Longrightarrow>
     exn_kind e \<in> (if has_control_char (serial_agent_command st)
       then {FactoryError, PyValueError} else {FactoryError})"
  by (cases cfg) (auto simp: result_simps validate_agent_command_def split: if_splits
      dest: create_ssh_config_error create_console_config_error)

lemma create_device_error: "create_device dc t = Inl e \<Longrightarrow> exn_kind e = FactoryError"
  by (auto simp: create_device_def split: option.splits)

interpretation builtin: stand_factories "\<lambda>c. create_transport c st" create_device dev_transport
  "if has_control_char (serial_agent_command st) then {FactoryError, PyValueError} else {FactoryError}"
  for st
  by unfold_locales (auto simp: create_device_def split: option.splits dest: create_transport_error)

lemma create_ssh_config_Inr:
  "(\<exists>s'. create_ssh_config s st = Inr s') \<longleftrightarrow> get_ssh (credentials st) (ssh_credentials s) \<noteq> None"
  by (auto simp: create_ssh_config_def split: option.splits)

lemma create_console_config_Inr:
  "(\<exists>c'. create_console_config c st = Inr c') \<longleftrightarrow>
     (case con_credentials c of None \<Rightarrow> True | Some r \<Rightarrow> get_console (credentials st) r \<noteq> None)"
  by (auto simp: create_console_config_def resolve_console_credentials_def result_simps
      split: option.splits)

text \<open>What a reference to credentials is resolved to, field by field.\<close>

definition resolved_ssh :: "ssh_inventory \<Rightarrow> settings \<Rightarrow> ssh_connection \<Rightarrow> bool" where
  "resolved_ssh s st x \<longleftrightarrow> (\<exists>c. get_ssh (credentials st) (ssh_credentials s) = Some c \<and>
     sc_host x = ssh_host s \<and> sc_port x = ssh_port s \<and>
     sc_username x = cr_username c \<and> sc_password x = cr_password c \<and>
     sc_host_key_policy x =
       (case ssh_host_key_policy s of None \<Rightarrow> ssh_host_key_policy_default st | Some p \<Rightarrow> p) \<and>
     sc_known_hosts_path x = ssh_known_hosts_path st)"

definition resolved_console :: "console_inventory \<Rightarrow> settings \<Rightarrow> console_session_config \<Rightarrow> bool" where
  "resolved_console c st x \<longleftrightarrow> cc_prompt x = con_prompt c \<and>
     cc_initial_prompt_suffix x = con_initial_prompt_suffix c \<and>
     cc_login_prompt x = con_login_prompt c \<and> cc_password_prompt x = con_password_prompt c \<and>
     (case con_credentials c of
        None \<Rightarrow> cc_username x = None \<and> cc_password x = None
      | Some r \<Rightarrow> \<exists>k. get_console (credentials st) r = Some k \<and>
          cc_username x = Some (cr_username k) \<and> cc_password x = Some (cr_password k))"

lemma create_ssh_config_fields: "create_ssh_config s st = Inr x \<Longrightarrow> resolved_ssh s st x"
  by (auto simp: create_ssh_config_def with_default_def resolved_ssh_def split: option.splits)

lemma create_console_config_fields: "create_console_config c st = Inr x \<Longrightarrow> resolved_console c st x"
  by (auto simp: create_console_config_def resolve_console_credentials_def resolved_console_def result_simps
      split: option.splits)

section \<open>Properties\<close>

text \<open>
  C26. A transport is created exactly when every credential profile the configuration refers to
  is configured and, for the remote agent, its command line is free of control characters. It is
  then of the kind the configuration asks for, with the timeouts of the settings, the serial
  device and baud rate of the inventory, the agent command of the settings, an SSH connection
  with the host and port of the inventory, the user and password of the referenced profile and
  the policy of the inventory or else of the settings, and a console with the prompts of the
  inventory and the credentials it refers to, if any.
\<close>

theorem create_transport_resolves:
  "((\<exists>t. create_transport cfg st = Inr t) \<longleftrightarrow>
     (\<forall>r \<in> set (ssh_refs cfg). get_ssh (credentials st) r \<noteq> None) \<and>
     (\<forall>r \<in> set (console_refs cfg). get_console (credentials st) r \<noteq> None) \<and>
     (needs_agent cfg \<longrightarrow> \<not> has_control_char (serial_agent_command st)))
   \<and> (\<forall>t. create_transport cfg st = Inr (SynchronizedTransport t) \<longrightarrow>
       (is_SSHTransport t \<longleftrightarrow> is_SshTransportConfig cfg) \<and>
       (is_PicocomOverSshTransport t \<longleftrightarrow> is_PicocomOverSshTransportConfig cfg) \<and>
       (is_PySerialTransport t \<longleftrightarrow> is_PySerialTransportConfig cfg) \<and>
       t_connect_timeout t = connect_timeout st \<and> t_command_timeout t = command_timeout st \<and>
       (\<not> is_PySerialTransport t \<longrightarrow> resolved_ssh (tc_ssh cfg) st (t_ssh t)) \<and>
       (\<not> is_SSHTransport t \<longrightarrow> t_serial_device t = tc_serial_device cfg \<and> t_baudrate t = tc_baudrate cfg \<and>
         resolved_console (tc_console cfg) st (t_console t)) \<and>
       (is_PySerialOverSshTransport t \<longrightarrow> t_agent_command t = serial_agent_command st))"
proof
  show "(\<exists>t. create_transport cfg st = Inr t) \<longleftrightarrow>
     (\<forall>r \<in> set (ssh_refs cfg). get_ssh (credentials st) r \<noteq> None) \<and>
     (\<forall>r \<in> set (console_refs cfg). get_console (credentials st) r \<noteq> None) \<and>
     (needs_agent cfg \<longrightarrow> \<not> has_control_char (serial_agent_command st))"
    by (cases cfg) (simp_all add: ex_try_bind create_ssh_config_Inr create_console_config_Inr
        validate_agent_command_def split: option.splits)
qed (cases cfg, auto simp: result_simps validate_agent_command_def
    dest: create_ssh_config_fields create_console_config_fields split: if_splits)

definition example_settings :: settings where
  "example_settings = default_settings\<lparr>credentials := no_credentials\<lparr>
     default_ssh := Some \<lparr>cr_username = lit ''root'', cr_password = lit ''pw''\<rparr>\<rparr>\<rparr>"

definition example_ssh :: ssh_inventory where
  "example_ssh = \<lparr>ssh_host = lit ''192.0.2.1'', ssh_port = 22, ssh_credentials = lit ''default-ssh'',
     ssh_host_key_policy = Some WARN\<rparr>"

theorem create_transport_resolves_witness:
  "create_transport (SshTransportConfig example_ssh) example_settings
     = Inr (SynchronizedTransport (SSHTransport \<lparr>sc_host = lit ''192.0.2.1'', sc_port = 22,
         sc_username = lit ''root'', sc_password = lit ''pw'', sc_host_key_policy = WARN,
         sc_known_hosts_path = None\<rparr> 10 30))
   \<and> get_ssh (credentials example_settings) (lit ''default-ssh'') \<noteq> None"
proof -
  have ok: "create_transport (SshTransportConfig example_ssh) example_settings
     = Inr (SynchronizedTransport (SSHTransport \<lparr>sc_host = lit ''192.0.2.1'', sc_port = 22,
         sc_username = lit ''root'', sc_password = lit ''pw'', sc_host_key_policy = WARN,
         sc_known_hosts_path = None\<rparr> 10 30))"
    by (simp add: create_ssh_config_def example_settings_def default_settings_def get_ssh_def
        example_ssh_def with_default_def)
  with create_transport_resolves [of "SshTransportConfig example_ssh" example_settings]
  show ?thesis by (auto simp: example_ssh_def)
qed

lemma stand_inv_count:
  assumes "stand_inv tf df devices roles physical by_role objs"
  shows "length objs = card (set (map snd roles))"
proof -
  from assms have ids: "map snd physical = [0..<length objs]" and dist: "distinct (map fst physical)"
    and names: "set (map fst physical) = set (map snd roles)"
    by (auto simp: stand_inv_def dict_ok_def)
  have "length objs = length (map fst physical)"
    using arg_cong [OF ids, of length] by simp
  also have "\<dots> = card (set (map fst physical))"
    using dist by (simp only: distinct_card)
  finally show ?thesis by (simp only: names)
qed

lemma stand_inv_injective:
  assumes "stand_inv tf df devices roles physical by_role objs"
    and "map_of physical n = Some oid" and "map_of physical n' = Some oid"
  shows "n = n'"
proof -
  have "map snd physical = [0..<length objs]" using assms(1) by (simp add: stand_inv_def)
  then have "distinct (map snd physical)" by simp
  moreover from assms(2,3) have "(n, oid) \<in> set physical" "(n', oid) \<in> set physical"
    by (auto dest: map_of_SomeD)
  ultimately show ?thesis
    using inj_onD [of snd "set physical" "(n, oid)" "(n', oid)"] by (simp add: distinct_map)
qed

lemma stand_inv_role:
  assumes inv: "stand_inv tf df devices roles physical by_role objs"
    and "dict_ok roles" and "(r, n) \<in> set roles"
  shows "\<exists>oid. map_of physical n = Some oid \<and> map_of by_role r = Some oid \<and>
    oid < length objs \<and> built tf df devices n (objs ! oid)"
proof -
  from assms(3) have "n \<in> set (map snd roles)" by force
  with inv have "n \<in> set (map fst physical)" by (simp add: stand_inv_def)
  then obtain oid where oid: "map_of physical n = Some oid"
    by (auto simp: dest: weak_map_of_SomeI)
  then have mem: "(n, oid) \<in> set physical" by (rule map_of_SomeD)
  then have "oid \<in> set (map snd physical)" by force
  also have "map snd physical = [0..<length objs]" using inv by (simp add: stand_inv_def)
  finally have "oid < length objs" by simp
  moreover have "map_of roles r = Some n" using assms(2,3) by (simp add: dict_ok_def)
  with oid inv have "map_of by_role r = Some oid"
    by (simp add: stand_inv_def map_of_map [of "\<lambda>n. the (map_of physical n)"])
  moreover have "built tf df devices n (objs ! oid)"
    using mem inv by (auto simp: stand_inv_def)
  ultimately show ?thesis using oid by blast
qed

text \<open>
  C27. A created stand has the roles of its configuration in their order, two roles share one
  device object exactly when they name the same physical device, exactly one object is built
  per physical device, and each role's object is what the factories make of the configuration
  of its device.
\<close>

theorem stand_create_identity:
  assumes "stand_create tf df devices config = Inr st" and "dict_ok (sd_devices config)"
  shows "dict_keys (ts_devices st) = dict_keys (sd_devices config)
    \<and> (\<forall>(r, n) \<in> set (sd_devices config). \<forall>(r', n') \<in> set (sd_devices config).
         map_of (ts_devices st) r = map_of (ts_devices st) r' \<longleftrightarrow> n = n')
    \<and> length (ts_objects st) = card (set (map snd (sd_devices config)))
    \<and> (\<forall>(r, n) \<in> set (sd_devices config). \<exists>oid. map_of (ts_devices st) r = Some oid \<and>
         oid < length (ts_objects st) \<and> built tf df devices n (ts_objects st ! oid))"
proof -
  from assms obtain physical where
    inv: "stand_inv tf df devices (sd_devices config) physical (ts_devices st) (ts_objects st)"
    by (rule stand_create_inv)
  note role = stand_inv_role [OF inv assms(2)]
  have same: "map_of (ts_devices st) r = map_of (ts_devices st) r' \<longleftrightarrow> n = n'"
    if "(r, n) \<in> set (sd_devices config)" and "(r', n') \<in> set (sd_devices config)" for r n r' n'
    using role [OF that(1)] role [OF that(2)] stand_inv_injective [OF inv] by fastforce
  from same role show ?thesis
    using stand_inv_keys [OF inv] stand_inv_count [OF inv] by (fastforce simp: split_beta)
qed

definition two_role_stand :: stand_config where
  "two_role_stand = \<lparr>sd_description = None, sd_capabilities = [],
     sd_devices = [(lit ''dut'', lit ''dut-01''), (lit ''console'', lit ''dut-01'')]\<rparr>"

theorem stand_create_identity_witness:
  "card (set (map snd (sd_devices two_role_stand))) = 1"
proof -
  have "stand_create (Inr :: pystr \<Rightarrow> exn + pystr) create_device
      [(lit ''dut-01'', \<lparr>dc_type = lit ''dut'', dc_model = [], dc_transport = lit ''t''\<rparr>)] two_role_stand
    = Inr \<lparr>ts_devices = [(lit ''dut'', 0), (lit ''console'', 0)],
        ts_objects = [\<lparr>dev_class = Dut, dev_transport = lit ''t'', dev_model = []\<rparr>]\<rparr>"
    by (simp add: stand_create_def two_role_stand_def create_device_def device_types_def Let_def)
  moreover have "dict_ok (sd_devices two_role_stand)"
    by (simp add: two_role_stand_def dict_ok_def)
  ultimately show ?thesis by (drule_tac stand_create_identity) simp_all
qed

text \<open>
  Composing a stand of a loaded inventory never meets a missing device: with the built-in
  factories \<^verbatim>\<open>create_stand\<close> on a stand found in a validated inventory fails only with the
  factories' own errors, a \<^verbatim>\<open>FactoryError\<close>, or the \<^verbatim>\<open>ValueError\<close> of a malformed agent command.
\<close>

lemma create_stand_errors:
  assumes "references_ok i" and "get_stand i name = Inr config"
    and "create_stand i config settings = Inl e"
  shows "exn_kind e = FactoryError \<or>
    exn_kind e = PyValueError \<and> has_control_char (serial_agent_command settings)"
proof -
  from assms(2) have "(name, config) \<in> set (inv_stands i)"
    by (auto simp: get_stand_def Let_def split: option.splits dest: map_of_SomeD)
  with assms(1) have known: "has_key (inv_devices i) n" if "(r, n) \<in> set (sd_devices config)" for r n
    using that by (auto simp: references_ok_def)
  have "exn_kind e \<in> (if has_control_char (serial_agent_command settings)
      then {FactoryError, PyValueError} else {FactoryError})"
    using assms(3) known unfolding create_stand_def by (rule builtin.create_error)
  then show ?thesis by (auto split: if_splits)
qed

definition robot_inventory :: "transport_config device_config inventory" where
  "robot_inventory = example_inventory\<lparr>inv_devices :=
     [(lit ''dut-01'', (build_device example_raw_device)\<lparr>dc_type := lit ''robot''\<rparr>)]\<rparr>"

lemma create_stand_errors_witness:
  "\<exists>e. create_stand robot_inventory example_stand default_settings = Inl e \<and>
     exn_kind e = FactoryError"
proof -
  have "references_ok robot_inventory"
    by (auto simp: references_ok_def robot_inventory_def example_inventory_def example_stand_def
        has_key_def)
  moreover have "get_stand robot_inventory (lit ''stand-01'') = Inr example_stand"
    by (simp add: get_stand_def robot_inventory_def example_inventory_def)
  moreover obtain e where "create_stand robot_inventory example_stand default_settings = Inl e"
    by (simp add: create_stand_def stand_create_def robot_inventory_def example_stand_def
        build_device_def example_raw_device_def build_console_def create_console_config_def
        resolve_console_credentials_def create_device_def device_types_def)
  moreover have "\<not> has_control_char (serial_agent_command default_settings)"
    by (simp add: default_settings_def has_control_char_def lit_Cons)
  ultimately show ?thesis using create_stand_errors by blast
qed

end
