(* ===== verification/Utf8.thy ===== *)
theory Utf8
  imports Exceptions
begin

text \<open>
  UTF-8 as \<^verbatim>\<open>str.encode()\<close> and \<^verbatim>\<open>bytes.decode()\<close> implement it. \<open>utf8_next\<close> reads one
  code point, or finds the longest piece that no code point starts with: the strict
  decoder raises there, the \<^verbatim>\<open>errors="replace"\<close> decoder puts U+FFFD in its place.
  Surrogates have no encoding.
\<close>

definition byte :: "nat \<Rightarrow> 8 word" where
  "byte n = of_nat n"

lemma blit_byte: "blit s = map byte (lit s)"
  by (simp add: blit_def lit_def byte_def of_nat_of_char)

lemma unat_byte: "n < 256 \<Longrightarrow> unat (byte n) = n"
  by (simp add: byte_def unat_of_nat)

lemma byte_unat [simp]: "byte (unat b) = b"
  by (simp add: byte_def)

lemma byte_eq_iff: "a < 256 \<Longrightarrow> b < 256 \<Longrightarrow> byte a = byte b \<longleftrightarrow> a = b"
  by (metis unat_byte)

definition scalar_value :: "nat \<Rightarrow> bool" where
  "scalar_value c \<longleftrightarrow> c < 1114112 \<and> \<not> (55296 \<le> c \<and> c < 57344)"

section \<open>Encoding\<close>

definition utf8_char :: "nat \<Rightarrow> bytes" where
  "utf8_char c =
     (if c < 128 then [byte c]
      else if c < 2048 then [byte (192 + c div 64), byte (128 + c mod 64)]
      else if c < 65536 then
        [byte (224 + c div 4096), byte (128 + c div 64 mod 64), byte (128 + c mod 64)]
      else [byte (240 + c div 262144), byte (128 + c div 4096 mod 64),
        byte (128 + c div 64 mod 64), byte (128 + c mod 64)])"

definition utf8_encode :: "pystr \<Rightarrow> exn + bytes" where
  "utf8_encode s =
     (if list_all scalar_value s then Inr (concat (map utf8_char s))
      else Inl (raise_txt UnicodeEncodeError ''surrogates not allowed''))"

section \<open>Decoding\<close>

definition is_cont :: "8 word \<Rightarrow> bool" where
  "is_cont b \<longleftrightarrow> 128 \<le> unat b \<and> unat b < 192"

definition second_ok :: "nat \<Rightarrow> nat \<Rightarrow> bool" where
  \<comment> \<open>the second bytes the first byte allows: no overlong forms, no surrogates, at most U+10FFFF\<close>
  "second_ok a b \<longleftrightarrow> (if a = 224 then 160 else if a = 240 then 144 else 128) \<le> b \<and>
     b < (if a = 237 then 160 else if a = 244 then 144 else 192)"

text \<open>The code point that starts the bytes, if there is one, and how many bytes to skip.\<close>

fun utf8_next :: "bytes \<Rightarrow> nat option \<times> nat" where
  "utf8_next [] = (None, 1)"
| "utf8_next (b # bs) = (let a = unat b in
     if a < 128 then (Some a, 1)
     else if 194 \<le> a \<and> a < 224 then
       (case bs of
          c # _ \<Rightarrow> if is_cont c then (Some ((a - 192) * 64 + (unat c - 128)), 2) else (None, 1)
        | [] \<Rightarrow> (None, 1))
     else if 224 \<le> a \<and> a < 240 then
       (case bs of
          c # cs \<Rightarrow>
            if second_ok a (unat c) then
              (case cs of
                 d # _ \<Rightarrow> if is_cont d
                   then (Some ((a - 224) * 4096 + (unat c - 128) * 64 + (unat d - 128)), 3)
                   else (None, 2)
               | [] \<Rightarrow> (None, 2))
            else (None, 1)
        | [] \<Rightarrow> (None, 1))
     else if 240 \<le> a \<and> a < 245 then
       (case bs of
          c # cs \<Rightarrow>
            if second_ok a (unat c) then
              (case cs of
                 d # ds \<Rightarrow> if is_cont d
                   then (case ds of
                       e # _ \<Rightarrow> if is_cont e
                         then (Some ((a - 240) * 262144 + (unat c - 128) * 4096
                                + (unat d - 128) * 64 + (unat e - 128)), 4)
                         else (None, 3)
                     | [] \<Rightarrow> (None, 3))
                   else (None, 2)
               | [] \<Rightarrow> (None, 2))
            else (None, 1)
        | [] \<Rightarrow> (None, 1))
     else (None, 1))"

lemma utf8_next_pos: "0 < snd (utf8_next bs)"
  by (cases bs) (auto simp: Let_def split: list.splits)

function utf8_decode_replace :: "bytes \<Rightarrow> pystr" where
  "utf8_decode_replace bs =
     (if bs = [] then []
      else case utf8_next bs of (c, n) \<Rightarrow>
        (case c of None \<Rightarrow> 65533 | Some x \<Rightarrow> x) # utf8_decode_replace (drop n bs))"
  by pat_completeness auto
termination
  by (relation "measure length") (auto, metis diff_less length_greater_0_conv snd_conv utf8_next_pos)

function utf8_decode :: "bytes \<Rightarrow> exn + pystr" where
  "utf8_decode bs =
     (if bs = [] then Inr []
      else case utf8_next bs of (c, n) \<Rightarrow>
        (case c of
           None \<Rightarrow> Inl (raise_txt UnicodeDecodeError ''invalid utf-8 data'')
         | Some x \<Rightarrow> try_bind (utf8_decode (drop n bs)) (\<lambda>s. Inr (x # s))))"
  by pat_completeness auto
termination
  by (relation "measure length") (auto, metis diff_less length_greater_0_conv snd_conv utf8_next_pos)

declare utf8_decode_replace.simps [simp del] utf8_decode.simps [simp del] utf8_next.simps [simp del]

section \<open>Facts\<close>

lemma utf8_char_not_Nil [simp]: "utf8_char c \<noteq> []"
  by (simp add: utf8_char_def)

lemma base64_digits:
  fixes c :: nat
  shows "c = c div 64 * 64 + c mod 64" "c div 64 = c div 4096 * 64 + c div 64 mod 64"
    "c div 4096 = c div 262144 * 64 + c div 4096 mod 64"
proof -
  have "c div 64 div 64 = c div 4096" "c div 4096 div 64 = c div 262144"
    by (simp_all flip: div_mult2_eq)
  then show "c div 64 = c div 4096 * 64 + c div 64 mod 64"
    "c div 4096 = c div 262144 * 64 + c div 4096 mod 64"
    by (metis div_mult_mod_eq)+
  show "c = c div 64 * 64 + c mod 64" by simp
qed

lemma second_ok_cont: "224 \<le> unat b \<Longrightarrow> second_ok (unat b) x \<Longrightarrow> 128 \<le> x \<and> x < 192"
  by (auto simp: second_ok_def split: if_splits)

text \<open>The encodings by length, with the code point their bytes carry.\<close>

lemma utf8_char_shape:
  assumes "scalar_value c"
  obtains (one) b where "utf8_char c = [b]" "unat b < 128" "unat b = c"
    | (two) b d where "utf8_char c = [b, d]" "194 \<le> unat b" "unat b < 224" "is_cont d"
        "(unat b - 192) * 64 + (unat d - 128) = c"
    | (three) b d e where "utf8_char c = [b, d, e]" "224 \<le> unat b" "unat b < 240"
        "second_ok (unat b) (unat d)" "is_cont e"
        "(unat b - 224) * 4096 + (unat d - 128) * 64 + (unat e - 128) = c"
    | (four) b d e f where "utf8_char c = [b, d, e, f]" "240 \<le> unat b" "unat b < 245"
        "second_ok (unat b) (unat d)" "is_cont e" "is_cont f"
        "(unat b - 240) * 262144 + (unat d - 128) * 4096 + (unat e - 128) * 64 + (unat f - 128) = c"
proof -
  have c: "c < 1114112" and s: "c < 55296 \<or> 57344 \<le> c"
    using assms by (auto simp: scalar_value_def)
  have m: "c mod 64 < 64" "c div 64 mod 64 < 64" "c div 4096 mod 64 < 64" by simp_all
  consider "c < 128" | "128 \<le> c" "c < 2048" | "2048 \<le> c" "c < 65536" | "65536 \<le> c" by linarith
  then show thesis
  proof cases
    case 1
    then show thesis by (intro one [of "byte c"]) (simp_all add: utf8_char_def unat_byte)
  next
    case 2
    then have "2 \<le> c div 64" "c div 64 < 32" by auto
    with 2 m show thesis
      by (intro two [of "byte (192 + c div 64)" "byte (128 + c mod 64)"])
        (simp_all add: utf8_char_def unat_byte is_cont_def)
  next
    case 3
    have lead: "c div 4096 < 16" using 3 by auto
    have "second_ok (224 + c div 4096) (128 + c div 64 mod 64)"
    proof -
      have "c div 64 mod 64 = c div 64 - 64 * (c div 4096)"
        by (simp add: modulo_nat_def div_mult2_eq [symmetric])
      then show ?thesis using 3 s m(2) by (auto simp: second_ok_def)
    qed
    moreover have "c div 4096 * 4096 + c div 64 mod 64 * 64 + c mod 64 = c"
      using base64_digits(1,2) [of c] by linarith
    moreover have b: "unat (byte (224 + c div 4096)) = 224 + c div 4096"
      "unat (byte (128 + c div 64 mod 64)) = 128 + c div 64 mod 64"
      "unat (byte (128 + c mod 64)) = 128 + c mod 64"
      using lead m by (simp_all add: unat_byte)
    moreover have "utf8_char c = [byte (224 + c div 4096), byte (128 + c div 64 mod 64),
        byte (128 + c mod 64)]"
      using 3 by (simp add: utf8_char_def)
    ultimately show thesis
      using three [of "byte (224 + c div 4096)" "byte (128 + c div 64 mod 64)" "byte (128 + c mod 64)"]
        m(1) lead
      by (simp only: b is_cont_def) simp
  next
    case 4
    have lead: "c div 262144 < 5" using c by auto
    have "second_ok (240 + c div 262144) (128 + c div 4096 mod 64)"
    proof -
      have "c div 4096 mod 64 = c div 4096 - 64 * (c div 262144)"
        by (simp add: modulo_nat_def div_mult2_eq [symmetric])
      then show ?thesis using 4 c m(3) by (auto simp: second_ok_def)
    qed
    moreover have "c div 262144 * 262144 + c div 4096 mod 64 * 4096 + c div 64 mod 64 * 64 + c mod 64 = c"
      using base64_digits [of c] by linarith
    moreover have b: "unat (byte (240 + c div 262144)) = 240 + c div 262144"
      "unat (byte (128 + c div 4096 mod 64)) = 128 + c div 4096 mod 64"
      "unat (byte (128 + c div 64 mod 64)) = 128 + c div 64 mod 64"
      "unat (byte (128 + c mod 64)) = 128 + c mod 64"
      using lead m by (simp_all add: unat_byte)
    moreover have "utf8_char c = [byte (240 + c div 262144), byte (128 + c div 4096 mod 64),
        byte (128 + c div 64 mod 64), byte (128 + c mod 64)]"
      using 4 by (simp add: utf8_char_def)
    ultimately show thesis
      using four [of "byte (240 + c div 262144)" "byte (128 + c div 4096 mod 64)"
            "byte (128 + c div 64 mod 64)" "byte (128 + c mod 64)"] m(1,2) lead
      by (simp only: b is_cont_def) simp
  qed
qed

lemma utf8_next_char:
  assumes "scalar_value c"
  shows "utf8_next (utf8_char c @ rest) = (Some c, length (utf8_char c))"
  using assms by (cases rule: utf8_char_shape) (simp_all add: utf8_next.simps Let_def)

text \<open>A code point cut short is one invalid piece.\<close>

lemma utf8_next_truncated:
  assumes "scalar_value c" and "prefix p (utf8_char c)" and "p \<noteq> []" and "p \<noteq> utf8_char c"
  shows "utf8_next p = (None, length p)"
  using assms(1)
proof (cases rule: utf8_char_shape)
  case (one b)
  with assms show ?thesis by (auto simp: prefix_Cons)
next
  case (two b d)
  with assms have "p = [b]" by (auto simp: prefix_Cons)
  with two show ?thesis by (simp add: utf8_next.simps)
next
  case (three b d e)
  with assms have "p = [b] \<or> p = [b, d]" by (auto simp: prefix_Cons)
  with three show ?thesis by (auto simp: utf8_next.simps)
next
  case (four b d e f)
  with assms have "p = [b] \<or> p = [b, d] \<or> p = [b, d, e]" by (auto simp: prefix_Cons)
  with four show ?thesis by (auto simp: utf8_next.simps)
qed

lemma decode_replace_chars:
  "list_all scalar_value s \<Longrightarrow>
     utf8_decode_replace (concat (map utf8_char s) @ rest) = s @ utf8_decode_replace rest"
proof (induction s)
  case (Cons c s)
  then show ?case
    by (subst utf8_decode_replace.simps) (simp add: utf8_next_char)
qed simp

lemma decode_replace_Nil [simp]: "utf8_decode_replace [] = []"
  by (simp add: utf8_decode_replace.simps)

lemma decode_Nil [simp]: "utf8_decode [] = Inr []"
  by (simp add: utf8_decode.simps)

lemma decode_replace_encode: "utf8_encode s = Inr bs \<Longrightarrow> utf8_decode_replace bs = s"
  using decode_replace_chars [of s "[]"] by (auto simp: utf8_encode_def split: if_splits)

lemma decode_chars:
  "list_all scalar_value s \<Longrightarrow> utf8_decode (concat (map utf8_char s)) = Inr s"
proof (induction s)
  case (Cons c s)
  then show ?case
    by (subst utf8_decode.simps) (simp add: utf8_next_char)
qed simp

lemma decode_encode: "utf8_encode s = Inr bs \<Longrightarrow> utf8_decode bs = Inr s"
  by (auto simp: utf8_encode_def decode_chars split: if_splits)

text \<open>On the bytes the strict decoder accepts, the two decoders agree.\<close>

lemma utf8_encode_inj: "utf8_encode s = Inr b \<Longrightarrow> utf8_encode t = Inr b \<Longrightarrow> s = t"
  using decode_encode [of s b] decode_encode [of t b] by simp

lemma decode_replace_of_decode: "utf8_decode bs = Inr s \<Longrightarrow> utf8_decode_replace bs = s"
proof (induction bs arbitrary: s rule: utf8_decode.induct)
  case (1 bs)
  show ?case
  proof (cases "bs = []")
    case False
    obtain c n where n: "utf8_next bs = (c, n)" by fastforce
    with "1.prems" False obtain x t where "c = Some x" "utf8_decode (drop n bs) = Inr t" "s = x # t"
      by (subst (asm) utf8_decode.simps) (auto simp: result_simps split: option.splits)
    with "1.IH" [OF False n [symmetric]] False n show ?thesis
      by (subst utf8_decode_replace.simps) simp
  qed (use "1.prems" in simp)
qed

text \<open>ASCII text is its own encoding.\<close>

definition ascii :: "pystr \<Rightarrow> bool" where
  "ascii s \<longleftrightarrow> (\<forall>c \<in> set s. c < 128)"

lemma concat_ascii: "ascii s \<Longrightarrow> concat (map utf8_char s) = map byte s"
  by (induction s) (auto simp: ascii_def utf8_char_def)

lemma encode_ascii: "ascii s \<Longrightarrow> utf8_encode s = Inr (map byte s)"
  by (auto simp: utf8_encode_def concat_ascii list_all_iff ascii_def scalar_value_def)

lemma encode_append:
  "utf8_encode (s @ t) = try_bind (utf8_encode s) (\<lambda>a. try_bind (utf8_encode t) (\<lambda>b. Inr (a @ b)))"
  by (auto simp: utf8_encode_def)

end
