(* ===== verification/Console.thy ===== *)
theory Console
  imports Transport_Config Effects Utf8
begin

text \<open>
  The Linux shell session over a byte channel, \<^verbatim>\<open>src/hardware_test/transport/console.py\<close>:
  login, prompt set-up, and commands whose output and exit code are framed by a fresh token.
  The channel is the \<^verbatim>\<open>ConsoleChannel\<close> protocol, the runtime is \<^verbatim>\<open>time\<close> and \<^verbatim>\<open>uuid4\<close>; both
  are records of effectful operations over a world the session does not see into.
\<close>

section \<open>The channel and the runtime\<close>

record 'w console_channel =
  ch_closed :: "('w, bool) io"
  ch_sendall :: "bytes \<Rightarrow> ('w, unit) io"
  ch_recv_ready :: "('w, bool) io"
  ch_recv :: "nat \<Rightarrow> ('w, bytes) io"
  ch_exit_status_ready :: "('w, bool) io"

record 'w runtime =
  rt_monotonic :: "('w, rat) io"
  rt_sleep :: "rat \<Rightarrow> ('w, unit) io"
  rt_uuid4_hex :: "('w, pystr) io"

section \<open>Text of a response\<close>

definition normalize_bytes :: "bytes \<Rightarrow> bytes" where
  "normalize_bytes value = replace [13] [10] (replace [13, 10] [10] value)"

definition decode_normalized :: "bytes \<Rightarrow> pystr" where
  "decode_normalized buffer = utf8_decode_replace (normalize_bytes buffer)"

definition remove_echo :: "pystr \<Rightarrow> pystr \<Rightarrow> pystr" where
  "remove_echo response submitted =
     (let normalized = lstrip_by (\<lambda>c. c = 10) response
      in if prefix submitted normalized
         then lstrip_by (\<lambda>c. c = 10) (drop (length submitted) normalized)
         else normalized)"

definition stars :: pystr where
  "stars = replicate 10 42"

definition redact_console_password :: "console_session_config \<Rightarrow> pystr \<Rightarrow> pystr" where
  "redact_console_password cfg value =
     (case cc_password cfg of None \<Rightarrow> value | Some p \<Rightarrow> replace p stars value)"

text \<open>
  \<^verbatim>\<open>\d\<close> and \<^verbatim>\<open>int\<close> accept every decimal digit of Unicode; the digits of one script are ten
  consecutive code points from its zero (Unicode 16). \<^verbatim>\<open>int\<close> refuses more than 4300 digits.
\<close>

definition decimal_zeros :: "nat list" where
  "decimal_zeros = [48, 1632, 1776, 1984, 2406, 2534, 2662, 2790, 2918, 3046, 3174, 3302, 3430,
     3558, 3664, 3792, 3872, 4160, 4240, 6112, 6160, 6470, 6608, 6784, 6800, 6992, 7088, 7232,
     7248, 42528, 43216, 43264, 43472, 43504, 43600, 44016, 65296, 66720, 68912, 68928, 69734,
     69872, 69942, 70096, 70384, 70736, 70864, 71248, 71360, 71376, 71386, 71472, 71904, 72016,
     72688, 72784, 73040, 73120, 73552, 90416, 92768, 92864, 93008, 93552, 118000, 120782, 120792,
     120802, 120812, 120822, 123200, 123632, 124144, 124401, 125264, 130032]"

definition digit_value :: "nat \<Rightarrow> nat option" where
  "digit_value c = map_option (\<lambda>z. c - z) (find (\<lambda>z. z \<le> c \<and> c < z + 10) decimal_zeros)"

definition is_decimal :: "nat \<Rightarrow> bool" where
  "is_decimal c = (digit_value c \<noteq> None)"

fun digits_value :: "nat \<Rightarrow> pystr \<Rightarrow> nat" where
  "digits_value acc [] = acc"
| "digits_value acc (c # cs) = digits_value (acc * 10 + the (digit_value c)) cs"

definition py_int :: "bool \<Rightarrow> pystr \<Rightarrow> exn + int" where
  \<comment> \<open>\<^verbatim>\<open>int\<close> of an optional minus sign and decimal digits\<close>
  "py_int negative digits =
     (if 4300 < length digits
      then Inl (raise_txt PyValueError ''Exceeds the limit (4300 digits) for integer string conversion'')
      else Inr (if negative then - int (digits_value 0 digits) else int (digits_value 0 digits)))"

text \<open>The regular expression \<^verbatim>\<open>\n<token>(-?\d+)\n\<close>: a match at the start of the text gives sign,
  digits and what follows the match; \<open>search_marker\<close> is the leftmost match.\<close>

definition match_marker :: "pystr \<Rightarrow> pystr \<Rightarrow> (bool \<times> pystr \<times> pystr) option" where
  "match_marker token s =
     (if prefix (10 # token) s then
        (let r = drop (Suc (length token)) s;
             negative = (prefix [45] r);
             d = (if negative then tl r else r);
             digits = takeWhile is_decimal d;
             rest = dropWhile is_decimal d
         in if digits \<noteq> [] \<and> prefix [10] rest then Some (negative, digits, tl rest) else None)
      else None)"

fun search_marker :: "pystr \<Rightarrow> pystr \<Rightarrow> (pystr \<times> bool \<times> pystr \<times> pystr) option" where
  "search_marker token s =
     (case match_marker token s of
        Some m \<Rightarrow> Some ([], m)
      | None \<Rightarrow>
          (case s of
             [] \<Rightarrow> None
           | c # cs \<Rightarrow> map_option (\<lambda>(before, m). (c # before, m)) (search_marker token cs)))"

declare search_marker.simps [simp del]

definition command_found :: "pystr \<Rightarrow> pystr \<Rightarrow> bytes \<Rightarrow> (exn + pystr \<times> int) option" where
  "command_found token prompt buffer =
     (case search_marker token (decode_normalized buffer) of
        None \<Rightarrow> None
      | Some (before, negative, digits, rest) \<Rightarrow>
          if suffix prompt rest
          then Some (try_bind (py_int negative digits) (\<lambda>n. Inr (before, n)))
          else None)"

definition marker_found :: "pystr list \<Rightarrow> bytes \<Rightarrow> (exn + pystr) option" where
  "marker_found markers buffer =
     map_option Inr (find (\<lambda>m. suffix m (decode_normalized buffer)) markers)"

section \<open>Reading\<close>

text \<open>
  The polling loop of \<^verbatim>\<open>_read_until_any\<close> and \<^verbatim>\<open>_read_command_response\<close>, which differ in the
  test of the received bytes (\<open>found\<close>) and in the errors for a closed channel and for an
  expired deadline.
\<close>

definition poll_interval :: rat where
  "poll_interval = 1 / 100"

definition poll_step ::
  "'w console_channel \<Rightarrow> 'w runtime \<Rightarrow> (bytes \<Rightarrow> (exn + 'r) option) \<Rightarrow> exn \<Rightarrow> (bytes \<Rightarrow> exn)
     \<Rightarrow> rat \<Rightarrow> bytes \<Rightarrow> ('w, bytes + 'r) io" where
  "poll_step ch rt found ended expired deadline buffer =
     io_bind (rt_monotonic rt) (\<lambda>now.
       if now < deadline then
         io_bind (ch_recv_ready ch) (\<lambda>ready.
           if ready then
             io_bind (ch_recv ch 65535) (\<lambda>received.
               case found (buffer @ received) of
                 Some r \<Rightarrow> io_bind (lifting r) (\<lambda>x. returning (Inr x))
               | None \<Rightarrow> returning (Inl (buffer @ received)))
           else
             io_bind (ch_exit_status_ready ch) (\<lambda>exited.
               if exited then raising ended
               else io_then (rt_sleep rt poll_interval) (returning (Inl buffer))))
       else raising (expired buffer))"

definition poll_loop ::
  "'w console_channel \<Rightarrow> 'w runtime \<Rightarrow> (bytes \<Rightarrow> (exn + 'r) option) \<Rightarrow> exn \<Rightarrow> (bytes \<Rightarrow> exn)
     \<Rightarrow> rat \<Rightarrow> ('w, 'r) io" where
  "poll_loop ch rt found ended expired deadline =
     io_loop (poll_step ch rt found ended expired deadline) []"

definition read_until_any ::
  "'w console_channel \<Rightarrow> 'w runtime \<Rightarrow> console_session_config \<Rightarrow> pystr list \<Rightarrow> rat \<Rightarrow> pystr \<Rightarrow> bool
     \<Rightarrow> ('w, pystr) io" where
  "read_until_any ch rt cfg markers timeout ctxt redact_password =
     io_bind (rt_monotonic rt) (\<lambda>now.
       poll_loop ch rt (marker_found markers)
         (Exn TransportError [Txt (lit ''Console channel closed while waiting for ''), Txt ctxt])
         (\<lambda>buffer.
            let partial = decode_normalized buffer;
                partial' = (if redact_password then redact_console_password cfg partial else partial)
            in Exn TransportTimeoutError [Txt (lit ''Timed out waiting for ''), Txt ctxt,
                 Txt (lit ''; received: ''), Repr partial'])
         (now + timeout))"

definition read_command_response ::
  "'w console_channel \<Rightarrow> 'w runtime \<Rightarrow> console_session_config \<Rightarrow> pystr \<Rightarrow> rat
     \<Rightarrow> ('w, pystr \<times> int) io" where
  "read_command_response ch rt cfg token timeout =
     io_bind (rt_monotonic rt) (\<lambda>now.
       poll_loop ch rt (command_found token (cc_prompt cfg))
         (raise_txt TransportError ''Console channel closed while a command was running'')
         (\<lambda>buffer. Exn TransportTimeoutError [Txt (lit ''Console command timed out; received: ''),
            Repr (decode_normalized buffer)])
         (now + timeout))"

definition send_text :: "'w console_channel \<Rightarrow> pystr \<Rightarrow> ('w, unit) io" where
  \<comment> \<open>\<^verbatim>\<open>self._channel.sendall(f"...".encode())\<close>\<close>
  "send_text ch s = io_bind (lifting (utf8_encode s)) (ch_sendall ch)"

section \<open>Login\<close>

definition console_markers :: "console_session_config \<Rightarrow> pystr list" where
  "console_markers cfg = [cc_prompt cfg, cc_login_prompt cfg, cc_password_prompt cfg,
     cc_initial_prompt_suffix cfg]"

definition read_console_state ::
  "'w console_channel \<Rightarrow> 'w runtime \<Rightarrow> console_session_config \<Rightarrow> rat \<Rightarrow> bool \<Rightarrow> ('w, pystr) io" where
  "read_console_state ch rt cfg connect_timeout redact_password =
     read_until_any ch rt cfg (console_markers cfg) connect_timeout
       (lit ''device console state'') redact_password"

definition send_console_username ::
  "'w console_channel \<Rightarrow> console_session_config \<Rightarrow> ('w, unit) io" where
  "send_console_username ch cfg =
     (case (cc_username cfg, cc_password cfg) of
        (Some u, Some p) \<Rightarrow> send_text ch (u @ [13])
      | _ \<Rightarrow> raising (raise_txt TransportError
          ''Device console requires login, but console credentials are not configured''))"

definition send_console_password ::
  "'w console_channel \<Rightarrow> console_session_config \<Rightarrow> ('w, unit) io" where
  "send_console_password ch cfg =
     (case cc_password cfg of
        Some p \<Rightarrow> send_text ch (p @ [13])
      | None \<Rightarrow> raising (raise_txt TransportError
          ''Device console requires a password, but console credentials are not configured''))"

text \<open>The three \<^verbatim>\<open>if\<close>s of \<^verbatim>\<open>prepare\<close> that follow its first look at the console.\<close>

definition username_stage ::
  "'w console_channel \<Rightarrow> 'w runtime \<Rightarrow> console_session_config \<Rightarrow> rat \<Rightarrow> pystr \<Rightarrow> ('w, pystr) io" where
  "username_stage ch rt cfg connect_timeout state =
     (if state = cc_login_prompt cfg
      then io_then (send_console_username ch cfg)
        (read_console_state ch rt cfg connect_timeout False)
      else returning state)"

definition password_stage ::
  "'w console_channel \<Rightarrow> 'w runtime \<Rightarrow> console_session_config \<Rightarrow> rat \<Rightarrow> pystr \<Rightarrow> ('w, pystr) io" where
  "password_stage ch rt cfg connect_timeout state =
     (if state = cc_password_prompt cfg
      then io_then (send_console_password ch cfg)
        (read_console_state ch rt cfg connect_timeout True)
      else returning state)"

definition prompt_stage ::
  "'w console_channel \<Rightarrow> 'w runtime \<Rightarrow> console_session_config \<Rightarrow> rat \<Rightarrow> pystr \<Rightarrow> ('w, unit) io" where
  "prompt_stage ch rt cfg connect_timeout state =
     (if state = cc_login_prompt cfg \<or> state = cc_password_prompt cfg
      then raising (raise_txt TransportError ''Device console authentication failed'')
      else if state \<noteq> cc_initial_prompt_suffix cfg \<and> state \<noteq> cc_prompt cfg
      then raising (raise_txt TransportError
        ''Device console did not reach a recognized shell prompt'')
      else if state \<noteq> cc_prompt cfg
      then io_then (send_text ch (lit ''export PS1='' @ shlex_quote (cc_prompt cfg) @ [13]))
        (io_then (read_until_any ch rt cfg [cc_prompt cfg] connect_timeout (lit ''shell prompt'')
           False)
          (returning ()))
      else returning ())"

definition prepare_console ::
  "'w console_channel \<Rightarrow> 'w runtime \<Rightarrow> console_session_config \<Rightarrow> rat \<Rightarrow> ('w, unit) io" where
  "prepare_console ch rt cfg connect_timeout =
     io_then (ch_sendall ch [13])
     (io_bind (read_console_state ch rt cfg connect_timeout False) (\<lambda>state.
      if state = cc_prompt cfg then returning ()
      else
        io_bind (username_stage ch rt cfg connect_timeout state) (\<lambda>state.
        io_bind (password_stage ch rt cfg connect_timeout state) (\<lambda>state.
        prompt_stage ch rt cfg connect_timeout state))))"

section \<open>Commands\<close>

definition submitted_command :: "pystr \<Rightarrow> pystr \<Rightarrow> pystr \<Rightarrow> pystr \<Rightarrow> pystr" where
  "submitted_command text' prompt token status_name =
     lit ''eval '' @ shlex_quote text' @ lit ''; '' @ status_name @ lit ''=$?; '' @
     lit ''PS1='' @ shlex_quote prompt @ lit ''; '' @
     lit ''printf '' @ [39, 92] @ lit ''n'' @ token @ lit ''%s'' @ [92] @ lit ''n'' @ [39] @
     [32, 34] @ lit ''$'' @ status_name @ [34]"

definition execute_console ::
  "'w console_channel \<Rightarrow> 'w runtime \<Rightarrow> console_session_config \<Rightarrow> rat \<Rightarrow> pystr \<Rightarrow> rat option
     \<Rightarrow> ('w, command_result) io" where
  \<comment> \<open>of the command, its text and its timeout\<close>
  "execute_console ch rt cfg command_timeout text' timeout =
     io_bind (ch_closed ch) (\<lambda>closed.
     if closed then raising (raise_txt PyRuntimeError ''Console channel is closed'')
     else
       io_bind (rt_uuid4_hex rt) (\<lambda>u.
       io_bind (rt_uuid4_hex rt) (\<lambda>v.
       let token = lit ''__HARDWARE_TEST_EXIT_'' @ u @ lit ''__'';
           status_name = lit ''__hardware_test_status_'' @ v;
           submitted = submitted_command text' (cc_prompt cfg) token status_name
       in
         io_then (send_text ch (submitted @ [13]))
         (io_bind
           (read_command_response ch rt cfg token
             (case timeout of Some t \<Rightarrow> t | None \<Rightarrow> command_timeout)) (\<lambda>(response, code).
          returning \<lparr>stdout = remove_echo response submitted, stderr = [], exit_code = code\<rparr>)))))"

section \<open>What the polling loop returns\<close>

text \<open>
  \<open>delivers w cs w'\<close>: polled before the deadline, the channel hands out the chunks \<open>cs\<close>, with
  any number of idle polls before each, and is in \<open>w'\<close> after the last.
\<close>

inductive delivers :: "'w console_channel \<Rightarrow> 'w runtime \<Rightarrow> rat \<Rightarrow> 'w \<Rightarrow> bytes list \<Rightarrow> 'w \<Rightarrow> bool"
  for ch rt deadline where
  wait: "rt_monotonic rt w = Some (Inr now, w1) \<Longrightarrow> now < deadline
    \<Longrightarrow> ch_recv_ready ch w1 = Some (Inr False, w2)
    \<Longrightarrow> ch_exit_status_ready ch w2 = Some (Inr False, w3)
    \<Longrightarrow> rt_sleep rt poll_interval w3 = Some (Inr u, w4)
    \<Longrightarrow> delivers ch rt deadline w4 cs w' \<Longrightarrow> delivers ch rt deadline w cs w'"
| chunk: "rt_monotonic rt w = Some (Inr now, w1) \<Longrightarrow> now < deadline
    \<Longrightarrow> ch_recv_ready ch w1 = Some (Inr True, w2) \<Longrightarrow> ch_recv ch 65535 w2 = Some (Inr c, w3)
    \<Longrightarrow> delivers ch rt deadline w3 cs w' \<Longrightarrow> delivers ch rt deadline w (c # cs) w'"
| last: "rt_monotonic rt w = Some (Inr now, w1) \<Longrightarrow> now < deadline
    \<Longrightarrow> ch_recv_ready ch w1 = Some (Inr True, w2) \<Longrightarrow> ch_recv ch 65535 w2 = Some (Inr c, w3)
    \<Longrightarrow> delivers ch rt deadline w [c] w3"

lemma delivers_not_Nil: "delivers ch rt deadline w cs w' \<Longrightarrow> cs \<noteq> []"
  by (induction rule: delivers.induct) auto

text \<open>No chunk but the last completes what the loop looks for.\<close>

definition first_at_end :: "(bytes \<Rightarrow> 'r option) \<Rightarrow> bytes \<Rightarrow> bytes list \<Rightarrow> bool" where
  "first_at_end found buffer cs \<longleftrightarrow>
     (\<forall>k. 0 < k \<and> k < length cs \<longrightarrow> found (buffer @ concat (take k cs)) = None)"

lemma first_at_end_Cons:
  assumes "cs \<noteq> []"
  shows "first_at_end found buffer (c # cs) \<longleftrightarrow>
     found (buffer @ c) = None \<and> first_at_end found (buffer @ c) cs" (is "?l \<longleftrightarrow> ?n \<and> ?r")
proof -
  have "?l \<longleftrightarrow> (\<forall>k < length cs. found (buffer @ concat (take (Suc k) (c # cs))) = None)"
    unfolding first_at_end_def by (metis Suc_less_eq gr0_implies_Suc length_Cons zero_less_Suc)
  also have "\<dots> \<longleftrightarrow> (\<forall>k < length cs. found ((buffer @ c) @ concat (take k cs)) = None)"
    by simp
  also have "\<dots> \<longleftrightarrow> ?n \<and> ?r"
  proof -
    have "found ((buffer @ c) @ concat (take 0 cs)) = found (buffer @ c)" by simp
    then show ?thesis
      unfolding first_at_end_def using assms by (metis length_greater_0_conv neq0_conv)
  qed
  finally show ?thesis .
qed

lemma first_at_end_single [simp]: "first_at_end found buffer [c]"
  by (simp add: first_at_end_def)

text \<open>One iteration, by how the loop goes on.\<close>

lemma poll_step_wait:
  assumes "rt_monotonic rt w = Some (Inr now, w1)" and "now < deadline"
    and "ch_recv_ready ch w1 = Some (Inr False, w2)"
    and "ch_exit_status_ready ch w2 = Some (Inr False, w3)"
    and "rt_sleep rt poll_interval w3 = Some (Inr u, w4)"
  shows "poll_step ch rt found ended expired deadline buffer w = Some (Inr (Inl buffer), w4)"
  by (simp add: assms poll_step_def io_bind_def returning_def)

lemma poll_step_chunk:
  assumes "rt_monotonic rt w = Some (Inr now, w1)" and "now < deadline"
    and "ch_recv_ready ch w1 = Some (Inr True, w2)" and "ch_recv ch 65535 w2 = Some (Inr c, w3)"
  shows "poll_step ch rt found ended expired deadline buffer w =
    (case found (buffer @ c) of
       None \<Rightarrow> Some (Inr (Inl (buffer @ c)), w3)
     | Some (Inl e) \<Rightarrow> Some (Inl e, w3)
     | Some (Inr x) \<Rightarrow> Some (Inr (Inr x), w3))"
  by (simp add: assms poll_step_def io_bind_def returning_def lifting_def
      split: option.split sum.split)

lemma poll_step_cases:
  assumes "poll_step ch rt found ended expired deadline buffer w = Some (Inr y, w')"
  obtains (wait) now w1 w2 w3 u where "rt_monotonic rt w = Some (Inr now, w1)" "now < deadline"
      "ch_recv_ready ch w1 = Some (Inr False, w2)" "ch_exit_status_ready ch w2 = Some (Inr False, w3)"
      "rt_sleep rt poll_interval w3 = Some (Inr u, w')" "y = Inl buffer"
    | (chunk) now w1 w2 c where "rt_monotonic rt w = Some (Inr now, w1)" "now < deadline"
      "ch_recv_ready ch w1 = Some (Inr True, w2)" "ch_recv ch 65535 w2 = Some (Inr c, w')"
      "found (buffer @ c) = None" "y = Inl (buffer @ c)"
    | (found) now w1 w2 c x where "rt_monotonic rt w = Some (Inr now, w1)" "now < deadline"
      "ch_recv_ready ch w1 = Some (Inr True, w2)" "ch_recv ch 65535 w2 = Some (Inr c, w')"
      "found (buffer @ c) = Some (Inr x)" "y = Inr x"
proof -
  from assms obtain now w1 ready w2 where a: "rt_monotonic rt w = Some (Inr now, w1)" "now < deadline"
    "ch_recv_ready ch w1 = Some (Inr ready, w2)"
    by (auto simp: poll_step_def io_bind_Inr run_simps split: if_splits)
  show thesis
  proof (cases ready)
    case True
    with assms a obtain c where c: "ch_recv ch 65535 w2 = Some (Inr c, w')"
      by (auto simp: poll_step_def io_bind_Inr run_simps split: option.splits)
    with assms a True show thesis
      by (auto simp: poll_step_chunk [OF a(1,2) _ c] split: option.splits sum.splits
          intro: chunk found)
  next
    case False
    with assms a show thesis
      by (auto simp: poll_step_def io_bind_Inr run_simps split: if_splits intro: wait)
  qed
qed

lemma loop_run_delivers:
  assumes "delivers ch rt deadline w cs w'"
    and "first_at_end found buffer cs" and "found (buffer @ concat cs) = Some r"
  shows "loop_run (poll_step ch rt found ended expired deadline) buffer w r w'"
  using assms
proof (induction arbitrary: buffer rule: delivers.induct)
  case (wait w now w1 w2 w3 u w4 cs w')
  from loop_run.again [OF poll_step_wait [OF wait.hyps(1-5)] wait.IH [OF wait.prems]] show ?case .
next
  case (chunk w now w1 w2 c w3 cs w')
  from chunk.hyps(5) have "cs \<noteq> []" by (rule delivers_not_Nil)
  with chunk.prems(1) have "found (buffer @ c) = None" "first_at_end found (buffer @ c) cs"
    by (auto simp: first_at_end_Cons)
  then have "poll_step ch rt found ended expired deadline buffer w = Some (Inr (Inl (buffer @ c)), w3)"
    by (simp add: poll_step_chunk [OF chunk.hyps(1-4)])
  note step = loop_run.again [of "poll_step ch rt found ended expired deadline", OF this]
  from step chunk.IH [of "buffer @ c"] chunk.prems
    \<open>first_at_end found (buffer @ c) cs\<close>
  show ?case by simp
next
  case (last w now w1 w2 c w3)
  then have "poll_step ch rt found ended expired deadline buffer w =
      (case r of Inl e \<Rightarrow> Some (Inl e, w3) | Inr x \<Rightarrow> Some (Inr (Inr x), w3))"
    by (simp add: poll_step_chunk [OF last.hyps])
  then show ?case
    by (cases r) (simp_all add: loop_run.left loop_run.raised)
qed

lemma delivers_loop_run:
  assumes "loop_run (poll_step ch rt found ended expired deadline) buffer w r w'" and "r = Inr x"
  shows "\<exists>cs. delivers ch rt deadline w cs w' \<and> first_at_end found buffer cs \<and>
    found (buffer @ concat cs) = Some (Inr x)"
  using assms
proof induction
  case (left buffer w y w')
  from left(1) show ?case
  proof (cases rule: poll_step_cases)
    case (found now w1 w2 c x')
    with left(2) show ?thesis by (intro exI [of _ "[c]"]) (auto intro: delivers.last)
  qed auto
next
  case (again buffer w buffer' w1 r w')
  then obtain cs where cs: "delivers ch rt deadline w1 cs w'" "first_at_end found buffer' cs"
    "found (buffer' @ concat cs) = Some (Inr x)" by auto
  from again(1) show ?case
  proof (cases rule: poll_step_cases)
    case (wait now v1 v2 v3 u)
    with cs show ?thesis by (auto intro: delivers.wait [OF wait(1-5)])
  next
    case (chunk now v1 v2 c)
    with cs show ?thesis
      by (intro exI [of _ "c # cs"])
        (auto simp: first_at_end_Cons [OF delivers_not_Nil [OF cs(1)]] intro: delivers.chunk [OF chunk(1-4)])
  qed auto
qed simp

lemma poll_loop_complete:
  "delivers ch rt deadline w cs w' \<Longrightarrow> first_at_end found [] cs \<Longrightarrow> found (concat cs) = Some r
     \<Longrightarrow> poll_loop ch rt found ended expired deadline w = Some (r, w')"
  by (simp add: poll_loop_def io_loop_iff loop_run_delivers)

lemma poll_loop_sound:
  "poll_loop ch rt found ended expired deadline w = Some (Inr x, w') \<Longrightarrow>
     \<exists>cs. delivers ch rt deadline w cs w' \<and> first_at_end found [] cs \<and> found (concat cs) = Some (Inr x)"
  using delivers_loop_run [of ch rt found ended expired deadline "[]" w "Inr x" w' x]
  by (simp add: poll_loop_def io_loop_iff)

lemma delivers_take:
  assumes "delivers ch rt deadline w cs w'" and "0 < k" and "k \<le> length cs"
  shows "\<exists>w''. delivers ch rt deadline w (take k cs) w''"
  using assms
proof (induction arbitrary: k rule: delivers.induct)
  case (wait w now w1 w2 w3 u w4 cs w')
  then show ?case by (blast intro: delivers.wait)
next
  case (chunk w now w1 w2 c w3 cs w')
  obtain j where j: "k = Suc j" using chunk.prems(1) by (cases k) auto
  show ?case
  proof (cases "j = 0")
    case True
    with j delivers.last [OF chunk.hyps(1-4)] show ?thesis by auto
  next
    case False
    with chunk.IH [of j] chunk.prems j show ?thesis
      by (auto intro: delivers.chunk [OF chunk.hyps(1-4)])
  qed
next
  case (last w now w1 w2 c w3)
  then show ?case by (cases k) (auto intro: delivers.last)
qed

text \<open>When the loop can stop early only with the same result, the chunks do not matter.\<close>

lemma poll_loop_any_chunks:
  assumes d: "delivers ch rt deadline w cs w'" and full: "found (concat cs) = Some r"
    and part: "\<And>p. prefix p (concat cs) \<Longrightarrow> found p \<in> {None, Some r}"
  shows "\<exists>w''. poll_loop ch rt found ended expired deadline w = Some (r, w'')"
proof -
  define P where "P k \<longleftrightarrow> 0 < k \<and> k \<le> length cs \<and> found (concat (take k cs)) \<noteq> None" for k
  have "P (length cs)" using full delivers_not_Nil [OF d] by (simp add: P_def)
  define k where "k = (LEAST k. P k)"
  have k: "P k" unfolding k_def by (rule LeastI) fact
  have least: "\<not> P j" if "j < k" for j using that unfolding k_def by (rule not_less_Least)
  have "concat cs = concat (take k cs) @ concat (drop k cs)" by (simp flip: concat_append)
  then have "found (concat (take k cs)) = Some r" using k part by (fastforce simp: P_def prefix_def)
  moreover have "first_at_end found [] (take k cs)"
    unfolding first_at_end_def
  proof (intro allI impI)
    fix j assume "0 < j \<and> j < length (take k cs)"
    then have "0 < j" "j < k" "j < length cs" by simp_all
    with least [of j] show "found ([] @ concat (take j (take k cs))) = None"
      by (simp add: P_def min_absorb1)
  qed
  moreover obtain w'' where "delivers ch rt deadline w (take k cs) w''"
    using delivers_take [OF d] k by (auto simp: P_def)
  ultimately show ?thesis by (intro exI [of _ w'']) (rule poll_loop_complete)
qed

text \<open>What every operation of the channel and the runtime preserves, the loop preserves.\<close>

definition channel_keeps :: "('w \<Rightarrow> bool) \<Rightarrow> 'w console_channel \<Rightarrow> 'w runtime \<Rightarrow> bool" where
  "channel_keeps I ch rt \<longleftrightarrow> io_keeps I (rt_monotonic rt) \<and> io_keeps I (ch_recv_ready ch) \<and>
     io_keeps I (ch_recv ch 65535) \<and> io_keeps I (ch_exit_status_ready ch) \<and>
     io_keeps I (rt_sleep rt poll_interval)"

lemma poll_loop_keeps:
  assumes "channel_keeps I ch rt"
  shows "io_keeps I (poll_loop ch rt found ended expired deadline)"
  using assms unfolding poll_loop_def poll_step_def channel_keeps_def
  by (intro io_keeps_loop) (auto intro!: io_keeps_bind io_keeps_intros split: option.split)

end
