(* ===== verification/Console_Frames.thy ===== *)
theory Console_Frames
  imports Console
begin

text \<open>
  How a command's output is framed (\<^verbatim>\<open>execute\<close>, \<^verbatim>\<open>_read_command_response\<close>, \<^verbatim>\<open>_remove_echo\<close>
  of \<^verbatim>\<open>src/hardware_test/transport/console.py\<close>): whatever the chunks in which the device's
  answer arrives, the session returns the output between the echo and the token line, and
  the exit code of that line.
\<close>

section \<open>Line ends\<close>

function unix_lines :: "bytes \<Rightarrow> bytes" where
  "unix_lines [] = []"
| "unix_lines (c # cs) =
     (if c = 13 then 10 # unix_lines (case cs of d # ds \<Rightarrow> if d = 10 then ds else cs | [] \<Rightarrow> [])
      else c # unix_lines cs)"
  by pat_completeness auto
termination
  by (relation "measure length") (auto split: list.split)

lemma replace_crlf:
  "replace [13 :: 8 word, 10] [10] (c # cs) =
     (if c = 13 \<and> prefix [10] cs then 10 # replace [13, 10] [10] (tl cs)
      else c # replace [13, 10] [10] cs)"
  by (cases cs) (auto simp: replace_def replace_nonempty_Cons)

lemma unix_lines_eqs:
  "unix_lines (13 # 10 # cs) = 10 # unix_lines cs"
  "\<not> prefix [10] cs \<Longrightarrow> unix_lines (13 # cs) = 10 # unix_lines cs"
  "c \<noteq> 13 \<Longrightarrow> unix_lines (c # cs) = c # unix_lines cs"
  by (auto split: list.split)

declare unix_lines.simps(2) [simp del]

lemma unix_lines_induct [case_names Nil crlf cr other]:
  fixes P :: "bytes \<Rightarrow> bool"
  assumes "P []" and "\<And>cs. P cs \<Longrightarrow> P (13 # 10 # cs)"
    and "\<And>cs. \<not> prefix [10] cs \<Longrightarrow> P cs \<Longrightarrow> P (13 # cs)"
    and "\<And>c cs. c \<noteq> 13 \<Longrightarrow> P cs \<Longrightarrow> P (c # cs)"
  shows "P v"
proof (induction v rule: length_induct)
  case (1 v)
  show ?case
  proof (cases v)
    case (Cons c cs)
    show ?thesis
    proof (cases "c = 13 \<and> prefix [10] cs")
      case True
      then obtain ds where "cs = 10 # ds" by (cases cs) auto
      with 1 Cons True assms(2) [of ds] show ?thesis by simp
    next
      case False
      with 1 Cons assms(3) [of cs] assms(4) [of c cs] show ?thesis by (cases "c = 13") auto
    qed
  qed (use assms(1) in simp)
qed

lemma normalize_unix_lines: "normalize_bytes v = unix_lines v"
proof (induction v rule: unix_lines_induct)
  case (crlf cs)
  then show ?case by (simp add: normalize_bytes_def replace_crlf [of 13] replace_single unix_lines_eqs)
next
  case (cr cs)
  have "replace [13, 10] [10] (13 # cs) = 13 # replace [13, 10] [10] cs"
    using cr(1) by (subst replace_crlf) simp
  with cr show ?case by (simp add: normalize_bytes_def replace_single unix_lines_eqs)
next
  case (other c cs)
  have "replace [13, 10] [10] (c # cs) = c # replace [13, 10] [10] cs"
    using other(1) by (subst replace_crlf) simp
  with other show ?case by (simp add: normalize_bytes_def replace_single unix_lines_eqs)
qed (simp add: normalize_bytes_def)

lemma normalize_no_cr: "13 \<notin> set (normalize_bytes v)"
  unfolding normalize_unix_lines
  by (induction v rule: unix_lines_induct) (auto simp: unix_lines_eqs)

lemma unix_lines_prefix: "prefix p v \<Longrightarrow> prefix (unix_lines p) (unix_lines v)"
proof (induction v arbitrary: p rule: unix_lines_induct)
  case (crlf cs)
  from crlf.prems consider "p = []" | "p = [13]" | q where "p = 13 # 10 # q" "prefix q cs"
    by (auto simp: prefix_Cons)
  then show ?case by cases (use crlf.IH in \<open>auto simp: unix_lines_eqs\<close>)
next
  case (cr cs)
  from cr.prems consider "p = []" | q where "p = 13 # q" "prefix q cs" by (auto simp: prefix_Cons)
  then show ?case
  proof cases
    case (2 q)
    then have "\<not> prefix [10] q" using cr.hyps by (auto dest: prefix_order.trans)
    with 2 cr show ?thesis by (simp add: unix_lines_eqs)
  qed simp
next
  case (other c cs)
  from other.prems consider "p = []" | q where "p = c # q" "prefix q cs" by (auto simp: prefix_Cons)
  then show ?case by cases (use other in \<open>auto simp: unix_lines_eqs\<close>)
qed simp

section \<open>Truncated text\<close>

lemma decode_truncated:
  assumes "list_all scalar_value s" and "prefix p (concat (map utf8_char s))"
  shows "\<exists>j t. utf8_decode_replace p = take j s @ t \<and> (t = [] \<or> t = [65533] \<and> j < length s)"
  using assms
proof (induction s arbitrary: p)
  case (Cons c s)
  from Cons.prems(2) consider (short) "prefix p (utf8_char c)" "p \<noteq> utf8_char c"
    | (long) q where "p = utf8_char c @ q" "prefix q (concat (map utf8_char s))"
    by (cases "p = utf8_char c") (auto simp: prefix_append intro: that(2) [of "[]"])
  then show ?case
  proof cases
    case short
    show ?thesis
    proof (cases "p = []")
      case False
      with utf8_next_truncated [OF _ short(1) False short(2)] Cons.prems(1)
      have "utf8_decode_replace p = [65533]" by (subst utf8_decode_replace.simps) simp
      then show ?thesis by (intro exI [of _ 0] exI [of _ "[65533]"]) simp
    qed (auto intro: exI [of _ 0])
  next
    case (long q)
    from Cons.IH [OF _ long(2)] Cons.prems(1) obtain j t where
      "utf8_decode_replace q = take j s @ t" "t = [] \<or> t = [65533] \<and> j < length s" by auto
    moreover have "utf8_decode_replace p = c # utf8_decode_replace q"
      using decode_replace_chars [of "[c]" q] Cons.prems(1) long(1) by simp
    ultimately show ?thesis by (intro exI [of _ "Suc j"] exI [of _ t]) auto
  qed
qed simp

section \<open>The token line\<close>

definition clean_token :: "pystr \<Rightarrow> bool" where
  \<comment> \<open>ASCII without a line end, as the tokens of \<^verbatim>\<open>execute\<close> are\<close>
  "clean_token token \<longleftrightarrow> (\<forall>c \<in> set token. c < 128 \<and> c \<noteq> 10)"

lemma match_marker_prefix: "match_marker token s = Some m \<Longrightarrow> prefix (10 # token) s"
  by (auto simp: match_marker_def split: if_splits)

lemma search_marker_None: "\<not> sublist (10 # token) s \<Longrightarrow> search_marker token s = None"
proof (induction s)
  case Nil
  then show ?case by (simp add: search_marker.simps match_marker_def)
next
  case (Cons c s)
  then have "\<not> prefix (10 # token) (c # s)" and "\<not> sublist (10 # token) s"
    by (auto simp: sublist_Cons_right)
  moreover from this(1) have "match_marker token (c # s) = None"
    using match_marker_prefix by (metis option.exhaust)
  ultimately
  show ?case using Cons.IH by (subst search_marker.simps) simp
qed

text \<open>An occurrence of the line that does not lie in the first part cannot begin there.\<close>

lemma token_overlap:
  assumes "clean_token token" and "prefix (10 # token) (s @ 10 # r)" and "s \<noteq> []"
  shows "prefix (10 # token) s"
proof -
  from assms(2) consider "prefix (10 # token) s" | q where "10 # token = s @ q" "prefix q (10 # r)"
    by (auto simp: prefix_append)
  then show ?thesis
  proof cases
    case (2 q)
    show ?thesis
    proof (cases q)
      case (Cons a q')
      with 2(2) have "a = 10" by simp
      with 2(1) Cons assms(3) have "10 \<in> set token" by (cases s) auto
      with assms(1) show ?thesis by (auto simp: clean_token_def)
    qed (use 2 in auto)
  qed
qed

lemma search_marker_skip:
  assumes "clean_token token" and "\<not> sublist (10 # token) before"
  shows "search_marker token (before @ 10 # r) =
    map_option (\<lambda>(b, m). (before @ b, m)) (search_marker token (10 # r))"
  using assms(2)
proof (induction before)
  case Nil
  then show ?case by (cases "search_marker token (10 # r)") auto
next
  case (Cons c s)
  then have "\<not> prefix (10 # token) (c # s)" and s: "\<not> sublist (10 # token) s"
    by (auto simp: sublist_Cons_right)
  then have "match_marker token ((c # s) @ 10 # r) = None"
    using token_overlap [OF assms(1), of "c # s" r] match_marker_prefix
    by (metis list.distinct(1) option.exhaust)
  with Cons.IH [OF s] show ?case
    by (subst search_marker.simps) (cases "search_marker token (10 # r)"; auto)
qed

section \<open>The number on the token line\<close>

lemma digit_value_ascii: "c < 128 \<Longrightarrow> digit_value c = (if 48 \<le> c \<and> c < 58 then Some (c - 48) else None)"
  by (simp add: digit_value_def decimal_zeros_def)

lemma is_decimal_ascii: "c < 128 \<Longrightarrow> is_decimal c \<longleftrightarrow> 48 \<le> c \<and> c < 58"
  by (simp add: is_decimal_def digit_value_ascii)

lemma is_decimal_simps [simp]: "\<not> is_decimal 10" "\<not> is_decimal 45" "\<not> is_decimal 65533"
  by (simp_all add: is_decimal_ascii is_decimal_def digit_value_def decimal_zeros_def)

lemma nat_text_decimal: "c \<in> set (nat_text n) \<Longrightarrow> is_decimal c"
  using nat_text_digits [of c n] by (simp add: is_decimal_ascii)

lemma digits_value_append: "digits_value acc (s @ [c]) = digits_value acc s * 10 + the (digit_value c)"
  by (induction s arbitrary: acc) auto

lemma digits_value_nat_text: "digits_value 0 (nat_text n) = n"
proof (induction n rule: nat_text.induct)
  case (1 n)
  show ?case
  proof (cases "n < 10")
    case True
    then show ?thesis by (simp add: nat_text_small digit_value_ascii)
  next
    case False
    have "48 + n mod 10 < 128" "48 + n mod 10 < 58" by simp_all
    with 1 False show ?thesis
      by (simp add: nat_text_big digits_value_append digit_value_ascii)
  qed
qed

definition printable_code :: "int \<Rightarrow> bool" where
  \<comment> \<open>within the digits \<^verbatim>\<open>int\<close> converts\<close>
  "printable_code n \<longleftrightarrow> length (nat_text (nat \<bar>n\<bar>)) \<le> 4300"

definition code_sign :: "int \<Rightarrow> bool" where
  "code_sign n = (n < 0)"

definition code_digits :: "int \<Rightarrow> pystr" where
  "code_digits n = nat_text (nat \<bar>n\<bar>)"

lemma int_text_code: "int_text n = (if code_sign n then [45] else []) @ code_digits n"
  by (simp add: int_text_def code_sign_def code_digits_def)

lemma py_int_code: "printable_code n \<Longrightarrow> py_int (code_sign n) (code_digits n) = Inr n"
  by (simp add: py_int_def printable_code_def code_digits_def code_sign_def digits_value_nat_text)

lemma takeWhile_code:
  assumes "\<not> is_decimal c"
  shows "takeWhile is_decimal (code_digits n @ c # r) = code_digits n"
    "dropWhile is_decimal (code_digits n @ c # r) = c # r"
  using assms nat_text_decimal unfolding code_digits_def
  by (auto simp: takeWhile_append dropWhile_append)

section \<open>Complete and partial responses\<close>

definition framed :: "pystr \<Rightarrow> int \<Rightarrow> pystr \<Rightarrow> pystr" where
  \<comment> \<open>what follows the output: the token line and the prompt\<close>
  "framed token code prompt = 10 # token @ int_text code @ 10 # prompt"

lemma match_framed:
  assumes "10 \<notin> set token"
  shows "match_marker token (10 # token @ int_text code @ 10 # r)
    = Some (code_sign code, code_digits code, r)"
proof -
  have "45 \<notin> set (code_digits code)" using nat_text_digits by (fastforce simp: code_digits_def)
  then have hd: "\<not> prefix [45] (code_digits code @ x)" for x
    using nat_text_not_Nil [of "nat \<bar>code\<bar>"]
    by (cases "code_digits code") (auto simp: code_digits_def [symmetric])
  show ?thesis
    using hd nat_text_not_Nil
    by (simp add: match_marker_def int_text_code Let_def takeWhile_code) (simp add: code_digits_def)
qed

lemma match_marker_shape:
  assumes "match_marker token s = Some (negative, digits, rest)"
  shows "\<exists>d. s = 10 # token @ d @ 10 # rest"
proof -
  from match_marker_prefix [OF assms] obtain r where s: "s = (10 # token) @ r" by (auto simp: prefix_def)
  define d where "d = (if prefix [45] r then tl r else r)"
  have r: "\<exists>a. r = a @ d" by (cases r) (auto simp: d_def)
  from assms have "prefix [10] (dropWhile is_decimal d)" "rest = tl (dropWhile is_decimal d)"
    by (auto simp: match_marker_def Let_def s d_def split: if_splits)
  then have "dropWhile is_decimal d = 10 # rest" by (cases "dropWhile is_decimal d") auto
  then have "d = takeWhile is_decimal d @ 10 # rest" by (metis takeWhile_dropWhile_id)
  with r s show ?thesis by (metis append.assoc append_Cons)
qed

lemma no_line_end_no_match:
  assumes "10 \<notin> set r" shows "search_marker token (10 # r) = None"
proof -
  have "match_marker token (10 # r) = None"
  proof (cases "match_marker token (10 # r)")
    case (Some m)
    then obtain a b c where "match_marker token (10 # r) = Some (a, b, c)" by (cases m) auto
    from match_marker_shape [OF this] assms show ?thesis by auto
  qed
  moreover have "\<not> sublist (10 # token) r"
    using assms by (auto dest: set_mono_sublist)
  ultimately show ?thesis
    by (subst search_marker.simps) (simp add: search_marker_None)
qed

lemma sublist_snoc_other:
  assumes "sublist x (s @ [c])" and "c \<notin> set x" shows "sublist x s"
proof -
  from assms(1) obtain a b where ab: "s @ [c] = a @ x @ b" by (auto simp: sublist_def)
  show ?thesis
  proof (cases b rule: rev_cases)
    case Nil
    with ab assms(2) have "x = []" by (cases x rule: rev_cases) auto
    then show ?thesis by simp
  next
    case (snoc b' d)
    with ab have "s = a @ x @ b'" by simp
    then show ?thesis by (auto simp: sublist_def)
  qed
qed

lemma search_partial:
  assumes tok: "clean_token token" and before: "\<not> sublist (10 # token) before"
    and t: "t = [] \<or> t = [65533]"
    and found: "search_marker token (take j (before @ framed token code prompt) @ t) = Some m"
  shows "\<exists>rest. m = (before, code_sign code, code_digits code, rest)"
proof (cases "j \<le> length before")
  case True
  have "65533 \<notin> set (10 # token)" using tok by (auto simp: clean_token_def)
  moreover have "\<not> sublist (10 # token) (take j before)"
    using before by (metis sublist_order.order_trans sublist_take)
  ultimately have "\<not> sublist (10 # token) (take j before @ t)"
    using t sublist_snoc_other by fastforce
  with True found show ?thesis by (simp add: search_marker_None)
next
  case False
  define k where "k = j - Suc (length before)"
  define r where "r = take k (token @ int_text code @ 10 # prompt) @ t"
  have "take j (before @ framed token code prompt) @ t = before @ 10 # r"
    using False by (simp add: framed_def r_def k_def take_Cons' diff_diff_left)
  with found search_marker_skip [OF tok before, of r]
  obtain b' m' where m: "search_marker token (10 # r) = Some (b', m')" "m = (before @ b', m')" by auto
  have tok10: "10 \<notin> set token" using tok by (auto simp: clean_token_def)
  have code10: "10 \<notin> set (int_text code)"
    by (auto simp: int_text_def dest: nat_text_digits)
  show ?thesis
  proof (cases "k \<le> length token + length (int_text code)")
    case True
    then have "r = take k (token @ int_text code) @ t" by (simp add: r_def)
    then have "10 \<notin> set r" using tok10 code10 t by (auto dest: in_set_takeD)
    with m show ?thesis by (simp add: no_line_end_no_match)
  next
    case False
    then obtain r' where "r = token @ int_text code @ 10 # r'"
      by (auto simp: r_def take_Cons')
    then have mm: "match_marker token (10 # r) = Some (code_sign code, code_digits code, r')"
      using match_framed [OF tok10, of code r'] by simp
    have "search_marker token (10 # r) = Some ([], code_sign code, code_digits code, r')"
      by (subst search_marker.simps) (simp add: mm)
    with m show ?thesis by auto
  qed
qed

lemma search_complete:
  assumes "clean_token token" and "\<not> sublist (10 # token) before"
  shows "search_marker token (before @ framed token code prompt)
    = Some (before, code_sign code, code_digits code, prompt)"
proof -
  have "10 \<notin> set token" using assms(1) by (auto simp: clean_token_def)
  from match_framed [OF this] have "search_marker token (framed token code prompt)
      = Some ([], code_sign code, code_digits code, prompt)"
    by (subst search_marker.simps) (simp add: framed_def)
  with search_marker_skip [OF assms] show ?thesis by (simp add: framed_def)
qed

text \<open>Of the bytes of a response and of every prefix of them.\<close>

lemma command_found_response:
  assumes tok: "clean_token token" "\<not> sublist (10 # token) before" "printable_code code"
    and enc: "utf8_encode (before @ framed token code prompt) = Inr (normalize_bytes full)"
  shows "command_found token prompt full = Some (Inr (before, code))"
    and "prefix p full \<Longrightarrow> command_found token prompt p \<in> {None, Some (Inr (before, code))}"
proof -
  have "decode_normalized full = before @ framed token code prompt"
    by (simp add: decode_normalized_def decode_replace_encode [OF enc])
  then show "command_found token prompt full = Some (Inr (before, code))"
    by (simp add: command_found_def search_complete [OF tok(1,2)] py_int_code [OF tok(3)])
  assume "prefix p full"
  then have "prefix (normalize_bytes p) (normalize_bytes full)"
    by (simp add: normalize_unix_lines unix_lines_prefix)
  with enc decode_truncated obtain j t where
    d: "decode_normalized p = take j (before @ framed token code prompt) @ t" and t: "t = [] \<or> t = [65533]"
    unfolding decode_normalized_def utf8_encode_def by (metis sum.inject(2) sum.distinct(1))
  have "command_found token prompt p = Some (Inr (before, code))"
    if found: "search_marker token (decode_normalized p) = Some m" "command_found token prompt p \<noteq> None" for m
    using search_partial [OF tok(1,2) t, of j code prompt m] found py_int_code [OF tok(3)]
    by (auto simp: command_found_def d split: if_splits)
  then show "command_found token prompt p \<in> {None, Some (Inr (before, code))}"
    by (cases "search_marker token (decode_normalized p)") (auto simp: command_found_def)
qed

lemma remove_echo_submitted:
  assumes "submitted \<noteq> []" and "hd submitted \<noteq> 10"
  shows "remove_echo (submitted @ 10 # out) submitted = lstrip_by (\<lambda>c. c = 10) out"
  using assms by (cases submitted) (simp_all add: remove_echo_def lstrip_by_def)

lemma remove_echo_plain:
  "\<not> prefix submitted (lstrip_by (\<lambda>c. c = 10) out) \<Longrightarrow> remove_echo out submitted = lstrip_by (\<lambda>c. c = 10) out"
  by (simp add: remove_echo_def Let_def)

section \<open>Commands\<close>

lemma clean_token_hex:
  "list_all is_alnum_cp u \<Longrightarrow> clean_token (lit ''__HARDWARE_TEST_EXIT_'' @ u @ lit ''__'')"
  by (auto simp: clean_token_def lit_def list_all_iff is_alnum_cp_def is_digit_cp_def is_upper_cp_def
      is_lower_cp_def)

lemma submitted_head: "\<exists>s. submitted_command text' prompt token status_name = 101 # s"
  by (simp add: submitted_command_def lit_def)

definition command_token :: "pystr \<Rightarrow> pystr" where
  \<comment> \<open>the token \<^verbatim>\<open>execute\<close> makes of the first UUID\<close>
  "command_token u = lit ''__HARDWARE_TEST_EXIT_'' @ u @ lit ''__''"

definition command_line :: "console_session_config \<Rightarrow> pystr \<Rightarrow> pystr \<Rightarrow> pystr \<Rightarrow> pystr" where
  \<comment> \<open>the line \<^verbatim>\<open>execute\<close> submits, of the two UUIDs and the command text\<close>
  "command_line cfg u v text' = submitted_command text' (cc_prompt cfg) (command_token u)
     (lit ''__hardware_test_status_'' @ v)"

text \<open>
  C5. A command's result does not depend on how the device's answer is cut into chunks, on
  line ends, or on idle polls: when the bytes the channel delivers before the deadline are,
  after normalization, the UTF-8 text of the echoed line, the output \<open>out\<close>, a line with the
  token and the exit code, and the prompt, and the token line occurs nowhere earlier,
  \<^verbatim>\<open>execute\<close> returns \<open>out\<close> without leading empty lines and exactly that exit code.
\<close>

theorem execute_exact:
  assumes opened: "ch_closed ch w = Some (Inr False, w1)"
    and uuids: "rt_uuid4_hex rt w1 = Some (Inr u, w2)" "rt_uuid4_hex rt w2 = Some (Inr v, w3)"
    and hex: "list_all is_alnum_cp u"
    and sent: "utf8_encode (command_line cfg u v text' @ [13]) = Inr bs"
      "ch_sendall ch bs w3 = Some (Inr (), w4)"
    and clock: "rt_monotonic rt w4 = Some (Inr now, w5)"
    and answer: "delivers ch rt (now + (case timeout of Some t \<Rightarrow> t | None \<Rightarrow> command_timeout)) w5 cs w6"
      "utf8_encode ((command_line cfg u v text' @ 10 # out)
         @ framed (command_token u) code (cc_prompt cfg)) = Inr (normalize_bytes (concat cs))"
    and fresh: "\<not> sublist (10 # command_token u) (command_line cfg u v text' @ 10 # out)"
    and code: "printable_code code"
  shows "\<exists>w'. execute_console ch rt cfg command_timeout text' timeout w =
    Some (Inr \<lparr>stdout = lstrip_by (\<lambda>c. c = 10) out, stderr = [], exit_code = code\<rparr>, w')"
proof -
  let ?token = "command_token u" and ?line = "command_line cfg u v text'"
  have tok: "clean_token ?token" using clean_token_hex [OF hex] by (simp add: command_token_def)
  obtain w' where "read_command_response ch rt cfg ?token
      (case timeout of Some t \<Rightarrow> t | None \<Rightarrow> command_timeout) w4 = Some (Inr (?line @ 10 # out, code), w')"
    using poll_loop_any_chunks [where found = "command_found ?token (cc_prompt cfg)",
        OF answer(1) command_found_response(1) [OF tok fresh code answer(2)]
        command_found_response(2) [OF tok fresh code answer(2)]]
    by (simp add: read_command_response_def io_bind_def clock) blast
  moreover have "remove_echo (?line @ 10 # out) ?line = lstrip_by (\<lambda>c. c = 10) out"
  proof -
    obtain r where "?line = 101 # r" using submitted_head by (force simp: command_line_def)
    then show ?thesis by (intro remove_echo_submitted) simp_all
  qed
  ultimately show ?thesis
    unfolding execute_console_def
    by (simp add: io_bind_def opened uuids Let_def send_text_def lifting_def returning_def sent
        flip: command_token_def) (simp add: sent returning_def flip: command_line_def)
qed

text \<open>A device that answers \<^verbatim>\<open>id\<close> with \<^verbatim>\<open>ok\<close> and exit code 3, in two chunks cut inside a line end.\<close>

definition scripted_channel :: "bytes list console_channel" where
  "scripted_channel = \<lparr>ch_closed = returning False, ch_sendall = (\<lambda>_. returning ()),
     ch_recv_ready = reading (\<lambda>cs. cs \<noteq> []), ch_recv = (\<lambda>_ cs. Some (Inr (hd cs), tl cs)),
     ch_exit_status_ready = returning False\<rparr>"

definition frozen_runtime :: "'w runtime" where
  "frozen_runtime = \<lparr>rt_monotonic = returning 0, rt_sleep = (\<lambda>_. returning ()),
     rt_uuid4_hex = returning [97]\<rparr>"

lemma script_ops:
  "ch_closed scripted_channel cs = Some (Inr False, cs)"
  "ch_sendall scripted_channel bs cs = Some (Inr (), cs)"
  "ch_recv_ready scripted_channel cs = Some (Inr (cs \<noteq> []), cs)"
  "ch_recv scripted_channel n cs = Some (Inr (hd cs), tl cs)"
  "rt_monotonic frozen_runtime w = Some (Inr 0, w)"
  "rt_uuid4_hex frozen_runtime w = Some (Inr [97], w)"
  by (simp_all add: scripted_channel_def frozen_runtime_def run_simps)

definition example_console :: console_session_config where
  "example_console = \<lparr>cc_prompt = lit ''HW> '', cc_initial_prompt_suffix = lit ''# '',
     cc_login_prompt = lit ''login: '', cc_password_prompt = lit ''Password: '',
     cc_username = Some (lit ''root''), cc_password = Some (lit ''pw'')\<rparr>"

definition example_line :: pystr where
  "example_line = command_line example_console [97] [97] (lit ''id'')"

definition example_tail :: pystr where
  "example_tail = lit ''ok'' @ framed (command_token [97]) 3 (cc_prompt example_console)"

lemma unix_lines_plain: "13 \<notin> set a \<Longrightarrow> unix_lines (a @ b) = a @ unix_lines b"
  by (induction a) (auto simp: unix_lines_eqs)

lemma example_ascii:
  "list_all (\<lambda>c. c < 128 \<and> c \<noteq> 13) (example_line @ 10 # example_tail)"
  "10 \<notin> set example_line" "list_all (\<lambda>c. c < 128) (example_line @ [13])"
  by code_simp+

theorem execute_exact_witness:
  "\<exists>w'. execute_console scripted_channel frozen_runtime example_console 5 (lit ''id'') None
     [map byte (example_line @ [13]), map byte (10 # example_tail)]
   = Some (Inr \<lparr>stdout = lit ''ok'', stderr = [], exit_code = 3\<rparr>, w')"
proof -
  let ?w = "[map byte (example_line @ [13]), map byte (10 # example_tail)]"
  have split: "map byte (example_line @ [13]) @ map byte (10 # example_tail)
      = map byte example_line @ 13 # 10 # map byte example_tail"
    by (simp add: byte_def)
  have no_cr: "13 \<notin> set (map byte s)" if "list_all (\<lambda>c. c < 128 \<and> c \<noteq> 13) s" for s
    using that byte_eq_iff [of 13] by (auto simp: list_all_iff byte_def)
  have norm: "normalize_bytes (concat ?w) = map byte (example_line @ 10 # example_tail)"
    using example_ascii(1) no_cr [of example_line] no_cr [of example_tail]
      unix_lines_plain [of "map byte example_tail" "[]"]
    by (simp add: split normalize_unix_lines unix_lines_plain unix_lines_eqs)
      (simp add: byte_def unix_lines_eqs)
  have enc: "utf8_encode ((command_line example_console [97] [97] (lit ''id'') @ 10 # lit ''ok'')
      @ framed (command_token [97]) 3 (cc_prompt example_console)) = Inr (normalize_bytes (concat ?w))"
  proof -
    have "(command_line example_console [97] [97] (lit ''id'') @ 10 # lit ''ok'')
        @ framed (command_token [97]) 3 (cc_prompt example_console) = example_line @ 10 # example_tail"
      by (simp add: example_line_def example_tail_def)
    moreover have "ascii (example_line @ 10 # example_tail)"
      using example_ascii(1) unfolding ascii_def list_all_iff by blast
    ultimately show ?thesis unfolding norm by (simp only: encode_ascii)
  qed
  have sent: "utf8_encode (command_line example_console [97] [97] (lit ''id'') @ [13])
      = Inr (map byte (example_line @ [13]))"
    using example_ascii(3) unfolding example_line_def
    by (intro encode_ascii) (simp add: ascii_def list_all_iff)
  let ?a = "map byte (example_line @ [13])" and ?b = "map byte (10 # example_tail)"
  have last: "delivers scripted_channel frozen_runtime 5 [?b] [?b] []"
    by (rule delivers.last [of frozen_runtime _ 0 "[?b]" _ _ "[?b]"]) (simp_all add: script_ops)
  have deliv: "delivers scripted_channel frozen_runtime 5 ?w ?w []"
    by (rule delivers.chunk [of frozen_runtime _ 0 ?w _ _ ?w _ "[?b]"]) (use last in \<open>simp_all add: script_ops\<close>)
  have fresh: "\<not> sublist (10 # command_token [97]) (example_line @ 10 # lit ''ok'')"
    by code_simp
  have out: "printable_code 3" "lstrip_by (\<lambda>c. c = 10) (lit ''ok'') = lit ''ok''"
    by (simp_all add: printable_code_def nat_text_small lstrip_by_def lit_def)
  show ?thesis
    using execute_exact [of scripted_channel ?w ?w frozen_runtime "[97]" ?w "[97]" ?w example_console
        "lit ''id''" "map byte (example_line @ [13])" ?w 0 ?w 5 None ?w "[]" "lit ''ok''" 3]
      sent deliv enc fresh
    by (simp add: script_ops example_line_def out is_alnum_cp_def is_lower_cp_def)
qed

end
