(* ===== verification/Console_Login.thy ===== *)
theory Console_Login
  imports Console_Frames
begin

text \<open>
  Logging in (\<^verbatim>\<open>prepare\<close> of \<^verbatim>\<open>src/hardware_test/transport/console.py\<close>): what is sent and when,
  what error messages can hold, and that the session comes back when time passes.
\<close>

section \<open>Redaction\<close>

lemma redact_prefix:
  assumes "old \<noteq> []" and "42 \<notin> set p" and "prefix p (replace_nonempty old stars s)"
  shows "prefix p s"
  using assms(2,3)
proof (induction s arbitrary: p)
  case (Cons c s)
  show ?case
  proof (cases "prefix old (c # s)")
    case True
    with Cons.prems assms(1) have "p = []"
      by (cases p) (auto simp: replace_nonempty_Cons stars_def numeral_eq_Suc)
    then show ?thesis by simp
  next
    case False
    with Cons assms(1) show ?thesis
      by (cases p) (auto simp: replace_nonempty_Cons)
  qed
qed simp

lemma sublist_after_stars:
  assumes "sublist p (replicate n 42 @ s)" and "42 \<notin> set p" and "p \<noteq> []"
  shows "sublist p s"
  using assms(1)
proof (induction n)
  case (Suc n)
  have "\<not> prefix p (42 # replicate n 42 @ s)" using assms(2,3) by (cases p) auto
  with Suc show ?case by (simp add: sublist_Cons_right)
qed simp

lemma redact_no_password:
  assumes "old \<noteq> []" and "42 \<notin> set old"
  shows "\<not> sublist old (replace_nonempty old stars s)"
proof (induction s rule: length_induct)
  case (1 s)
  show ?case
  proof (cases s)
    case (Cons c t)
    show ?thesis
    proof (cases "prefix old s")
      case True
      define rest where "rest = drop (length old) s"
      have eq: "replace_nonempty old stars s = replicate 10 42 @ replace_nonempty old stars rest"
        using True assms(1) by (simp add: Cons rest_def replace_nonempty_Cons stars_def)
      have "length rest < length s" using assms(1) by (simp add: Cons rest_def)
      with 1 show ?thesis unfolding eq using sublist_after_stars assms by blast
    next
      case False
      then have eq: "replace_nonempty old stars s = c # replace_nonempty old stars t"
        using assms(1) by (simp add: Cons replace_nonempty_Cons)
      have "\<not> prefix old (c # replace_nonempty old stars t)"
        using False redact_prefix [OF assms(1), of "tl old" t] assms
        by (cases old) (auto simp: Cons)
      with 1 Cons show ?thesis unfolding eq by (simp add: sublist_Cons_right)
    qed
  qed (use assms in simp)
qed

lemma redact_console_password_clean:
  assumes "cc_password cfg = Some p" and "p \<noteq> []" and "42 \<notin> set p"
  shows "\<not> sublist p (redact_console_password cfg value)"
  using redact_no_password [OF assms(2,3)] assms by (simp add: redact_console_password_def replace_def)

section \<open>What goes over the line\<close>

text \<open>A channel that also records what is sent and received, in order.\<close>

datatype event = Sent bytes | Received bytes

definition recorded_channel :: "'w console_channel \<Rightarrow> ('w \<times> event list) console_channel" where
  "recorded_channel ch = \<lparr>
     ch_closed = outer (ch_closed ch),
     ch_sendall = (\<lambda>s. io_then (inner (modifying (\<lambda>l. l @ [Sent s]))) (outer (ch_sendall ch s))),
     ch_recv_ready = outer (ch_recv_ready ch),
     ch_recv = (\<lambda>n. io_bind (outer (ch_recv ch n)) (\<lambda>c.
       io_then (inner (modifying (\<lambda>l. l @ [Received c]))) (returning c))),
     ch_exit_status_ready = outer (ch_exit_status_ready ch)\<rparr>"

definition outer_runtime :: "'w runtime \<Rightarrow> ('w \<times> 's) runtime" where
  "outer_runtime rt = \<lparr>rt_monotonic = outer (rt_monotonic rt), rt_sleep = (\<lambda>t. outer (rt_sleep rt t)),
     rt_uuid4_hex = outer (rt_uuid4_hex rt)\<rparr>"

definition only_reads :: "event list \<Rightarrow> event list \<Rightarrow> bool" where
  "only_reads l0 l \<longleftrightarrow> (\<exists>cs. l = l0 @ map Received cs)"

lemma only_reads_refl [simp]: "only_reads l l"
  by (auto simp: only_reads_def intro: exI [of _ "[]"])

lemma only_reads_snoc: "only_reads l0 l \<Longrightarrow> only_reads l0 (l @ [Received c])"
  by (auto simp: only_reads_def) (metis list.simps(8,9) map_append)

lemma recorded_keeps_reads:
  "channel_keeps (\<lambda>wl. only_reads l0 (snd wl)) (recorded_channel ch) (outer_runtime rt)"
  by (auto simp: channel_keeps_def recorded_channel_def outer_runtime_def io_keeps_def io_cases
      run_simps only_reads_snoc io_bind_def split: option.splits sum.splits)

lemma delivers_recorded:
  assumes "delivers (recorded_channel ch) (outer_runtime rt) deadline wl cs wl'"
  shows "snd wl' = snd wl @ map Received cs"
  using assms
  by induction (auto simp: recorded_channel_def outer_runtime_def io_cases run_simps)

text \<open>What has been received since the last time something was sent.\<close>

definition heard :: "event list \<Rightarrow> pystr" where
  "heard l = decode_normalized (concat (rev (map (\<lambda>e. case e of Received c \<Rightarrow> c | Sent _ \<Rightarrow> [])
     (takeWhile (\<lambda>e. case e of Received _ \<Rightarrow> True | Sent _ \<Rightarrow> False) (rev l)))))"

lemma heard_reads: "heard (l @ Sent s # map Received cs) = decode_normalized (concat cs)"
proof -
  have "takeWhile (\<lambda>e. case e of Received _ \<Rightarrow> True | Sent _ \<Rightarrow> False) (map Received ds @ Sent s # l')
      = map Received ds" for ds l'
    by (induction ds) auto
  then show ?thesis by (simp add: heard_def rev_map comp_def)
qed

definition exchange :: "bytes \<Rightarrow> event list \<Rightarrow> event list \<Rightarrow> bool" where
  \<comment> \<open>one message sent, and what was received after it\<close>
  "exchange s l0 l \<longleftrightarrow> (\<exists>cs. l = l0 @ Sent s # map Received cs)"

definition maybe_sent :: "pystr \<Rightarrow> event list \<Rightarrow> event list \<Rightarrow> bool" where
  "maybe_sent t l0 l \<longleftrightarrow> l = l0 \<or> (\<exists>bs. utf8_encode t = Inr bs \<and> exchange bs l0 l)"

lemma maybe_sent_refl [simp]: "maybe_sent t l l"
  by (simp add: maybe_sent_def)

lemma exchange_sent [simp]: "exchange s l (l @ [Sent s])"
  by (auto simp: exchange_def intro: exI [of _ "[]"])

lemma sendall_post:
  "io_post (\<lambda>wl. snd wl = l0) (ch_sendall (recorded_channel ch) s) (\<lambda>r wl. snd wl = l0 @ [Sent s])"
  by (auto simp: io_post_def recorded_channel_def io_bind_def run_simps outer_def inner_def
      modifying_def split: option.splits)

lemma send_text_post:
  "io_post (\<lambda>wl. snd wl = l0) (send_text (recorded_channel ch) t)
     (\<lambda>r wl. maybe_sent t l0 (snd wl) \<and>
        (\<forall>u. r = Inr u \<longrightarrow> (\<exists>bs. utf8_encode t = Inr bs \<and> snd wl = l0 @ [Sent bs])))"
  unfolding io_post_def
proof (intro allI impI)
  fix wl wl' :: "'a \<times> event list" and r
  assume l0: "snd wl = l0" and run: "send_text (recorded_channel ch) t wl = Some (r, wl')"
  show "maybe_sent t l0 (snd wl') \<and>
      (\<forall>u. r = Inr u \<longrightarrow> (\<exists>bs. utf8_encode t = Inr bs \<and> snd wl' = l0 @ [Sent bs]))"
  proof (cases "utf8_encode t")
    case (Inl e)
    with run l0 show ?thesis by (auto simp: send_text_def io_bind_def run_simps)
  next
    case (Inr bs)
    with run have "ch_sendall (recorded_channel ch) bs wl = Some (r, wl')"
      by (simp add: send_text_def io_bind_def run_simps)
    from io_postD [OF sendall_post this l0] Inr show ?thesis by (simp add: maybe_sent_def)
  qed
qed

lemma read_post:
  "io_post (\<lambda>wl. snd wl = l0 @ [Sent s])
     (read_until_any (recorded_channel ch) (outer_runtime rt) cfg ms tmo c b)
     (\<lambda>r wl. exchange s l0 (snd wl) \<and> (\<forall>m. r = Inr m \<longrightarrow> suffix m (heard (snd wl))))"
  unfolding io_post_def
proof (intro allI impI)
  fix wl wl' :: "'a \<times> event list" and r
  assume l0: "snd wl = l0 @ [Sent s]"
    and run: "read_until_any (recorded_channel ch) (outer_runtime rt) cfg ms tmo c b wl = Some (r, wl')"
  let ?I = "\<lambda>wl. only_reads (l0 @ [Sent s]) (snd wl)"
  have "io_keeps ?I (read_until_any (recorded_channel ch) (outer_runtime rt) cfg ms tmo c b)"
    unfolding read_until_any_def
    using recorded_keeps_reads [of "l0 @ [Sent s]" ch rt]
    by (intro io_keeps_bind poll_loop_keeps) (auto simp: channel_keeps_def)
  from io_keepsD [OF this run] l0 have ex: "exchange s l0 (snd wl')"
    by (auto simp: only_reads_def exchange_def)
  moreover have "suffix m (heard (snd wl'))" if "r = Inr m" for m
  proof -
    from run that obtain now wl1 where clock: "rt_monotonic (outer_runtime rt) wl = Some (Inr now, wl1)"
      and loop: "poll_loop (recorded_channel ch) (outer_runtime rt) (marker_found ms)
        (Exn TransportError [Txt (lit ''Console channel closed while waiting for ''), Txt c])
        (\<lambda>buffer. let partial = decode_normalized buffer;
            partial' = (if b then redact_console_password cfg partial else partial)
          in Exn TransportTimeoutError [Txt (lit ''Timed out waiting for ''), Txt c,
               Txt (lit ''; received: ''), Repr partial']) (now + tmo) wl1 = Some (Inr m, wl')"
      by (auto simp: read_until_any_def io_bind_Inr)
    from clock have "snd wl1 = snd wl" by (simp add: outer_runtime_def io_cases)
    moreover from poll_loop_sound [OF loop] obtain cs where
      cs: "delivers (recorded_channel ch) (outer_runtime rt) (now + tmo) wl1 cs wl'"
      "marker_found ms (concat cs) = Some (Inr m)" by auto
    ultimately have "snd wl' = l0 @ Sent s # map Received cs"
      using delivers_recorded [OF cs(1)] l0 by simp
    then show ?thesis
      using cs(2) by (auto simp: heard_reads marker_found_def find_Some_iff)
  qed
  ultimately show "exchange s l0 (snd wl') \<and> (\<forall>m. r = Inr m \<longrightarrow> suffix m (heard (snd wl')))" by simp
qed

section \<open>The course of a login\<close>

text \<open>
  The messages of \<open>prepare_console\<close>, each followed by what was received after it: the carriage
  return, the user name if one is sent, the password if the device has just asked for it, and
  the command that sets the prompt.
\<close>

definition login_log :: "console_session_config \<Rightarrow> event list \<Rightarrow> bool" where
  "login_log cfg l \<longleftrightarrow> (\<exists>l1 l2 l3. exchange [13] [] l1 \<and>
     (l2 = l1 \<or> (\<exists>u. cc_username cfg = Some u \<and> maybe_sent (u @ [13]) l1 l2)) \<and>
     (l3 = l2 \<or> (\<exists>p. cc_password cfg = Some p \<and> suffix (cc_password_prompt cfg) (heard l2) \<and>
        maybe_sent (p @ [13]) l2 l3)) \<and>
     maybe_sent (lit ''export PS1='' @ shlex_quote (cc_prompt cfg) @ [13]) l3 l)"

definition logged_in :: "console_session_config \<Rightarrow> event list \<Rightarrow> bool" where
  \<comment> \<open>before the prompt is set\<close>
  "logged_in cfg l \<longleftrightarrow> (\<exists>l1 l2. exchange [13] [] l1 \<and>
     (l2 = l1 \<or> (\<exists>u. cc_username cfg = Some u \<and> maybe_sent (u @ [13]) l1 l2)) \<and>
     (l = l2 \<or> (\<exists>p. cc_password cfg = Some p \<and> suffix (cc_password_prompt cfg) (heard l2) \<and>
        maybe_sent (p @ [13]) l2 l)))"

definition user_sent :: "console_session_config \<Rightarrow> event list \<Rightarrow> bool" where
  "user_sent cfg l \<longleftrightarrow> (\<exists>l1. exchange [13] [] l1 \<and>
     (l = l1 \<or> (\<exists>u. cc_username cfg = Some u \<and> maybe_sent (u @ [13]) l1 l)))"

lemma login_log_intros:
  "exchange [13] [] l \<Longrightarrow> user_sent cfg l"
  "user_sent cfg l \<Longrightarrow> logged_in cfg l"
  "logged_in cfg l \<Longrightarrow> login_log cfg l"
  unfolding user_sent_def logged_in_def login_log_def by (blast intro: maybe_sent_refl)+

text \<open>One message and the answer to it, from any log.\<close>

lemma ask_post:
  "io_post (\<lambda>wl. snd wl = l0)
     (io_then (send_text (recorded_channel ch) t)
       (read_until_any (recorded_channel ch) (outer_runtime rt) cfg ms tmo c b))
     (\<lambda>r wl. maybe_sent t l0 (snd wl) \<and> (\<forall>m. r = Inr m \<longrightarrow> suffix m (heard (snd wl))))"
proof (rule io_post_bind [OF send_text_post])
  show "io_post (\<lambda>wl. maybe_sent t l0 (snd wl) \<and> (\<forall>u. Inr x = Inr u \<longrightarrow>
        (\<exists>bs. utf8_encode t = Inr bs \<and> snd wl = l0 @ [Sent bs])))
      (read_until_any (recorded_channel ch) (outer_runtime rt) cfg ms tmo c b)
      (\<lambda>r wl. maybe_sent t l0 (snd wl) \<and> (\<forall>m. r = Inr m \<longrightarrow> suffix m (heard (snd wl))))" for x :: unit
    using read_post [of l0 _ ch rt cfg ms tmo c b] unfolding io_post_def maybe_sent_def by blast
qed auto

text \<open>The stages: each leaves its part of the log, and a state the device has just shown.\<close>

definition shown :: "(event list \<Rightarrow> bool) \<Rightarrow> exn + pystr \<Rightarrow> 'w \<times> event list \<Rightarrow> bool" where
  "shown L r wl \<longleftrightarrow> L (snd wl) \<and> (\<forall>m. r = Inr m \<longrightarrow> suffix m (heard (snd wl)))"

lemma username_post:
  "io_post (\<lambda>wl. exchange [13] [] (snd wl))
     (io_then (send_console_username (recorded_channel ch) cfg)
       (read_console_state (recorded_channel ch) (outer_runtime rt) cfg tmo b)) (shown (user_sent cfg))"
proof (rule io_post_at [where f = snd])
  fix w0 :: "'a \<times> event list" assume pre: "exchange [13] [] (snd w0)"
  then have here: "user_sent cfg (snd w0)" by (rule login_log_intros)
  show "io_post (\<lambda>wl. snd wl = snd w0) (io_then (send_console_username (recorded_channel ch) cfg)
      (read_console_state (recorded_channel ch) (outer_runtime rt) cfg tmo b)) (shown (user_sent cfg))"
  proof (cases "\<exists>u p. cc_username cfg = Some u \<and> cc_password cfg = Some p")
    case True
    then obtain u where u: "cc_username cfg = Some u"
      "send_console_username (recorded_channel ch) cfg = send_text (recorded_channel ch) (u @ [13])"
      by (auto simp: send_console_username_def)
    show ?thesis
      unfolding u(2) read_console_state_def using pre u(1)
      by (auto intro!: io_post_weaken [OF ask_post] simp: shown_def user_sent_def)
  next
    case False
    then have "send_console_username (recorded_channel ch) cfg = raising (raise_txt TransportError
        ''Device console requires login, but console credentials are not configured'')"
      by (auto simp: send_console_username_def split: option.splits)
    with here show ?thesis by (auto simp: io_post_def io_bind_def run_simps shown_def)
  qed
qed

lemma password_post:
  "io_post (\<lambda>wl. user_sent cfg (snd wl) \<and> suffix (cc_password_prompt cfg) (heard (snd wl)))
     (io_then (send_console_password (recorded_channel ch) cfg)
       (read_console_state (recorded_channel ch) (outer_runtime rt) cfg tmo b)) (shown (logged_in cfg))"
proof (rule io_post_at [where f = snd])
  fix w0 :: "'a \<times> event list"
  assume pre: "user_sent cfg (snd w0) \<and> suffix (cc_password_prompt cfg) (heard (snd w0))"
  then have here: "logged_in cfg (snd w0)" by (auto intro: login_log_intros)
  show "io_post (\<lambda>wl. snd wl = snd w0) (io_then (send_console_password (recorded_channel ch) cfg)
      (read_console_state (recorded_channel ch) (outer_runtime rt) cfg tmo b)) (shown (logged_in cfg))"
  proof (cases "cc_password cfg")
    case (Some p)
    then have send: "send_console_password (recorded_channel ch) cfg
        = send_text (recorded_channel ch) (p @ [13])" by (simp add: send_console_password_def)
    have "shown (logged_in cfg) r wl"
      if "maybe_sent (p @ [13]) (snd w0) (snd wl) \<and> (\<forall>m. r = Inr m \<longrightarrow> suffix m (heard (snd wl)))"
      for r and wl :: "'a \<times> event list"
      using that pre Some unfolding shown_def logged_in_def user_sent_def by blast
    then show ?thesis
      unfolding send read_console_state_def by (intro io_post_weaken [OF ask_post]) auto
  next
    case None
    with here show ?thesis
      by (auto simp: io_post_def io_bind_def run_simps shown_def send_console_password_def)
  qed
qed

lemma set_prompt_post:
  "io_post (\<lambda>wl. logged_in cfg (snd wl))
     (io_then (send_text (recorded_channel ch) (lit ''export PS1='' @ shlex_quote (cc_prompt cfg) @ [13]))
       (io_then (read_until_any (recorded_channel ch) (outer_runtime rt) cfg [cc_prompt cfg] tmo c b)
         (returning ())))
     (\<lambda>r wl. login_log cfg (snd wl))"
proof (rule io_post_at [where f = snd])
  fix w0 :: "'a \<times> event list" assume pre: "logged_in cfg (snd w0)"
  let ?ask = "io_then (send_text (recorded_channel ch) (lit ''export PS1='' @ shlex_quote (cc_prompt cfg) @ [13]))
    (read_until_any (recorded_channel ch) (outer_runtime rt) cfg [cc_prompt cfg] tmo c b)"
  have log: "login_log cfg l"
    if "maybe_sent (lit ''export PS1='' @ shlex_quote (cc_prompt cfg) @ [13]) (snd w0) l" for l
    using pre that unfolding logged_in_def login_log_def by blast
  have "io_post (\<lambda>wl. snd wl = snd w0) ?ask (\<lambda>r wl. login_log cfg (snd wl))"
    by (rule io_post_weaken [OF ask_post]) (auto intro: log)
  then have "io_post (\<lambda>wl. snd wl = snd w0) (io_then ?ask (returning ())) (\<lambda>r wl. login_log cfg (snd wl))"
    by (rule io_post_bind) (auto intro: io_rules)
  then show "io_post (\<lambda>wl. snd wl = snd w0) (io_then (send_text (recorded_channel ch)
      (lit ''export PS1='' @ shlex_quote (cc_prompt cfg) @ [13]))
      (io_then (read_until_any (recorded_channel ch) (outer_runtime rt) cfg [cc_prompt cfg] tmo c b)
        (returning ()))) (\<lambda>r wl. login_log cfg (snd wl))"
    by (simp add: io_bind_assoc)
qed

lemma username_stage_post:
  "io_post (shown (exchange [13] []) (Inr state))
     (username_stage (recorded_channel ch) (outer_runtime rt) cfg tmo state) (shown (user_sent cfg))"
  unfolding username_stage_def
  by (intro io_rules io_post_weaken [OF username_post]) (auto simp: shown_def intro: login_log_intros)

lemma password_stage_post:
  "io_post (shown (user_sent cfg) (Inr state))
     (password_stage (recorded_channel ch) (outer_runtime rt) cfg tmo state) (shown (logged_in cfg))"
  unfolding password_stage_def
  by (intro io_rules io_post_weaken [OF password_post]) (auto simp: shown_def intro: login_log_intros)

lemma prompt_stage_post:
  "io_post (shown (logged_in cfg) (Inr state))
     (prompt_stage (recorded_channel ch) (outer_runtime rt) cfg tmo state) (\<lambda>r wl. login_log cfg (snd wl))"
  unfolding prompt_stage_def
  by (intro io_post_if io_post_simple io_post_weaken [OF set_prompt_post])
    (auto simp: shown_def intro: login_log_intros)

lemma prepare_login_log:
  "io_post (\<lambda>wl. snd wl = []) (prepare_console (recorded_channel ch) (outer_runtime rt) cfg tmo)
     (\<lambda>r wl. login_log cfg (snd wl))"
proof -
  have log: "login_log cfg (snd wl)" if "shown L r wl" "L \<in> {exchange [13] [], user_sent cfg, logged_in cfg}"
    for L r and wl :: "'a \<times> event list"
    using that by (auto simp: shown_def intro: login_log_intros)
  have first: "io_post (\<lambda>wl. snd wl = [] @ [Sent [13]])
      (read_console_state (recorded_channel ch) (outer_runtime rt) cfg tmo False) (shown (exchange [13] []))"
    unfolding read_console_state_def by (rule io_post_weaken [OF read_post]) (auto simp: shown_def)
  have sent: "login_log cfg [Sent [13]]"
    using exchange_sent [of "[13]" "[]"] by (auto intro: login_log_intros)
  show ?thesis
    unfolding prepare_console_def
    by (intro io_post_bind [OF sendall_post] io_post_bind [OF first] io_post_if io_post_simple
        io_post_bind [OF username_stage_post] io_post_bind [OF password_stage_post] prompt_stage_post)
      (use sent in \<open>auto intro: log\<close>)
qed

text \<open>A message to send, or none, as the part of the log it makes.\<close>

definition part_of :: "pystr \<Rightarrow> event list \<Rightarrow> bool" where
  "part_of t x \<longleftrightarrow> x = [] \<or> (\<exists>bs cs. utf8_encode t = Inr bs \<and> x = Sent bs # map Received cs)"

lemma maybe_sent_part: "maybe_sent t l0 l \<Longrightarrow> \<exists>x. l = l0 @ x \<and> part_of t x"
  by (auto simp: maybe_sent_def exchange_def part_of_def)

lemma part_of_not_sent: "part_of t x \<Longrightarrow> utf8_encode t \<noteq> Inr bs \<Longrightarrow> Sent bs \<notin> set x"
  by (auto simp: part_of_def)

lemma append_sent_unique:
  "pre @ x # post = a @ x # b \<Longrightarrow> x \<notin> set a \<Longrightarrow> x \<notin> set b \<Longrightarrow> pre = a \<and> post = b"
  by (metis append_Cons_eq_iff in_set_conv_decomp)

text \<open>
  C12. The console password leaves the host at most once, and only as the answer to a password
  prompt: whenever the bytes of the password line are sent, what the device has sent since
  the previous message ends with the configured password prompt, and they are not sent again.
\<close>

theorem login_password_safe:
  assumes run: "prepare_console (recorded_channel ch) (outer_runtime rt) cfg connect_timeout (w, [])
      = Some (r, (w', evs))"
    and p: "cc_password cfg = Some p" "p \<noteq> []" "utf8_encode (p @ [13]) = Inr pw"
    and differs: "cc_username cfg \<noteq> Some p" "p \<noteq> lit ''export PS1='' @ shlex_quote (cc_prompt cfg)"
    and at: "evs = pre @ Sent pw # post"
  shows "suffix (cc_password_prompt cfg) (heard pre) \<and> Sent pw \<notin> set pre \<and> Sent pw \<notin> set post"
proof -
  have other: "utf8_encode (t @ [13]) \<noteq> Inr pw" if "t \<noteq> p" for t
    using that utf8_encode_inj [OF p(3)] by blast
  have "utf8_encode [13] = Inr [13]" by (simp add: encode_ascii ascii_def byte_def)
  with other [of "[]"] p(2) have cr: "pw \<noteq> [13]" by auto
  from io_postD [OF prepare_login_log run] obtain l1 l2 l3 where
    l1: "exchange [13] [] l1"
    and l2: "l2 = l1 \<or> (\<exists>u. cc_username cfg = Some u \<and> maybe_sent (u @ [13]) l1 l2)"
    and l3: "l3 = l2 \<or> suffix (cc_password_prompt cfg) (heard l2) \<and> maybe_sent (p @ [13]) l2 l3"
    and last: "maybe_sent (lit ''export PS1='' @ shlex_quote (cc_prompt cfg) @ [13]) l3 evs"
    using p(1) by (auto simp: login_log_def)
  have n1: "Sent pw \<notin> set l1" using l1 cr by (auto simp: exchange_def)
  obtain x where x: "l2 = l1 @ x" "Sent pw \<notin> set x"
    using l2 other differs(1) by (metis append_Nil2 empty_iff empty_set maybe_sent_part part_of_not_sent)
  obtain y where y: "l3 = l2 @ y" "y = [] \<or> suffix (cc_password_prompt cfg) (heard l2)" "part_of (p @ [13]) y"
  proof (cases "l3 = l2")
    case True
    with that [of "[]"] show thesis by (simp add: part_of_def)
  next
    case False
    with l3 maybe_sent_part [of "p @ [13]" l2 l3] that show thesis by auto
  qed
  obtain z where z: "evs = l3 @ z" "Sent pw \<notin> set z"
  proof -
    have "utf8_encode (lit ''export PS1='' @ shlex_quote (cc_prompt cfg) @ [13]) \<noteq> Inr pw"
      using other [of "lit ''export PS1='' @ shlex_quote (cc_prompt cfg)"] differs(2) by simp
    with maybe_sent_part [OF last] part_of_not_sent that show thesis by blast
  qed
  show ?thesis
  proof (cases y)
    case Nil
    have "Sent pw \<in> set evs" using at by simp
    with n1 x y(1) z Nil show ?thesis by auto
  next
    case (Cons e cs)
    with y(3) p(3) obtain ds where "y = Sent pw # map Received ds" by (auto simp: part_of_def)
    with at y(1) z(1) have "pre @ Sent pw # post = l2 @ Sent pw # (map Received ds @ z)" by simp
    then have "pre = l2 \<and> post = map Received ds @ z"
      by (rule append_sent_unique) (use n1 x z in auto)
    with y(2) Cons n1 x z show ?thesis by auto
  qed
qed

definition login_script :: "bytes list" where
  "login_script = [blit ''Password: '', blit ''HW> '']"

lemma recorded_script_ops:
  "ch_sendall (recorded_channel scripted_channel) bs (cs, l) = Some (Inr (), (cs, l @ [Sent bs]))"
  "ch_recv_ready (recorded_channel scripted_channel) (cs, l) = Some (Inr (cs \<noteq> []), (cs, l))"
  "ch_recv (recorded_channel scripted_channel) n (cs, l) = Some (Inr (hd cs), (tl cs, l @ [Received (hd cs)]))"
  "rt_monotonic (outer_runtime frozen_runtime) wl = Some (Inr 0, wl)"
  by (cases wl; simp add: recorded_channel_def outer_runtime_def io_bind_def outer_def inner_def
      run_simps script_ops)+

lemma script_read:
  assumes "marker_found ms c = Some (Inr m)"
  shows "read_until_any (recorded_channel scripted_channel) (outer_runtime frozen_runtime) cfg ms 5 t b
    (c # cs, l) = Some (Inr m, (cs, l @ [Received c]))"
proof -
  have "delivers (recorded_channel scripted_channel) (outer_runtime frozen_runtime) 5 (c # cs, l) [c]
      (cs, l @ [Received c])"
    by (rule delivers.last [of "outer_runtime frozen_runtime" "(c # cs, l)" 0 "(c # cs, l)" _ _ "(c # cs, l)"])
      (simp_all add: recorded_script_ops)
  from poll_loop_complete [OF this] assms show ?thesis
    by (simp add: read_until_any_def io_bind_def recorded_script_ops)
qed

lemma decode_normalized_ascii:
  assumes "list_all (\<lambda>c. c < 128 \<and> c \<noteq> 13) t"
  shows "decode_normalized (map byte t) = t"
proof -
  have "13 \<notin> set (map byte t)" using assms byte_eq_iff [of 13] by (auto simp: list_all_iff byte_def)
  from unix_lines_plain [OF this, of "[]"] have "normalize_bytes (map byte t) = map byte t"
    by (simp add: normalize_unix_lines)
  moreover have "utf8_encode t = Inr (map byte t)"
    using assms by (intro encode_ascii) (auto simp: ascii_def list_all_iff)
  ultimately show ?thesis by (simp add: decode_normalized_def decode_replace_encode)
qed

lemma login_script_markers:
  "marker_found (console_markers example_console) (blit ''Password: '') = Some (Inr (lit ''Password: ''))"
  "marker_found (console_markers example_console) (blit ''HW> '') = Some (Inr (lit ''HW> ''))"
  "utf8_encode (lit ''pw'' @ [13]) = Inr (blit ''pw'' @ [13])"
proof -
  have "decode_normalized (blit ''Password: '') = lit ''Password: ''"
    "decode_normalized (blit ''HW> '') = lit ''HW> ''"
    unfolding blit_byte by (rule decode_normalized_ascii; code_simp)+
  moreover have "find (\<lambda>m. suffix m (lit ''Password: '')) (console_markers example_console) = Some (lit ''Password: '')"
    "find (\<lambda>m. suffix m (lit ''HW> '')) (console_markers example_console) = Some (lit ''HW> '')"
    by code_simp+
  ultimately show
    "marker_found (console_markers example_console) (blit ''Password: '') = Some (Inr (lit ''Password: ''))"
    "marker_found (console_markers example_console) (blit ''HW> '') = Some (Inr (lit ''HW> ''))"
    by (simp_all add: marker_found_def)
  have "ascii (lit ''pw'' @ [13])" by code_simp
  then show "utf8_encode (lit ''pw'' @ [13]) = Inr (blit ''pw'' @ [13])"
    by (simp add: encode_ascii blit_byte byte_def)
qed

lemma login_script_run:
  "prepare_console (recorded_channel scripted_channel) (outer_runtime frozen_runtime) example_console 5
     (login_script, [])
   = Some (Inr (), ([], [Sent [13], Received (blit ''Password: ''), Sent (blit ''pw'' @ [13]),
       Received (blit ''HW> '')]))"
proof -
  have cfg: "cc_prompt example_console = lit ''HW> ''" "cc_login_prompt example_console = lit ''login: ''"
    "cc_password_prompt example_console = lit ''Password: ''" "cc_password example_console = Some (lit ''pw'')"
    "cc_initial_prompt_suffix example_console = lit ''# ''"
    by (simp_all add: example_console_def)
  show ?thesis
    by (simp add: prepare_console_def login_script_def io_bind_def recorded_script_ops
        read_console_state_def script_read login_script_markers username_stage_def password_stage_def
        prompt_stage_def cfg send_console_password_def send_text_def run_simps returning_def)
qed

theorem login_password_safe_witness:
  "suffix (lit ''Password: '') (heard [Sent [13], Received (blit ''Password: '')])"
proof -
  have "lit ''pw'' \<noteq> lit ''export PS1='' @ shlex_quote (cc_prompt example_console)"
    by (simp add: lit_def)
  then show ?thesis
    using login_password_safe [OF login_script_run, of "lit ''pw''" "blit ''pw'' @ [13]"
        "[Sent [13], Received (blit ''Password: '')]" "[Received (blit ''HW> '')]"]
      login_script_markers(3)
    by (simp add: example_console_def)
qed

section \<open>Sessions come back\<close>

text \<open>
  A channel and a runtime on which time passes: every operation returns, \<^verbatim>\<open>time.monotonic()\<close>
  reads a clock that does not go back, and receiving or sleeping takes at least \<open>tick\<close>.
\<close>

definition timely ::
  "('w \<Rightarrow> bool) \<Rightarrow> ('w \<Rightarrow> rat) \<Rightarrow> rat \<Rightarrow> 'w console_channel \<Rightarrow> 'w runtime \<Rightarrow> bool" where
  "timely I clock tick ch rt \<longleftrightarrow> 0 < tick \<and>
     io_total I (ch_closed ch) \<and> (\<forall>s. io_total I (ch_sendall ch s)) \<and> io_total I (rt_uuid4_hex rt) \<and>
     io_total I (rt_sleep rt poll_interval) \<and> io_total I (ch_recv ch 65535) \<and>
     io_total I (ch_recv_ready ch) \<and> io_total I (ch_exit_status_ready ch) \<and>
     (\<forall>w. I w \<longrightarrow> (\<exists>w'. rt_monotonic rt w = Some (Inr (clock w), w') \<and> I w' \<and> clock w \<le> clock w')) \<and>
     (\<forall>w r w'. ch_recv_ready ch w = Some (r, w') \<longrightarrow> clock w \<le> clock w') \<and>
     (\<forall>w r w'. ch_exit_status_ready ch w = Some (r, w') \<longrightarrow> clock w \<le> clock w') \<and>
     (\<forall>w r w'. ch_recv ch 65535 w = Some (r, w') \<longrightarrow> clock w + tick \<le> clock w') \<and>
     (\<forall>w r w'. rt_sleep rt poll_interval w = Some (r, w') \<longrightarrow> clock w + tick \<le> clock w')"

lemma timely_total:
  assumes "timely I clock tick ch rt"
  shows "io_total I (ch_closed ch)" "io_total I (ch_sendall ch s)" "io_total I (rt_uuid4_hex rt)"
    "io_total I (rt_sleep rt poll_interval)" "io_total I (ch_recv ch 65535)" "io_total I (ch_recv_ready ch)"
    "io_total I (ch_exit_status_ready ch)" "io_total I (rt_monotonic rt)"
  using assms by (auto simp: timely_def io_total_def)

lemma poll_step_total:
  assumes "timely I clock tick ch rt"
  shows "io_total I (poll_step ch rt found ended expired deadline buffer)"
  unfolding poll_step_def using assms
  by (intro io_rules timely_total) (auto intro!: io_rules split: option.split)

lemma poll_step_time:
  assumes t: "timely I clock tick ch rt" and w: "I w"
    and step: "poll_step ch rt found ended expired deadline buffer w = Some (Inr (Inl b'), w')"
  shows "clock w < deadline \<and> clock w + tick \<le> clock w'"
proof -
  from t w obtain v where v: "rt_monotonic rt w = Some (Inr (clock w), v)" "clock w \<le> clock v"
    unfolding timely_def by blast
  from step show ?thesis
  proof (cases rule: poll_step_cases)
    case (wait now w1 w2 w3 u)
    with t v have "clock w1 \<le> clock w2" "clock w2 \<le> clock w3" "clock w3 + tick \<le> clock w'"
      by (auto simp: timely_def)
    with v wait show ?thesis by auto
  next
    case (chunk now w1 w2 c)
    with t v have "clock w1 \<le> clock w2" "clock w2 + tick \<le> clock w'" by (auto simp: timely_def)
    with v chunk show ?thesis by auto
  qed auto
qed

lemma poll_loop_total:
  assumes t: "timely I clock tick ch rt"
  shows "io_total I (poll_loop ch rt found ended expired deadline)"
proof -
  define m where "m b w = nat \<lceil>(deadline - clock w) / tick\<rceil>" for b :: bytes and w
  have tick: "0 < tick" using t by (simp add: timely_def)
  let ?step = "poll_step ch rt found ended expired deadline"
  have "\<exists>y w'. ?step b w = Some (y, w') \<and> (\<forall>b'. y = Inr (Inl b') \<longrightarrow> I w' \<and> m b' w' < m b w)"
    if w: "I w" for b w
  proof -
    from io_totalD [OF poll_step_total [OF t] w] obtain y w' where y: "?step b w = Some (y, w')" "I w'"
      by blast
    have "m b' w' < m b w" if "y = Inr (Inl b')" for b'
    proof -
      have "clock w < deadline" "clock w + tick \<le> clock w'"
        using poll_step_time [OF t w, of found ended expired deadline b b' w'] y(1) that by simp_all
      then have pos: "0 < (deadline - clock w) / tick"
        and "(deadline - clock w') / tick \<le> (deadline - clock w - tick) / tick"
        using tick by (auto intro: divide_right_mono)
      then have le: "(deadline - clock w') / tick \<le> (deadline - clock w) / tick - 1"
        using tick by (simp add: diff_divide_distrib)
      from le have "\<lceil>(deadline - clock w') / tick\<rceil> \<le> \<lceil>(deadline - clock w) / tick\<rceil> - 1"
        by (metis ceiling_diff_one ceiling_mono)
      with pos show ?thesis by (simp add: m_def nat_less_eq_zless zless_nat_eq_int_zless)
    qed
    with y show ?thesis by blast
  qed
  then have "\<exists>z. io_loop ?step [] w = Some z" if "I w" for w
    using that by (intro io_loop_returns [where J = "\<lambda>_. I" and m = m]) auto
  moreover have "io_keeps I (io_loop ?step [])"
    by (intro io_keeps_loop io_total_keeps poll_step_total [OF t])
  ultimately show ?thesis unfolding poll_loop_def by (rule io_total_of_keeps)
qed

lemma read_until_any_total:
  "timely I clock tick ch rt \<Longrightarrow> io_total I (read_until_any ch rt cfg ms tmo c b)"
  unfolding read_until_any_def by (intro io_rules timely_total poll_loop_total)

lemma send_text_total: "timely I clock tick ch rt \<Longrightarrow> io_total I (send_text ch t)"
  unfolding send_text_def by (intro io_rules timely_total)

text \<open>
  C28. Logging in and executing a command come back, with a result or an exception, whenever
  time passes: no answer of the device, no stream of bytes and no silence keeps a session
  polling for ever.
\<close>

theorem console_returns:
  assumes t: "timely I clock tick ch rt" and w: "I w"
  shows "(\<exists>z. prepare_console ch rt cfg connect_timeout w = Some z) \<and>
    (\<exists>z. execute_console ch rt cfg command_timeout text' timeout w = Some z)"
proof -
  have "io_total I (prepare_console ch rt cfg connect_timeout)"
    unfolding prepare_console_def username_stage_def password_stage_def prompt_stage_def
      read_console_state_def send_console_username_def send_console_password_def using t
    by (intro io_rules timely_total send_text_total read_until_any_total)
      (auto split: option.split intro!: io_rules send_text_total)
  moreover have "io_total I (execute_console ch rt cfg command_timeout text' timeout)"
    unfolding execute_console_def read_command_response_def Let_def case_prod_unfold using t
    by (intro io_rules timely_total send_text_total poll_loop_total)
  ultimately show ?thesis using w by (auto dest: io_totalD)
qed

text \<open>A silent line, whose world is the time.\<close>

definition silent_channel :: "rat console_channel" where
  "silent_channel = \<lparr>ch_closed = returning False, ch_sendall = (\<lambda>_. returning ()),
     ch_recv_ready = returning False, ch_recv = (\<lambda>_ t. Some (Inr [], t + 1)),
     ch_exit_status_ready = returning False\<rparr>"

definition wall_clock :: "rat runtime" where
  "wall_clock = \<lparr>rt_monotonic = reading id, rt_sleep = (\<lambda>d. modifying ((+) d)),
     rt_uuid4_hex = returning [97]\<rparr>"

theorem console_returns_witness:
  "\<exists>z. prepare_console silent_channel wall_clock example_console 5 0 = Some z"
proof -
  have "timely (\<lambda>_. True) id (1 / 100) silent_channel wall_clock"
    by (auto simp: timely_def silent_channel_def wall_clock_def io_total_def run_simps poll_interval_def)
  from console_returns [OF this] show ?thesis by simp
qed

end
