(* ===== verification/Paramiko.thy ===== *)
theory Paramiko
  imports Console
begin

text \<open>
  The operations of Paramiko the transports call, and the host-key set-up they share
  (\<^verbatim>\<open>src/hardware_test/transport/host_keys.py\<close>). Paramiko is a parameter: a record of
  effectful operations on handles, over a world the transports do not see into.
\<close>

datatype missing_key_policy = RejectPolicy | AutoAddPolicy | WarningPolicy

record 'w paramiko =
  pk_client :: "('w, nat) io"                                  \<comment> \<open>\<^verbatim>\<open>SSHClient()\<close>\<close>
  pk_load_system_host_keys :: "nat \<Rightarrow> ('w, unit) io"
  pk_load_host_keys :: "nat \<Rightarrow> ppath \<Rightarrow> ('w, unit) io"
  pk_set_missing_host_key_policy :: "nat \<Rightarrow> missing_key_policy \<Rightarrow> ('w, unit) io"
  pk_connect :: "nat \<Rightarrow> pystr \<Rightarrow> int \<Rightarrow> pystr \<Rightarrow> pystr \<Rightarrow> rat \<Rightarrow> ('w, unit) io"
  pk_close :: "nat \<Rightarrow> ('w, unit) io"
  pk_exec_command :: "nat \<Rightarrow> pystr \<Rightarrow> rat \<Rightarrow> ('w, nat) io"     \<comment> \<open>the triple of streams\<close>
  pk_stdout_read :: "nat \<Rightarrow> ('w, bytes) io"
  pk_stderr_read :: "nat \<Rightarrow> ('w, bytes) io"
  pk_recv_exit_status :: "nat \<Rightarrow> ('w, int) io"
  pk_get_transport :: "nat \<Rightarrow> ('w, nat option) io"
  pk_is_active :: "nat \<Rightarrow> ('w, bool) io"
  pk_open_session :: "nat \<Rightarrow> rat \<Rightarrow> ('w, nat) io"
  pk_get_pty :: "nat \<Rightarrow> ('w, unit) io"
  pk_channel_exec :: "nat \<Rightarrow> pystr \<Rightarrow> ('w, unit) io"
  pk_channel :: "nat \<Rightarrow> 'w console_channel"                    \<comment> \<open>the channel's byte operations\<close>
  pk_channel_close :: "nat \<Rightarrow> ('w, unit) io"
  pk_expanduser :: "ppath \<Rightarrow> ppath"

definition configure_host_key_policy ::
  "'w paramiko \<Rightarrow> nat \<Rightarrow> host_key_policy \<Rightarrow> ppath option \<Rightarrow> ('w, unit) io" where
  "configure_host_key_policy pk client policy known_hosts_path =
     io_then (pk_load_system_host_keys pk client)
     (io_then
       (case known_hosts_path of
          None \<Rightarrow> returning ()
        | Some p \<Rightarrow>
            let path = pk_expanduser pk p in
            try_except (pk_load_host_keys pk client path) (\<lambda>e.
              if caught_by e PyOSError
              then raising (Exn TransportError [Txt (lit ''Cannot load SSH known-hosts file: ''),
                Txt (path_str path)])
              else raising e))
       (case policy of
          REJECT \<Rightarrow> pk_set_missing_host_key_policy pk client RejectPolicy
        | ACCEPT_NEW \<Rightarrow>
            if known_hosts_path = None
            then raising (Exn TransportError [Txt (lit ''SSH host-key policy ''),
              quoted (lit ''accept_new''), Txt (lit '' requires ssh_known_hosts_path'')])
            else pk_set_missing_host_key_policy pk client AutoAddPolicy
        | WARN \<Rightarrow> pk_set_missing_host_key_policy pk client WarningPolicy))"

text \<open>\<^verbatim>\<open>client.connect(...)\<close> with the resolved connection data.\<close>

definition connect_client :: "'w paramiko \<Rightarrow> nat \<Rightarrow> ssh_connection \<Rightarrow> rat \<Rightarrow> ('w, unit) io" where
  "connect_client pk client ssh connect_timeout =
     pk_connect pk client (sc_host ssh) (sc_port ssh) (sc_username ssh) (sc_password ssh) connect_timeout"

end
