(* ===== verification/Transports.thy ===== *)
theory Transports
  imports Paramiko Factory
begin

text \<open>
  The transports of \<^verbatim>\<open>src/hardware_test/transport\<close>: SSH (\<^verbatim>\<open>ssh.py\<close>), picocom over SSH
  (\<^verbatim>\<open>picocom_over_ssh.py\<close>) and the local serial port (\<^verbatim>\<open>pyserial.py\<close>). A transport works on
  the world of its libraries paired with its own fields; the fields are handles of what it
  holds open. The locale \<open>transport_contract\<close> is what a device may rely on.
\<close>

section \<open>Fields and contract\<close>

text \<open>The \<^verbatim>\<open>_client\<close>, \<^verbatim>\<open>_channel\<close> and \<^verbatim>\<open>_console\<close> fields (the console session has no state of its
  own); a class without one of the fields leaves it alone.\<close>

record fields_state =
  f_client :: "nat option"
  f_channel :: "nat option"
  f_console :: bool

definition disconnected :: fields_state where
  "disconnected = \<lparr>f_client = None, f_channel = None, f_console = False\<rparr>"

locale transport_contract =
  fixes connect :: "('w \<times> fields_state, unit) io"
    and close :: "('w \<times> fields_state, unit) io"
    and execute :: "command \<Rightarrow> ('w \<times> fields_state, command_result) io"
    and supported :: "command \<Rightarrow> bool"
    and holds :: "fields_state \<Rightarrow> bool"
    and quiet :: bool
  assumes connect_holds: "connect (w, s) = Some (Inr u, (w', s')) \<Longrightarrow> holds s'"
    and connect_failed: "quiet \<Longrightarrow> \<not> holds s \<Longrightarrow> connect (w, s) = Some (Inl e, (w', s')) \<Longrightarrow> \<not> holds s'"
    and close_releases: "close (w, s) = Some (Inr u, (w', s')) \<Longrightarrow> \<not> holds s'"
    and close_idle: "\<not> holds s \<Longrightarrow> \<exists>s'. close (w, s) = Some (Inr (), (w, s'))"
    and execute_unsupported: "\<not> supported c \<Longrightarrow>
      \<exists>m. execute c ws = Some (Inl (Exn UnsupportedCommandError m), ws)"
    and execute_idle: "supported c \<Longrightarrow> \<not> holds s \<Longrightarrow>
      \<exists>m s'. execute c (w, s) = Some (Inl (Exn PyRuntimeError m), (w, s')) \<and> \<not> holds s'"
begin

lemma close_twice: "close (w, s) = Some (Inr u, (w', s')) \<Longrightarrow> \<exists>s''. close (w', s') = Some (Inr (), (w', s''))"
  by (rule close_idle) (rule close_releases)

lemma execute_after_failed_connect:
  assumes quiet and "\<not> holds s" and "connect (w, s) = Some (Inl e, (w', s'))" and "supported c"
  shows "\<exists>m s''. execute c (w', s') = Some (Inl (Exn PyRuntimeError m), (w', s''))"
  using execute_idle [OF assms(4) connect_failed [OF assms(1-3)]] by blast

lemma execute_after_close:
  assumes "close (w, s) = Some (Inr u, (w', s'))" and "supported c"
  shows "\<exists>m s''. execute c (w', s') = Some (Inl (Exn PyRuntimeError m), (w', s''))"
  using execute_idle [OF assms(2) close_releases [OF assms(1)]] by blast

end

definition unsupported :: "string \<Rightarrow> command \<Rightarrow> exn" where
  "unsupported name c = Exn UnsupportedCommandError
     [Txt (lit name), Txt (lit '' does not support ''), Txt (class_name c)]"

text \<open>Reading and writing the fields.\<close>

definition get_field :: "(fields_state \<Rightarrow> 'a) \<Rightarrow> ('w \<times> fields_state, 'a) io" where
  "get_field f = inner (reading f)"

definition set_fields :: "(fields_state \<Rightarrow> fields_state) \<Rightarrow> ('w \<times> fields_state, unit) io" where
  "set_fields f = inner (modifying f)"

lemma run_fields [io_simps]:
  "get_field f (w, s) = Some (Inr (f s), (w, s))"
  "set_fields g (w, s) = Some (Inr (), (w, g s))"
  by (simp_all add: get_field_def set_fields_def inner_def run_simps)

lemma fields_Some [io_cases]:
  "get_field f ws = Some (r, ws') \<longleftrightarrow> r = Inr (f (snd ws)) \<and> ws' = ws"
  "set_fields g ws = Some (q, ws') \<longleftrightarrow> q = Inr () \<and> ws' = (fst ws, g (snd ws))"
  by (cases ws; auto simp: run_fields)+

section \<open>SSH\<close>

definition ssh_connect :: "'w paramiko \<Rightarrow> ssh_connection \<Rightarrow> rat \<Rightarrow> ('w \<times> fields_state, unit) io" where
  "ssh_connect pk ssh connect_tmo =
     io_bind (get_field f_client) (\<lambda>open'.
     if open' \<noteq> None then returning ()
     else
       io_bind (outer (pk_client pk)) (\<lambda>client.
       io_then (outer (configure_host_key_policy pk client (sc_host_key_policy ssh)
         (sc_known_hosts_path ssh)))
       (io_then (outer (connect_client pk client ssh connect_tmo))
         (set_fields (\<lambda>s. s\<lparr>f_client := Some client\<rparr>)))))"

definition ssh_close :: "'w paramiko \<Rightarrow> ('w \<times> fields_state, unit) io" where
  "ssh_close pk =
     io_bind (get_field f_client) (\<lambda>client.
     case client of
       None \<Rightarrow> returning ()
     | Some c \<Rightarrow> io_then (outer (pk_close pk c)) (set_fields (\<lambda>s. s\<lparr>f_client := None\<rparr>)))"

definition timeout_or :: "rat option \<Rightarrow> rat \<Rightarrow> rat" where
  "timeout_or t d = (case t of Some x \<Rightarrow> x | None \<Rightarrow> d)"

definition ssh_execute :: "'w paramiko \<Rightarrow> rat \<Rightarrow> command \<Rightarrow> ('w \<times> fields_state, command_result) io" where
  "ssh_execute pk command_tmo command =
     (if \<not> is_text_command command then raising (unsupported ''SSHTransport'' command)
      else
        io_bind (get_field f_client) (\<lambda>client.
        case client of
          None \<Rightarrow> raising (raise_txt PyRuntimeError ''SSH transport is not connected'')
        | Some c \<Rightarrow>
            (case command_text command of
               None \<Rightarrow> raising (raise_txt PyTypeError ''query must be str'')
             | Some t \<Rightarrow> outer
                 (io_bind (pk_exec_command pk c t (timeout_or (cmd_timeout command) command_tmo)) (\<lambda>h.
                  io_bind (pk_stdout_read pk h) (\<lambda>out.
                  io_bind (lifting (utf8_decode out)) (\<lambda>out_text.
                  io_bind (pk_stderr_read pk h) (\<lambda>err.
                  io_bind (lifting (utf8_decode err)) (\<lambda>err_text.
                  io_bind (pk_recv_exit_status pk h) (\<lambda>code.
                  returning \<lparr>stdout = out_text, stderr = err_text, exit_code = code\<rparr>))))))))))"

section \<open>Picocom over SSH\<close>

definition verify_serial_device ::
  "'w paramiko \<Rightarrow> nat \<Rightarrow> pystr \<Rightarrow> rat \<Rightarrow> ('w, unit) io" where
  "verify_serial_device pk client serial_device connect_tmo =
     (let path = shlex_quote serial_device;
          command = lit ''test -c '' @ path @ lit '' && test -r '' @ path @ lit '' && test -w '' @ path
      in
        io_bind (pk_exec_command pk client command connect_tmo) (\<lambda>h.
        io_bind (pk_recv_exit_status pk h) (\<lambda>code.
        if code \<noteq> 0 then
          io_bind (pk_stderr_read pk h) (\<lambda>err.
            let detail = strip (utf8_decode_replace err) in
            raising (Exn TransportError ([Txt (lit ''Serial device is unavailable: ''),
              Txt serial_device] @ (if detail \<noteq> [] then [Txt (lit '': ''), Txt detail] else []))))
        else returning ())))"

definition picocom_command :: "pystr \<Rightarrow> int \<Rightarrow> pystr" where
  "picocom_command serial_device baudrate =
     lit ''picocom --quiet --baud '' @ int_text baudrate @ lit '' '' @ shlex_quote serial_device"

definition console_session ::
  "'w paramiko \<Rightarrow> ('w \<times> fields_state, nat) io" where
  \<comment> \<open>\<^verbatim>\<open>_console_session\<close>: the channel of the session\<close>
  "console_session pk =
     io_bind (get_field f_channel) (\<lambda>channel.
     case channel of
       None \<Rightarrow> raising (raise_txt PyRuntimeError ''Picocom-over-SSH transport is not connected'')
     | Some c \<Rightarrow>
         io_bind (outer (ch_closed (pk_channel pk c))) (\<lambda>closed.
         if closed
         then raising (raise_txt PyRuntimeError ''Picocom-over-SSH transport is not connected'')
         else io_then (set_fields (\<lambda>s. s\<lparr>f_console := True\<rparr>)) (returning c)))"

definition picocom_open ::
  "'w paramiko \<Rightarrow> 'w runtime \<Rightarrow> nat \<Rightarrow> ssh_connection \<Rightarrow> pystr \<Rightarrow> int \<Rightarrow> console_session_config \<Rightarrow> rat
     \<Rightarrow> ('w \<times> fields_state, unit) io" where
  \<comment> \<open>the body of the \<^verbatim>\<open>try\<close> of \<^verbatim>\<open>connect\<close>\<close>
  "picocom_open pk rt client ssh serial_device baudrate console connect_tmo =
     io_then (outer (connect_client pk client ssh connect_tmo))
     (io_then (outer (verify_serial_device pk client serial_device connect_tmo))
     (io_bind (outer (pk_get_transport pk client)) (\<lambda>transport.
      io_bind (case transport of None \<Rightarrow> returning False | Some t \<Rightarrow> outer (pk_is_active pk t)) (\<lambda>active.
      if \<not> active
      then raising (raise_txt TransportError ''SSH connection became inactive before picocom started'')
      else
        io_bind (outer (pk_open_session pk (the transport) connect_tmo)) (\<lambda>channel.
        io_then (outer (pk_get_pty pk channel))
        (io_then (outer (pk_channel_exec pk channel (picocom_command serial_device baudrate)))
        (io_then (set_fields (\<lambda>s. s\<lparr>f_client := Some client, f_channel := Some channel\<rparr>))
        (io_bind (console_session pk) (\<lambda>c.
           outer (prepare_console (pk_channel pk c) rt console connect_tmo))))))))))"

definition abandon_connect :: "(nat \<Rightarrow> ('w, unit) io) \<Rightarrow> ('w, unit) io \<Rightarrow> ('w \<times> fields_state, unit) io" where
  \<comment> \<open>the \<^verbatim>\<open>except\<close> clause of \<^verbatim>\<open>connect\<close>, of how a channel and the client are closed\<close>
  "abandon_connect close_channel close_client =
     io_bind (get_field f_channel) (\<lambda>channel.
     io_then (case channel of None \<Rightarrow> returning () | Some c \<Rightarrow> outer (close_channel c))
     (io_then (set_fields (\<lambda>_. disconnected))
       (outer close_client)))"

definition picocom_connect ::
  "'w paramiko \<Rightarrow> 'w runtime \<Rightarrow> ssh_connection \<Rightarrow> pystr \<Rightarrow> int \<Rightarrow> console_session_config \<Rightarrow> rat
     \<Rightarrow> ('w \<times> fields_state, unit) io" where
  "picocom_connect pk rt ssh serial_device baudrate console connect_tmo =
     io_bind (get_field f_client) (\<lambda>open'.
     if open' \<noteq> None then returning ()
     else
       io_bind (outer (pk_client pk)) (\<lambda>client.
       io_then (outer (configure_host_key_policy pk client (sc_host_key_policy ssh)
         (sc_known_hosts_path ssh)))
       (try_except (picocom_open pk rt client ssh serial_device baudrate console connect_tmo)
         (\<lambda>e. io_then (abandon_connect (pk_channel_close pk) (pk_close pk client)) (raising e)))))"

definition picocom_close :: "'w paramiko \<Rightarrow> ('w \<times> fields_state, unit) io" where
  "picocom_close pk =
     io_bind (get_field (\<lambda>s. (f_channel s, f_client s))) (\<lambda>(channel, client).
     io_then (set_fields (\<lambda>_. disconnected))
     (try_finally
       (case channel of
          None \<Rightarrow> returning ()
        | Some c \<Rightarrow> outer
            (io_bind (ch_closed (pk_channel pk c)) (\<lambda>closed.
             io_then (io_when (\<not> closed) (ch_sendall (pk_channel pk c) [1, 24]))
               (pk_channel_close pk c))))
       (case client of None \<Rightarrow> returning () | Some c \<Rightarrow> outer (pk_close pk c))))"

definition execute_in_console ::
  "'w console_channel \<Rightarrow> 'w runtime \<Rightarrow> console_session_config \<Rightarrow> rat \<Rightarrow> command
     \<Rightarrow> ('w \<times> fields_state, command_result) io" where
  \<comment> \<open>\<^verbatim>\<open>LinuxConsoleSession.execute(command)\<close>\<close>
  "execute_in_console ch rt console command_tmo command =
     (case command_text command of
        None \<Rightarrow> raising (raise_txt PyTypeError ''query must be str'')
      | Some t \<Rightarrow> outer (execute_console ch rt console command_tmo t (cmd_timeout command)))"

definition picocom_execute ::
  "'w paramiko \<Rightarrow> 'w runtime \<Rightarrow> console_session_config \<Rightarrow> rat \<Rightarrow> command
     \<Rightarrow> ('w \<times> fields_state, command_result) io" where
  "picocom_execute pk rt console command_tmo command =
     (if \<not> is_unix_command command then raising (unsupported ''PicocomOverSshTransport'' command)
      else
        io_bind (console_session pk) (\<lambda>c.
          execute_in_console (pk_channel pk c) rt console command_tmo command))"

section \<open>The local serial port\<close>

text \<open>pyserial, a parameter; \<^verbatim>\<open>exclusive=True\<close> and \<^verbatim>\<open>timeout=0.0\<close> are constants of every call.\<close>

record 'w pyserial =
  sl_open :: "pystr \<Rightarrow> int \<Rightarrow> rat \<Rightarrow> ('w, nat) io"
  sl_is_open :: "nat \<Rightarrow> ('w, bool) io"
  sl_in_waiting :: "nat \<Rightarrow> ('w, int) io"
  sl_read :: "nat \<Rightarrow> int \<Rightarrow> ('w, bytes) io"
  sl_write :: "nat \<Rightarrow> bytes \<Rightarrow> ('w, int option) io"
  sl_close :: "nat \<Rightarrow> ('w, unit) io"

definition serial_errors_as :: "string \<Rightarrow> ('w, 'a) io \<Rightarrow> ('w, 'a) io" where
  \<comment> \<open>\<^verbatim>\<open>except (serial.SerialException, OSError) as error: raise TransportError(...)\<close>\<close>
  "serial_errors_as m body = try_except body (\<lambda>e.
     if caught_by e SerialException \<or> caught_by e PyOSError
     then raising (raise_txt TransportError m) else raising e)"

definition write_step :: "'w pyserial \<Rightarrow> nat \<Rightarrow> bytes \<Rightarrow> ('w, bytes + unit) io" where
  "write_step sl c view =
     (if view = [] then returning (Inr ())
      else
        io_bind (sl_write sl c view) (\<lambda>written.
        case written of
          None \<Rightarrow> raising (raise_txt TransportError ''Serial write completed without progress'')
        | Some n \<Rightarrow>
            if n \<le> 0
            then raising (raise_txt TransportError ''Serial write completed without progress'')
            else returning (Inl (drop (nat n) view))))"

definition serial_sendall :: "'w pyserial \<Rightarrow> nat \<Rightarrow> bytes \<Rightarrow> ('w, unit) io" where
  "serial_sendall sl c s = serial_errors_as ''Serial write failed'' (io_loop (write_step sl c) s)"

definition serial_recv_ready :: "'w pyserial \<Rightarrow> nat \<Rightarrow> ('w, bool) io" where
  "serial_recv_ready sl c = serial_errors_as ''Serial input status failed''
     (io_bind (sl_in_waiting sl c) (\<lambda>n. returning (0 < n)))"

definition serial_recv :: "'w pyserial \<Rightarrow> nat \<Rightarrow> nat \<Rightarrow> ('w, bytes) io" where
  "serial_recv sl c nbytes = serial_errors_as ''Serial read failed''
     (io_bind (sl_in_waiting sl c) (\<lambda>n. sl_read sl c (min (int nbytes) n)))"

definition serial_closed :: "'w pyserial \<Rightarrow> nat \<Rightarrow> ('w, bool) io" where
  "serial_closed sl c = io_bind (sl_is_open sl c) (\<lambda>b. returning (\<not> b))"

definition serial_close :: "'w pyserial \<Rightarrow> nat \<Rightarrow> ('w, unit) io" where
  "serial_close sl c = serial_errors_as ''Serial close failed'' (sl_close sl c)"

definition pyserial_channel :: "'w pyserial \<Rightarrow> nat \<Rightarrow> 'w console_channel" where
  "pyserial_channel sl c = \<lparr>ch_closed = serial_closed sl c, ch_sendall = serial_sendall sl c,
     ch_recv_ready = serial_recv_ready sl c, ch_recv = serial_recv sl c,
     ch_exit_status_ready = serial_closed sl c\<rparr>"

definition pyserial_close :: "'w pyserial \<Rightarrow> ('w \<times> fields_state, unit) io" where
  "pyserial_close sl =
     io_bind (get_field f_channel) (\<lambda>channel.
     io_then (set_fields (\<lambda>s. s\<lparr>f_channel := None, f_console := False\<rparr>))
       (case channel of None \<Rightarrow> returning () | Some c \<Rightarrow> outer (serial_close sl c)))"

definition pyserial_open ::
  "'w pyserial \<Rightarrow> 'w runtime \<Rightarrow> pystr \<Rightarrow> int \<Rightarrow> console_session_config \<Rightarrow> rat \<Rightarrow> rat
     \<Rightarrow> ('w \<times> fields_state, unit) io" where
  \<comment> \<open>the body of the \<^verbatim>\<open>try\<close> of \<^verbatim>\<open>connect\<close>\<close>
  "pyserial_open sl rt serial_device baudrate console connect_tmo command_tmo =
     io_bind (outer (sl_open sl serial_device baudrate command_tmo)) (\<lambda>c.
     io_then (set_fields (\<lambda>s. s\<lparr>f_channel := Some c, f_console := True\<rparr>))
       (outer (prepare_console (pyserial_channel sl c) rt console connect_tmo)))"

definition pyserial_connect ::
  "'w pyserial \<Rightarrow> 'w runtime \<Rightarrow> pystr \<Rightarrow> int \<Rightarrow> console_session_config \<Rightarrow> rat \<Rightarrow> rat
     \<Rightarrow> ('w \<times> fields_state, unit) io" where
  "pyserial_connect sl rt serial_device baudrate console connect_tmo command_tmo =
     io_bind (get_field f_channel) (\<lambda>channel.
     io_bind (case channel of None \<Rightarrow> returning True | Some c \<Rightarrow> outer (serial_closed sl c)) (\<lambda>closed.
     if \<not> closed then returning ()
     else
       try_except (pyserial_open sl rt serial_device baudrate console connect_tmo command_tmo) (\<lambda>e.
         io_then (pyserial_close sl)
           (if caught_by e SerialException \<or> caught_by e PyOSError
            then raising (Exn TransportError [Txt (lit ''Cannot open serial device: ''), Txt serial_device])
            else raising e))))"

definition pyserial_execute ::
  "'w pyserial \<Rightarrow> 'w runtime \<Rightarrow> console_session_config \<Rightarrow> rat \<Rightarrow> command
     \<Rightarrow> ('w \<times> fields_state, command_result) io" where
  "pyserial_execute sl rt console command_tmo command =
     (if \<not> is_unix_command command then raising (unsupported ''PySerialTransport'' command)
      else
        io_bind (get_field (\<lambda>s. (f_console s, f_channel s))) (\<lambda>(console', channel).
        case (console', channel) of
          (True, Some c) \<Rightarrow> execute_in_console (pyserial_channel sl c) rt console command_tmo command
        | _ \<Rightarrow> raising (raise_txt PyRuntimeError ''PySerial transport is not connected'')))"

section \<open>The transports keep the contract\<close>

lemma simple_Some [io_cases]:
  "returning x w = Some (r, w') \<longleftrightarrow> r = Inr x \<and> w' = w"
  "raising e w = Some (q, w') \<longleftrightarrow> q = Inl e \<and> w' = w"
  by (auto simp: run_simps)

lemma ssh_connect_result:
  assumes "ssh_connect pk ssh t (w, s) = Some (r, (w', s'))"
  shows "(\<forall>u. r = Inr u \<longrightarrow> f_client s' \<noteq> None) \<and> (\<forall>e. r = Inl e \<longrightarrow> s' = s)"
  using assms
  by (cases r) (auto simp: ssh_connect_def io_cases split: if_splits)

lemma picocom_open_client:
  assumes "picocom_open pk rt c ssh d b console t ws = Some (Inr u, ws')"
  shows "f_client (snd ws') = Some c"
  using assms
  by (auto simp: picocom_open_def console_session_def io_cases split: if_splits option.splits)

definition quiet_channels :: "'w paramiko \<Rightarrow> bool" where
  \<comment> \<open>closing a channel does not raise\<close>
  "quiet_channels pk \<longleftrightarrow> (\<forall>c w e w'. pk_channel_close pk c w \<noteq> Some (Inl e, w'))"

lemma abandon_connect_fields:
  assumes "abandon_connect close_channel close_client ws = Some (r, ws')"
    and "r = Inr u \<or> (\<forall>c w e w'. close_channel c w \<noteq> Some (Inl e, w'))"
  shows "snd ws' = disconnected"
  using assms
  by (cases r) (auto simp: abandon_connect_def io_cases split: option.splits)

lemma picocom_connect_result:
  assumes "picocom_connect pk rt ssh d b console t (w, s) = Some (r, (w', s'))"
  shows "(\<forall>u. r = Inr u \<longrightarrow> f_client s' \<noteq> None) \<and>
    (\<forall>e. r = Inl e \<longrightarrow> quiet_channels pk \<longrightarrow> s' = s \<or> s' = disconnected)"
  using assms
  by (cases r) (auto simp: picocom_connect_def io_cases split: if_splits
      simp: quiet_channels_def dest: picocom_open_client abandon_connect_fields)

lemma pyserial_open_channel:
  assumes "pyserial_open sl rt d b console t m ws = Some (Inr u, ws')"
  shows "f_channel (snd ws') \<noteq> None"
  using assms by (auto simp: pyserial_open_def io_cases)

lemma pyserial_close_channel:
  assumes "pyserial_close sl ws = Some (r, ws')"
  shows "f_channel (snd ws') = None"
  using assms by (cases r) (auto simp: pyserial_close_def io_cases split: option.splits)

lemma pyserial_connect_result:
  assumes "pyserial_connect sl rt d b console t m (w, s) = Some (r, (w', s'))"
  shows "(\<forall>u. r = Inr u \<longrightarrow> f_channel s' \<noteq> None) \<and> (\<forall>e. r = Inl e \<longrightarrow> s' = s \<or> f_channel s' = None)"
  using assms
  by (cases r) (auto simp: pyserial_connect_def io_cases split: if_splits option.splits
      dest!: pyserial_open_channel pyserial_close_channel)

interpretation ssh: transport_contract "ssh_connect pk conf t" "ssh_close pk" "ssh_execute pk m"
  is_text_command "\<lambda>s. f_client s \<noteq> None" True
  for pk :: "'w paramiko" and conf t m
proof (unfold_locales, goal_cases)
  case (1 w s u w' s') then show ?case by (auto dest: ssh_connect_result)
next
  case (2 s w e w' s') then show ?case by (auto dest: ssh_connect_result)
next
  case (3 w s u w' s') then show ?case by (auto simp: ssh_close_def io_cases split: option.splits)
next
  case (4 s w) then show ?case by (simp add: ssh_close_def io_bind_def run_fields run_simps)
next
  case (5 c ws) then show ?case by (simp add: ssh_execute_def run_simps unsupported_def)
next
  case (6 c s w)
  then show ?case by (simp add: ssh_execute_def io_bind_def run_fields run_simps raise_txt_def)
qed

interpretation picocom: transport_contract "picocom_connect pk rt conf d b console t" "picocom_close pk"
  "picocom_execute pk rt console m" is_unix_command "\<lambda>s. f_client s \<noteq> None \<or> f_channel s \<noteq> None"
  "quiet_channels pk"
  for pk :: "'w paramiko" and rt conf d b console t m
proof (unfold_locales, goal_cases)
  case (1 w s u w' s') then show ?case by (auto dest: picocom_connect_result)
next
  case (2 s w e w' s') then show ?case by (auto dest!: picocom_connect_result simp: disconnected_def)
next
  case (3 w s u w' s')
  then show ?case by (auto simp: picocom_close_def io_cases disconnected_def split: option.splits)
next
  case (4 s w)
  then show ?case
    by (simp add: picocom_close_def io_bind_def try_finally_def run_fields run_simps)
next
  case (5 c ws) then show ?case by (simp add: picocom_execute_def run_simps unsupported_def)
next
  case (6 c s w)
  then show ?case
    by (simp add: picocom_execute_def console_session_def io_bind_def run_fields run_simps raise_txt_def)
qed

interpretation pyserial: transport_contract "pyserial_connect sl rt d b console t m" "pyserial_close sl"
  "pyserial_execute sl rt console m" is_unix_command "\<lambda>s. f_channel s \<noteq> None" True
  for sl :: "'w pyserial" and rt d b console t m
proof (unfold_locales, goal_cases)
  case (1 w s u w' s') then show ?case by (auto dest: pyserial_connect_result)
next
  case (2 s w e w' s') then show ?case by (auto dest!: pyserial_connect_result)
next
  case (3 w s u w' s') then show ?case by (auto dest: pyserial_close_channel)
next
  case (4 s w) then show ?case by (simp add: pyserial_close_def io_bind_def run_fields run_simps)
next
  case (5 c ws) then show ?case by (simp add: pyserial_execute_def run_simps unsupported_def)
next
  case (6 c s w)
  then show ?case
    by (simp add: pyserial_execute_def io_bind_def run_fields run_simps raise_txt_def split: bool.split)
qed

section \<open>What a failed connection leaves behind\<close>

lemma abandon_connect_outcome:
  assumes "abandon_connect close_channel close_client ws = Some (r, ws')"
  shows "(snd ws' = disconnected \<and> (\<exists>w1. close_client w1 = Some (r, fst ws'))) \<or>
    (\<exists>c e. f_channel (snd ws) = Some c \<and> snd ws' = snd ws \<and> r = Inl e \<and> close_channel c (fst ws) = Some (Inl e, fst ws'))"
  using assms by (cases r) (auto simp: abandon_connect_def io_cases split: option.splits)

lemma picocom_open_fields:
  assumes "picocom_open pk rt c ssh d b console t (w, disconnected) = Some (r, ws')"
  shows "f_channel (snd ws') = None \<or> f_client (snd ws') = Some c"
  using assms
  by (cases r) (auto simp: picocom_open_def console_session_def disconnected_def io_cases split: if_splits option.splits)


text \<open>A Paramiko whose clients cannot connect; the world is the number of clients closed.\<close>

definition refusing_paramiko :: "nat paramiko" where
  "refusing_paramiko = \<lparr>pk_client = returning 7, pk_load_system_host_keys = (\<lambda>_. returning ()),
     pk_load_host_keys = (\<lambda>_ _. returning ()), pk_set_missing_host_key_policy = (\<lambda>_ _. returning ()),
     pk_connect = (\<lambda>_ _ _ _ _ _. raising (raise_txt SSHException ''refused'')),
     pk_close = (\<lambda>_. modifying Suc), pk_exec_command = (\<lambda>_ _ _. returning 0),
     pk_stdout_read = (\<lambda>_. returning []), pk_stderr_read = (\<lambda>_. returning []),
     pk_recv_exit_status = (\<lambda>_. returning 0), pk_get_transport = (\<lambda>_. returning None),
     pk_is_active = (\<lambda>_. returning False), pk_open_session = (\<lambda>_ _. returning 0),
     pk_get_pty = (\<lambda>_. returning ()), pk_channel_exec = (\<lambda>_ _. returning ()),
     pk_channel = (\<lambda>_. \<lparr>ch_closed = returning True, ch_sendall = (\<lambda>_. returning ()),
       ch_recv_ready = returning False, ch_recv = (\<lambda>_. returning []),
       ch_exit_status_ready = returning True\<rparr>),
     pk_channel_close = (\<lambda>_. returning ()), pk_expanduser = id\<rparr>"

definition example_connection :: ssh_connection where
  "example_connection = \<lparr>sc_host = lit ''192.0.2.1'', sc_port = 22, sc_username = lit ''root'',
     sc_password = lit ''pw'', sc_host_key_policy = REJECT, sc_known_hosts_path = None\<rparr>"

definition idle_runtime :: "nat runtime" where
  "idle_runtime = \<lparr>rt_monotonic = returning 0, rt_sleep = (\<lambda>_. returning ()), rt_uuid4_hex = returning []\<rparr>"

definition plain_console :: console_session_config where
  "plain_console = \<lparr>cc_prompt = lit ''# '', cc_initial_prompt_suffix = lit ''$ '',
     cc_login_prompt = lit ''login: '', cc_password_prompt = lit ''Password: '', cc_username = None,
     cc_password = None\<rparr>"


section \<open>Complete writes\<close>

text \<open>A pyserial that also records the bytes the port accepted, in order.\<close>

definition transmitting :: "'w pyserial \<Rightarrow> ('w \<times> bytes) pyserial" where
  "transmitting sl = \<lparr>
     sl_open = (\<lambda>d b t. outer (sl_open sl d b t)), sl_is_open = (\<lambda>c. outer (sl_is_open sl c)),
     sl_in_waiting = (\<lambda>c. outer (sl_in_waiting sl c)), sl_read = (\<lambda>c n. outer (sl_read sl c n)),
     sl_write = (\<lambda>c d. io_bind (outer (sl_write sl c d)) (\<lambda>written.
       io_then (inner (modifying (\<lambda>t. t @ take (nat (case written of Some n \<Rightarrow> n | None \<Rightarrow> 0)) d)))
         (returning written))),
     sl_close = (\<lambda>c. outer (sl_close sl c))\<rparr>"

lemma write_step_transmits:
  assumes "write_step (transmitting sl) c view (w, t) = Some (q, (w', t'))"
  shows "(view = [] \<and> q = Inr (Inr ()) \<and> t' = t) \<or> (\<exists>e. q = Inl e \<and> t' = t) \<or>
    (\<exists>n > 0. view \<noteq> [] \<and> q = Inr (Inl (drop n view)) \<and> t' = t @ take n view)"
proof (cases "view = []")
  case False
  with assms obtain r w1 where r: "sl_write sl c view w = Some (r, w1)"
    by (cases "sl_write sl c view w") (auto simp: write_step_def transmitting_def io_bind_def outer_def)
  show ?thesis
  proof (cases r)
    case (Inl e)
    with assms r False show ?thesis
      by (auto simp: write_step_def transmitting_def io_bind_def outer_def)
  next
    case (Inr written)
    show ?thesis
    proof (cases written)
      case None
      with assms r Inr False show ?thesis
        by (auto simp: write_step_def transmitting_def io_bind_def outer_def inner_def run_simps)
    next
      case (Some n)
      with assms r Inr False show ?thesis
        by (cases "n \<le> 0") (auto simp: write_step_def transmitting_def io_bind_def outer_def
            inner_def run_simps intro: exI [of _ "nat n"])
    qed
  qed
qed (use assms in \<open>auto simp: write_step_def run_simps\<close>)

lemma write_loop_transmits:
  assumes "loop_run (write_step (transmitting sl) c) view wt r wt'"
  shows "\<exists>k. snd wt' = snd wt @ take k view \<and> (\<forall>u. r = Inr u \<longrightarrow> snd wt' = snd wt @ view)"
  using assms
proof induction
  case (raised view wt e wt')
  then show ?case
    using write_step_transmits [of sl c view "fst wt" "snd wt" "Inl e" "fst wt'" "snd wt'"]
    by (auto intro: exI [of _ 0])
next
  case (left view wt x wt')
  then show ?case
    using write_step_transmits [of sl c view "fst wt" "snd wt" "Inr (Inr x)" "fst wt'" "snd wt'"] by auto
next
  case (again view wt view' wt1 r wt')
  then obtain n k where "view' = drop n view" "snd wt1 = snd wt @ take n view"
    "snd wt' = snd wt1 @ take k view'" "\<forall>u. r = Inr u \<longrightarrow> snd wt' = snd wt1 @ view'"
    using write_step_transmits [of sl c view "fst wt" "snd wt" "Inr (Inl view')" "fst wt1" "snd wt1"]
    by auto
  then show ?case by (intro exI [of _ "n + k"]) (auto simp: take_add)
qed

lemma write_loop_returns:
  assumes "\<And>d w. \<exists>z. sl_write sl c d w = Some z"
  shows "\<exists>z. io_loop (write_step sl c) view w = Some z"
proof (rule io_loop_returns [where J = "\<lambda>_ _. True" and m = "\<lambda>v _. length v"])
  fix v w
  obtain r w1 where "sl_write sl c v w = Some (r, w1)" using assms [of v w] by fastforce
  then show "\<exists>y w'. write_step sl c v w = Some (y, w') \<and>
      (\<forall>s'. y = Inr (Inl s') \<longrightarrow> True \<and> length s' < length v)"
    by (cases r) (auto simp: write_step_def io_bind_def run_simps split: option.splits)
qed simp

text \<open>
  C35. The serial channel never truncates a message silently: whatever portions the port
  accepts, \<^verbatim>\<open>sendall\<close> comes back, the bytes that went out are a prefix of the message, and
  it returns without an exception only when all of them went out, in order and once.
\<close>

theorem serial_sendall_complete:
  assumes "\<And>d w. \<exists>z. sl_write sl c d w = Some z"
  shows "\<exists>r w' t'. serial_sendall (transmitting sl) c s (w, t) = Some (r, (w', t')) \<and>
    (\<exists>k. t' = t @ take k s) \<and> (\<forall>u. r = Inr u \<longrightarrow> t' = t @ s)"
proof -
  have "\<exists>z. sl_write (transmitting sl) c d wt = Some z" for d wt
    using assms [of d "fst wt"]
    by (cases wt) (auto simp: transmitting_def io_bind_def outer_def inner_def run_simps
        split: option.splits sum.splits)
  from write_loop_returns [OF this] obtain r wt' where
    run: "io_loop (write_step (transmitting sl) c) s (w, t) = Some (r, wt')" by fastforce
  from write_loop_transmits run obtain k where k: "snd wt' = t @ take k s"
    "\<forall>u. r = Inr u \<longrightarrow> snd wt' = t @ s" by (fastforce simp: io_loop_iff)
  show ?thesis
  proof (cases r)
    case (Inr u)
    with run k show ?thesis
      by (cases wt') (auto simp: serial_sendall_def serial_errors_as_def try_except_def
          intro: exI [of _ "length s"])
  next
    case (Inl e)
    with run k show ?thesis
      by (cases wt') (auto simp: serial_sendall_def serial_errors_as_def try_except_def run_simps)
  qed
qed

text \<open>A port that takes two bytes at a time.\<close>

definition slow_port :: "unit pyserial" where
  "slow_port = \<lparr>sl_open = (\<lambda>_ _ _. returning 0), sl_is_open = (\<lambda>_. returning True),
     sl_in_waiting = (\<lambda>_. returning 0), sl_read = (\<lambda>_ _. returning []),
     sl_write = (\<lambda>_ d. returning (Some 2)), sl_close = (\<lambda>_. returning ())\<rparr>"

theorem serial_sendall_complete_witness:
  "\<exists>r w' t'. serial_sendall (transmitting slow_port) 0 [1, 2, 3] ((), []) = Some (r, (w', t')) \<and>
    (\<exists>k. t' = [] @ take k [1, 2, 3])"
  using serial_sendall_complete [of slow_port 0 "[1, 2, 3]" "()" "[]"]
  by (auto simp: slow_port_def run_simps)

end
