(* ===== verification/Json.thy ===== *)
theory Json
  imports Console
begin

text \<open>
  \<^verbatim>\<open>json.loads\<close> and \<^verbatim>\<open>json.dumps(..., separators=(',', ':'))\<close> of Python's library: the values,
  the recursive-descent decoder over text, the choice of encoding for bytes, and the encoder,
  which escapes everything outside printable ASCII. A number with a fraction or an exponent
  keeps its literal. Nesting beyond the interpreter's recursion limit is not modelled.
\<close>

datatype json =
    JNull
  | JBool bool
  | JInt int
  | JFloat pystr           \<comment> \<open>the literal\<close>
  | JStr pystr
  | JList "json list"
  | JObj "(pystr \<times> json) list"

section \<open>Encoding\<close>

definition hex_digit :: "nat \<Rightarrow> nat" where
  "hex_digit d = (if d < 10 then 48 + d else 87 + d)"

definition u_escape :: "nat \<Rightarrow> pystr" where
  \<comment> \<open>\<^verbatim>\<open>\uXXXX\<close>\<close>
  "u_escape n = [92, 117, hex_digit (n div 4096), hex_digit (n div 256 mod 16),
     hex_digit (n div 16 mod 16), hex_digit (n mod 16)]"

definition escape_char :: "nat \<Rightarrow> pystr" where
  "escape_char c =
     (if c = 34 then [92, 34] else if c = 92 then [92, 92]
      else if c = 10 then [92, 110] else if c = 13 then [92, 114] else if c = 9 then [92, 116]
      else if c = 12 then [92, 102] else if c = 8 then [92, 98]
      else if 32 \<le> c \<and> c \<le> 126 then [c]
      else if c < 65536 then u_escape c
      else u_escape (55296 + (c - 65536) div 1024) @ u_escape (56320 + (c - 65536) mod 1024))"

definition dump_string :: "pystr \<Rightarrow> pystr" where
  "dump_string s = [34] @ concat (map escape_char s) @ [34]"

fun json_dumps :: "json \<Rightarrow> pystr" where
  "json_dumps JNull = lit ''null''"
| "json_dumps (JBool b) = (if b then lit ''true'' else lit ''false'')"
| "json_dumps (JInt i) = int_text i"
| "json_dumps (JFloat t) = t"
| "json_dumps (JStr s) = dump_string s"
| "json_dumps (JList vs) = [91] @ join [44] (map json_dumps vs) @ [93]"
| "json_dumps (JObj kvs) =
     [123] @ join [44] (map (\<lambda>(k, v). dump_string k @ [58] @ json_dumps v) kvs) @ [125]"

section \<open>Decoding text\<close>

definition json_error :: "string \<Rightarrow> exn" where
  "json_error m = raise_txt JSONDecodeError m"

definition skip_ws :: "pystr \<Rightarrow> pystr" where
  "skip_ws s = dropWhile (\<lambda>c. c = 32 \<or> c = 9 \<or> c = 10 \<or> c = 13) s"

definition hex_value :: "nat \<Rightarrow> nat option" where
  "hex_value c =
     (if 48 \<le> c \<and> c \<le> 57 then Some (c - 48)
      else if 97 \<le> c \<and> c \<le> 102 then Some (c - 87)
      else if 65 \<le> c \<and> c \<le> 70 then Some (c - 55)
      else None)"

definition hex4 :: "pystr \<Rightarrow> (nat \<times> pystr) option" where
  "hex4 s =
     (case s of
        a # b # c # d # r \<Rightarrow>
          (case (hex_value a, hex_value b, hex_value c, hex_value d) of
             (Some w, Some x, Some y, Some z) \<Rightarrow> Some (w * 4096 + x * 256 + y * 16 + z, r)
           | _ \<Rightarrow> None)
      | _ \<Rightarrow> None)"

definition simple_escape :: "nat \<Rightarrow> nat option" where
  "simple_escape c =
     (if c = 34 then Some 34 else if c = 92 then Some 92 else if c = 47 then Some 47
      else if c = 98 then Some 8 else if c = 102 then Some 12 else if c = 110 then Some 10
      else if c = 114 then Some 13 else if c = 116 then Some 9 else None)"

definition low_surrogate :: "pystr \<Rightarrow> (nat \<times> pystr) option" where
  \<comment> \<open>the second half of a pair, if it follows\<close>
  "low_surrogate s =
     (if prefix [92, 117] s then
        (case hex4 (drop 2 s) of
           Some (n, r) \<Rightarrow> if 56320 \<le> n \<and> n \<le> 57343 then Some (n, r) else None
         | None \<Rightarrow> None)
      else None)"

lemma hex4_length: "hex4 s = Some (n, r) \<Longrightarrow> length r < length s"
  by (auto simp: hex4_def split: list.splits option.splits)

lemma low_surrogate_length: "low_surrogate s = Some (n, r) \<Longrightarrow> length r < length s"
  by (auto simp: low_surrogate_def dest!: hex4_length split: if_splits option.splits)

text \<open>The text after the opening quotation mark: the string and what follows it.\<close>

function json_string :: "pystr \<Rightarrow> exn + pystr \<times> pystr" where
  "json_string s =
     (case s of
        [] \<Rightarrow> Inl (json_error ''Unterminated string'')
      | c # cs \<Rightarrow>
          if c = 34 then Inr ([], cs)
          else if c < 32 then Inl (json_error ''Invalid control character'')
          else if c \<noteq> 92 then try_bind (json_string cs) (\<lambda>(t, r). Inr (c # t, r))
          else
            (case cs of
               [] \<Rightarrow> Inl (json_error ''Unterminated string'')
             | e # es \<Rightarrow>
                 if e \<noteq> 117 then
                   (case simple_escape e of
                      None \<Rightarrow> Inl (json_error ''Invalid escape'')
                    | Some x \<Rightarrow> try_bind (json_string es) (\<lambda>(t, r). Inr (x # t, r)))
                 else
                   (case hex4 es of
                      None \<Rightarrow> Inl (json_error ''Invalid uXXXX escape'')
                    | Some (n, r1) \<Rightarrow>
                        (case (if 55296 \<le> n \<and> n \<le> 56319 then low_surrogate r1 else None) of
                           Some (m, r2) \<Rightarrow> try_bind (json_string r2) (\<lambda>(t, r).
                             Inr ((65536 + (n - 55296) * 1024 + (m - 56320)) # t, r))
                         | None \<Rightarrow> try_bind (json_string r1) (\<lambda>(t, r). Inr (n # t, r))))))"
  by pat_completeness auto
termination
  by (relation "measure length") (auto dest!: hex4_length low_surrogate_length split: if_splits)

declare json_string.simps [simp del]

text \<open>The regular expression \<^verbatim>\<open>(-?(?:0|[1-9][0-9]*))(\.[0-9]+)?([eE][-+]?[0-9]+)?\<close>: the integer part,
  the rest of the number, and what follows.\<close>

definition int_part :: "pystr \<Rightarrow> (pystr \<times> pystr) option" where
  "int_part s =
     (let sign = (if prefix [45] s then [45] else []);
          d = drop (length sign) s
      in case d of
           [] \<Rightarrow> None
         | c # cs \<Rightarrow>
             if c = 48 then Some (sign @ [48], cs)
             else if is_digit_cp c then Some (sign @ takeWhile is_digit_cp d, dropWhile is_digit_cp d)
             else None)"

definition frac_part :: "pystr \<Rightarrow> pystr \<times> pystr" where
  "frac_part s =
     (let d = takeWhile is_digit_cp (tl s)
      in if prefix [46] s \<and> d \<noteq> [] then (46 # d, drop (length d) (tl s)) else ([], s))"

definition exp_part :: "pystr \<Rightarrow> pystr \<times> pystr" where
  "exp_part s =
     (let t = tl s;
          sign = (if prefix [45] t \<or> prefix [43] t then [hd t] else []);
          d = takeWhile is_digit_cp (drop (length sign) t)
      in if (prefix [101] s \<or> prefix [69] s) \<and> d \<noteq> []
         then (hd s # sign @ d, drop (length d) (drop (length sign) t)) else ([], s))"

definition json_int :: "pystr \<Rightarrow> exn + json" where
  "json_int t =
     (let negative = prefix [45] t; digits = (if negative then tl t else t)
      in try_bind (py_int negative digits) (\<lambda>i. Inr (JInt i)))"

definition json_number :: "pystr \<Rightarrow> (exn + json \<times> pystr) option" where
  "json_number s =
     (case int_part s of
        None \<Rightarrow> None
      | Some (i, r) \<Rightarrow>
          (let (f, r1) = frac_part r; (x, r2) = exp_part r1
           in Some (if f = [] \<and> x = [] then try_bind (json_int i) (\<lambda>v. Inr (v, r2))
                    else Inr (JFloat (i @ f @ x), r2))))"

definition json_constant :: "pystr \<Rightarrow> (json \<times> pystr) option" where
  "json_constant s =
     (case find (\<lambda>(t, v). prefix t s)
        [(lit ''null'', JNull), (lit ''true'', JBool True), (lit ''false'', JBool False),
         (lit ''NaN'', JFloat (lit ''NaN'')), (lit ''Infinity'', JFloat (lit ''Infinity'')),
         (lit ''-Infinity'', JFloat (lit ''-Infinity''))] of
        Some (t, v) \<Rightarrow> Some (v, drop (length t) s)
      | None \<Rightarrow> None)"

text \<open>
  The scanner. Every call from a container to what it contains spends fuel; the text is
  longer than the number of such calls, so its length is fuel enough.
\<close>

fun json_value :: "nat \<Rightarrow> pystr \<Rightarrow> exn + json \<times> pystr"
  and json_members :: "nat \<Rightarrow> (pystr \<times> json) list \<Rightarrow> pystr \<Rightarrow> exn + json \<times> pystr"
  and json_elements :: "nat \<Rightarrow> json list \<Rightarrow> pystr \<Rightarrow> exn + json \<times> pystr" where
  "json_value 0 s = Inl (json_error ''too deep'')"
| "json_value (Suc n) s =
     (if prefix [34] s then try_bind (json_string (tl s)) (\<lambda>(t, r). Inr (JStr t, r))
      else if prefix [123] s then
        (let r = skip_ws (tl s)
         in if prefix [125] r then Inr (JObj [], tl r) else json_members n [] r)
      else if prefix [91] s then
        (let r = skip_ws (tl s)
         in if prefix [93] r then Inr (JList [], tl r) else json_elements n [] r)
      else
        (case json_number s of
           Some q \<Rightarrow> q
         | None \<Rightarrow>
             (case json_constant s of
                Some (v, r) \<Rightarrow> Inr (v, r)
              | None \<Rightarrow> Inl (json_error ''Expecting value''))))"
| "json_members 0 acc s = Inl (json_error ''too deep'')"
| "json_members (Suc n) acc s =
     (if \<not> prefix [34] s
      then Inl (json_error ''Expecting property name enclosed in double quotes'')
      else
        try_bind (json_string (tl s)) (\<lambda>(k, r).
          let r1 = skip_ws r in
          if \<not> prefix [58] r1 then Inl (json_error ''Expecting colon delimiter'')
          else
            try_bind (json_value n (skip_ws (tl r1))) (\<lambda>(v, r).
              let r2 = skip_ws r in
              if prefix [125] r2 then Inr (JObj (dict_of (acc @ [(k, v)])), tl r2)
              else if prefix [44] r2 then json_members n (acc @ [(k, v)]) (skip_ws (tl r2))
              else Inl (json_error ''Expecting comma delimiter''))))"
| "json_elements 0 acc s = Inl (json_error ''too deep'')"
| "json_elements (Suc n) acc s =
     try_bind (json_value n s) (\<lambda>(v, r).
       let r1 = skip_ws r in
       if prefix [93] r1 then Inr (JList (acc @ [v]), tl r1)
       else if prefix [44] r1 then json_elements n (acc @ [v]) (skip_ws (tl r1))
       else Inl (json_error ''Expecting comma delimiter''))"

definition json_text :: "pystr \<Rightarrow> exn + json" where
  "json_text s =
     try_bind (json_value (Suc (length s)) (skip_ws s)) (\<lambda>(v, r).
       if skip_ws r = [] then Inr v else Inl (json_error ''Extra data''))"

section \<open>Decoding bytes\<close>

text \<open>
  \<^verbatim>\<open>json.loads\<close> of bytes guesses the encoding from a byte order mark or from NUL bytes at the
  start. The UTF-16 and UTF-32 codecs are the parameter \<open>wide\<close>; UTF-8 is decoded with
  \<^verbatim>\<open>surrogatepass\<close>, which lets encoded surrogates through.
\<close>

definition is_wide :: "bytes \<Rightarrow> bool" where
  "is_wide b \<longleftrightarrow> prefix [255, 254] b \<or> prefix [254, 255] b \<or> prefix [0, 0, 254, 255] b \<or>
     (if 4 \<le> length b then b ! 0 = 0 \<or> b ! 1 = 0
      else length b = 2 \<and> (b ! 0 = 0 \<or> b ! 1 = 0))"

definition surrogate_next :: "bytes \<Rightarrow> (nat \<times> nat) option" where
  "surrogate_next b =
     (case b of
        x # y # z # _ \<Rightarrow>
          if x = 237 \<and> 160 \<le> unat y \<and> unat y < 192 \<and> is_cont z
          then Some (53248 + (unat y - 128) * 64 + (unat z - 128), 3) else None
      | _ \<Rightarrow> None)"

function decode_surrogatepass :: "bytes \<Rightarrow> exn + pystr" where
  "decode_surrogatepass b =
     (if b = [] then Inr []
      else case surrogate_next b of
        Some (c, n) \<Rightarrow> try_bind (decode_surrogatepass (drop (Suc 2) b)) (\<lambda>s. Inr (c # s))
      | None \<Rightarrow>
          (case utf8_next b of
             (None, n) \<Rightarrow> Inl (raise_txt UnicodeDecodeError ''invalid utf-8 data'')
           | (Some c, n) \<Rightarrow> try_bind (decode_surrogatepass (drop n b)) (\<lambda>s. Inr (c # s))))"
  by pat_completeness auto
termination
  by (relation "measure length")
    (auto, metis diff_less length_greater_0_conv snd_conv utf8_next_pos)

declare decode_surrogatepass.simps [simp del]

definition json_loads :: "(bytes \<Rightarrow> exn + pystr) \<Rightarrow> bytes \<Rightarrow> exn + json" where
  "json_loads wide b =
     try_bind
       (if is_wide b then wide b
        else if prefix [239, 187, 191] b then decode_surrogatepass (drop 3 b)
        else decode_surrogatepass b)
       json_text"

end
