(* ===== verification/Json_Roundtrip.thy ===== *)
theory Json_Roundtrip
  imports Json Console_Frames
begin

text \<open>
  \<^verbatim>\<open>json.loads\<close> reads back what \<^verbatim>\<open>json.dumps\<close> wrote, for objects without repeated keys,
  strings of Unicode scalar values, integers within Python's digit limit and plain decimal
  fractions.
\<close>

section \<open>Strings\<close>

lemma hex_value_digit: "d < 16 \<Longrightarrow> hex_value (hex_digit d) = Some d"
  by (auto simp: hex_value_def hex_digit_def)

lemma hex_digits_sum:
  fixes n :: nat
  assumes "n < 65536"
  shows "n div 4096 * 4096 + n div 256 mod 16 * 256 + n div 16 mod 16 * 16 + n mod 16 = n"
proof -
  have "n div 16 div 16 = n div 256" "n div 256 div 16 = n div 4096" by (simp_all flip: div_mult2_eq)
  then have "n = n div 16 * 16 + n mod 16" "n div 16 = n div 256 * 16 + n div 16 mod 16"
    "n div 256 = n div 4096 * 16 + n div 256 mod 16" by (metis div_mult_mod_eq)+
  then show ?thesis by linarith
qed

lemma hex4_u_escape:
  assumes "n < 65536"
  shows "u_escape n @ r = 92 # 117 # (drop 2 (u_escape n) @ r)" "hex4 (drop 2 (u_escape n) @ r) = Some (n, r)"
proof -
  have "n div 4096 < 16" using assms by auto
  then show "hex4 (drop 2 (u_escape n) @ r) = Some (n, r)"
    using hex_digits_sum [OF assms] by (simp add: u_escape_def hex4_def hex_value_digit)
qed (simp add: u_escape_def)

lemma json_string_plain:
  "c \<noteq> 34 \<Longrightarrow> \<not> c < 32 \<Longrightarrow> c \<noteq> 92 \<Longrightarrow>
     json_string (c # s) = try_bind (json_string s) (\<lambda>(t, r). Inr (c # t, r))"
  by (subst json_string.simps) simp

lemma json_string_escape:
  "e \<noteq> 117 \<Longrightarrow> simple_escape e = Some x \<Longrightarrow>
     json_string (92 # e # s) = try_bind (json_string s) (\<lambda>(t, r). Inr (x # t, r))"
  by (subst json_string.simps) simp

lemma json_string_u:
  assumes "n < 65536" and "\<not> (55296 \<le> n \<and> n \<le> 56319)"
  shows "json_string (u_escape n @ s) = try_bind (json_string s) (\<lambda>(t, r). Inr (n # t, r))"
  unfolding hex4_u_escape(1) [OF assms(1)]
  using assms(2) hex4_u_escape(2) [OF assms(1), of s]
  by (subst json_string.simps) auto

lemma json_string_pair:
  assumes "55296 \<le> n" "n \<le> 56319" "56320 \<le> m" "m \<le> 57343"
  shows "json_string (u_escape n @ u_escape m @ s) = try_bind (json_string s)
    (\<lambda>(t, r). Inr ((65536 + (n - 55296) * 1024 + (m - 56320)) # t, r))"
proof -
  have n: "n < 65536" and m: "m < 65536" using assms by auto
  have "low_surrogate (u_escape m @ s) = Some (m, s)"
  proof -
    have "drop 2 (u_escape m @ s) = drop 2 (u_escape m) @ s" "prefix [92, 117] (u_escape m @ s)"
      by (simp_all add: u_escape_def)
    with assms(3,4) hex4_u_escape(2) [OF m, of s] show ?thesis by (simp add: low_surrogate_def)
  qed
  then show ?thesis
    unfolding hex4_u_escape(1) [OF n]
    using assms(1,2) hex4_u_escape(2) [OF n, of "u_escape m @ s"]
    by (subst json_string.simps) simp
qed

lemma json_string_char:
  assumes "scalar_value c"
  shows "json_string (escape_char c @ s) = try_bind (json_string s) (\<lambda>(t, r). Inr (c # t, r))"
proof (cases "c < 65536")
  case True
  with assms have "\<not> (55296 \<le> c \<and> c \<le> 56319)" by (auto simp: scalar_value_def)
  with json_string_u [OF True this, of s] True show ?thesis
    by (auto simp: escape_char_def json_string_plain json_string_escape simple_escape_def)
next
  case False
  define h where "h = 55296 + (c - 65536) div 1024"
  define l where "l = 56320 + (c - 65536) mod 1024"
  have "c < 1114112" using assms by (simp add: scalar_value_def)
  then have h: "55296 \<le> h" "h \<le> 56319" by (auto simp: h_def)
  have "(c - 65536) mod 1024 < 1024" by simp
  then have l: "56320 \<le> l" "l \<le> 57343" unfolding l_def by linarith+
  have "65536 + (h - 55296) * 1024 + (l - 56320) = c"
    using False by (simp add: h_def l_def)
  with json_string_pair [OF h l, of s] False show ?thesis
    by (simp add: escape_char_def h_def l_def)
qed

lemma json_string_dump:
  "list_all scalar_value s \<Longrightarrow> json_string (concat (map escape_char s) @ 34 # r) = Inr (s, r)"
proof (induction s)
  case Nil
  then show ?case by (subst json_string.simps) simp
next
  case (Cons c s)
  then show ?case by (simp add: json_string_char)
qed

section \<open>Numbers\<close>

lemma nat_text_head: "0 < n \<Longrightarrow> \<exists>c cs. nat_text n = c # cs \<and> 49 \<le> c \<and> c \<le> 57"
proof (induction n rule: nat_text.induct)
  case (1 n)
  show ?case
  proof (cases "n < 10")
    case True
    with 1(2) show ?thesis by (simp add: nat_text_small)
  next
    case False
    then have "0 < n div 10" by (simp add: div_greater_zero_iff)
    with 1(1) [OF False] False show ?thesis by (auto simp: nat_text_big)
  qed
qed

definition stops :: "pystr \<Rightarrow> bool" where
  \<comment> \<open>cannot continue a number\<close>
  "stops r \<longleftrightarrow> r = [] \<or> hd r \<in> {44, 93, 125, 10}"

lemma stops_digits:
  assumes "stops r" and "\<forall>c \<in> set d. is_digit_cp c"
  shows "takeWhile is_digit_cp (d @ r) = d" "dropWhile is_digit_cp (d @ r) = r"
  using assms by (cases r; auto simp: stops_def is_digit_cp_def takeWhile_append dropWhile_append)+

lemma nat_text_digit_cp: "\<forall>c \<in> set (nat_text n). is_digit_cp c"
  using nat_text_digits by (auto simp: is_digit_cp_def)

lemma int_part_int_text:
  assumes "stops r" shows "int_part (int_text i @ r) = Some (int_text i, r)"
proof -
  define n where "n = nat \<bar>i\<bar>"
  have i: "int_text i = (if i < 0 then [45] else []) @ nat_text n"
    by (simp add: int_text_def n_def)
  have hd45: "\<not> prefix [45] (nat_text n @ r)"
    using nat_text_digits [of 45 n] nat_text_not_Nil [of n]
    by (cases "nat_text n") (auto dest: nat_text_digits [of _ n])
  show ?thesis
  proof (cases "n = 0")
    case True
    then have "i = 0" by (simp add: n_def)
    with True show ?thesis by (simp add: int_part_def int_text_def nat_text_small)
  next
    case False
    then obtain c cs where c: "nat_text n = c # cs" "49 \<le> c" "c \<le> 57" using nat_text_head by blast
    have d: "takeWhile is_digit_cp (nat_text n @ r) = nat_text n" "dropWhile is_digit_cp (nat_text n @ r) = r"
      using stops_digits [OF assms nat_text_digit_cp] by auto
    show ?thesis
      using c d hd45 by (auto simp: int_part_def i Let_def is_digit_cp_def split: if_splits)
  qed
qed

lemma stops_no_fraction: "stops r \<Longrightarrow> frac_part r = ([], r)" "stops r \<Longrightarrow> exp_part r = ([], r)"
  by (cases r; auto simp: stops_def frac_part_def exp_part_def)+

lemma printable_bound: "\<bar>i\<bar> < 10 ^ k \<Longrightarrow> 0 < k \<Longrightarrow> k \<le> 4300 \<Longrightarrow> printable_code i"
  using nat_text_length [of "nat \<bar>i\<bar>" k]
  by (simp add: printable_code_def nat_less_iff max_def split: if_splits)

lemma json_int_text: "printable_code i \<Longrightarrow> json_int (int_text i) = Inr (JInt i)"
  using nat_text_digits [of 45 "nat i"] py_int_code [of i]
  by (cases "nat_text (nat i)")
    (auto simp: json_int_def int_text_def code_sign_def code_digits_def Let_def
      dest: nat_text_digits [of _ "nat i"])

lemma json_number_int:
  assumes "stops r" and "printable_code i"
  shows "json_number (int_text i @ r) = Some (Inr (JInt i, r))"
  using assms by (simp add: json_number_def int_part_int_text stops_no_fraction json_int_text)

definition float_ok :: "pystr \<Rightarrow> bool" where
  "float_ok t \<longleftrightarrow> prefix [48, 46] t \<and> drop 2 t \<noteq> [] \<and> list_all is_digit_cp (drop 2 t)"

lemma json_number_float:
  assumes "stops r" and "float_ok t"
  shows "json_number (t @ r) = Some (Inr (JFloat t, r))"
proof -
  obtain d where t: "t = 48 # 46 # d" "d \<noteq> []" "\<forall>c \<in> set d. is_digit_cp c"
    using assms(2) by (cases t rule: list.exhaust; cases "tl t") (auto simp: float_ok_def list_all_iff)
  have "int_part (t @ r) = Some ([48], 46 # d @ r)" by (simp add: int_part_def t)
  moreover have "frac_part (46 # d @ r) = (46 # d, r)"
    using t stops_digits [OF assms(1) t(3)] by (simp add: frac_part_def)
  ultimately show ?thesis
    using stops_no_fraction(2) [OF assms(1)] by (simp add: json_number_def t)
qed

section \<open>Values\<close>

fun json_ok :: "json \<Rightarrow> bool" where
  "json_ok JNull = True"
| "json_ok (JBool b) = True"
| "json_ok (JInt i) = printable_code i"
| "json_ok (JFloat t) = float_ok t"
| "json_ok (JStr s) = list_all scalar_value s"
| "json_ok (JList vs) = (\<forall>v \<in> set vs. json_ok v)"
| "json_ok (JObj kvs) = (dict_ok kvs \<and> (\<forall>(k, v) \<in> set kvs. list_all scalar_value k \<and> json_ok v))"

definition reads_back :: "json \<Rightarrow> bool" where
  "reads_back v \<longleftrightarrow> (\<forall>n r. length (json_dumps v) \<le> n \<longrightarrow> stops r \<longrightarrow>
     json_value n (json_dumps v @ r) = Inr (v, r))"

lemma int_text_head: "\<exists>c cs. int_text i = c # cs \<and> (c = 45 \<or> is_digit_cp c)"
  using nat_text_digit_cp [of "nat i"] nat_text_not_Nil [of "nat i"]
  by (cases "nat_text (nat i)") (auto simp: int_text_def)

lemma json_dumps_head:
  "json_ok v \<Longrightarrow> \<exists>c cs. json_dumps v = c # cs \<and> c \<notin> {32, 9, 10, 13, 93, 125}"
proof (induction v rule: json_dumps.induct)
  case (3 i)
  then show ?case using int_text_head [of i] by (auto simp: is_digit_cp_def)
next
  case (4 t)
  then show ?case by (cases t) (auto simp: float_ok_def)
qed (auto simp: lit_def dump_string_def)

lemma skip_ws_dumps: "json_ok v \<Longrightarrow> skip_ws (json_dumps v @ r) = json_dumps v @ r"
  using json_dumps_head [of v] by (auto simp: skip_ws_def)

lemma skip_ws_other: "c \<notin> {32, 9, 10, 13} \<Longrightarrow> skip_ws (c # r) = c # r"
  by (simp add: skip_ws_def)

lemma json_elements_dumps:
  assumes "\<forall>v \<in> set vs. json_ok v \<and> reads_back v" and "vs \<noteq> []"
    and "length (join [44] (map json_dumps vs)) < n"
  shows "json_elements n acc (join [44] (map json_dumps vs) @ 93 # r) = Inr (JList (acc @ vs), r)"
  using assms
proof (induction vs arbitrary: n acc)
  case (Cons v vs)
  obtain m where n: "n = Suc m" using Cons.prems(3) by (cases n) auto
  have v: "json_ok v" "reads_back v" using Cons.prems(1) by auto
  show ?case
  proof (cases "vs = []")
    case True
    have "json_value m (json_dumps v @ 93 # r) = Inr (v, 93 # r)"
      using v(2) Cons.prems(3) True by (simp add: reads_back_def stops_def n)
    with True show ?thesis by (simp add: n skip_ws_other)
  next
    case False
    then obtain w ws where vs: "vs = w # ws" by (cases vs) auto
    let ?rest = "join [44] (map json_dumps vs) @ 93 # r"
    have join: "join [44] (map json_dumps (v # vs)) @ 93 # r = json_dumps v @ 44 # ?rest"
      by (simp add: vs)
    have len: "length (json_dumps v) \<le> m" "length (join [44] (map json_dumps vs)) < m"
      using Cons.prems(3) by (simp_all add: vs n)
    have "json_value m (json_dumps v @ 44 # ?rest) = Inr (v, 44 # ?rest)"
      using v(2) len(1) by (simp add: reads_back_def stops_def)
    moreover have "json_elements m (acc @ [v]) ?rest = Inr (JList ((acc @ [v]) @ vs), r)"
      using Cons.prems(1) False len(2) by (intro Cons.IH) auto
    moreover have "skip_ws ?rest = ?rest"
    proof -
      have "json_ok w" using Cons.prems(1) by (simp add: vs)
      then show ?thesis by (cases ws) (simp_all add: vs skip_ws_dumps)
    qed
    ultimately show ?thesis by (simp only: join) (simp add: n skip_ws_other)
  qed
qed simp

definition dump_member :: "pystr \<times> json \<Rightarrow> pystr" where
  "dump_member kv = dump_string (fst kv) @ [58] @ json_dumps (snd kv)"

lemma dump_member_map: "map (\<lambda>(k, v). dump_string k @ [58] @ json_dumps v) kvs = map dump_member kvs"
  by (auto simp: dump_member_def)

lemma json_members_dumps:
  assumes "\<forall>(k, v) \<in> set kvs. list_all scalar_value k \<and> json_ok v \<and> reads_back v" and "kvs \<noteq> []"
    and "length (join [44] (map dump_member kvs)) < n"
  shows "json_members n acc (join [44] (map dump_member kvs) @ 125 # r) = Inr (JObj (dict_of (acc @ kvs)), r)"
  using assms
proof (induction kvs arbitrary: n acc)
  case (Cons kv kvs)
  obtain k v where kv: "kv = (k, v)" by fastforce
  obtain m where n: "n = Suc m" using Cons.prems(3) by (cases n) auto
  have v: "list_all scalar_value k" "json_ok v" "reads_back v" using Cons.prems(1) by (auto simp: kv)
  have key: "json_members n acc (dump_member kv @ x) = json_members n acc (34 # concat (map escape_char k) @ 34 # 58 # json_dumps v @ x)" for x
    by (simp add: kv dump_member_def dump_string_def)
  have str: "json_string (concat (map escape_char k) @ 34 # x) = Inr (k, x)" for x
    by (rule json_string_dump [OF v(1)])
  show ?case
  proof (cases "kvs = []")
    case True
    have "json_value m (json_dumps v @ 125 # r) = Inr (v, 125 # r)"
      using v(3) Cons.prems(3) True by (simp add: reads_back_def stops_def n kv dump_member_def)
    with True v(2) show ?thesis
      by (simp add: key) (simp add: n str skip_ws_other skip_ws_dumps kv)
  next
    case False
    then obtain w ws where kvs: "kvs = w # ws" by (cases kvs) auto
    let ?rest = "join [44] (map dump_member kvs) @ 125 # r"
    have join: "join [44] (map dump_member (kv # kvs)) @ 125 # r = dump_member kv @ 44 # ?rest"
      by (simp add: kvs)
    have len: "length (json_dumps v) \<le> m" "length (join [44] (map dump_member kvs)) < m"
      using Cons.prems(3) by (simp_all add: kvs n) (simp add: kv dump_member_def)
    have "json_value m (json_dumps v @ 44 # ?rest) = Inr (v, 44 # ?rest)"
      using v(3) len(1) by (simp add: reads_back_def stops_def)
    moreover have "json_members m (acc @ [(k, v)]) ?rest = Inr (JObj (dict_of ((acc @ [(k, v)]) @ kvs)), r)"
      using Cons.prems(1) False len(2) by (intro Cons.IH) auto
    moreover have "skip_ws ?rest = ?rest"
      by (cases ws) (simp_all add: kvs dump_member_def dump_string_def skip_ws_other)
    ultimately show ?thesis
      using v(2) by (simp only: join key) (simp add: n str skip_ws_other skip_ws_dumps kv)
  qed
qed simp

lemma dict_of_ok: "dict_ok kvs \<Longrightarrow> dict_of kvs = kvs"
  using dict_update_disjoint [of kvs "[]"] by (simp add: dict_update_def dict_of_def)

lemma json_value_scalar:
  assumes "\<not> prefix [34] s" "\<not> prefix [123] s" "\<not> prefix [91] s" "0 < n"
  shows "json_value n s = (case json_number s of Some q \<Rightarrow> q | None \<Rightarrow>
    (case json_constant s of Some (v, r) \<Rightarrow> Inr (v, r) | None \<Rightarrow> Inl (json_error ''Expecting value'')))"
  using assms by (cases n) auto

lemma reads_back_number:
  assumes "\<And>r. \<not> prefix [34] (json_dumps v @ r) \<and> \<not> prefix [123] (json_dumps v @ r) \<and>
      \<not> prefix [91] (json_dumps v @ r)"
    and "json_dumps v \<noteq> []" and "\<And>r. stops r \<Longrightarrow> json_number (json_dumps v @ r) = Some (Inr (v, r))"
  shows "reads_back v"
  unfolding reads_back_def
proof (intro allI impI)
  fix n r assume "length (json_dumps v) \<le> n" and "stops r"
  moreover from this assms(2) have "0 < n" by (cases n) auto
  ultimately show "json_value n (json_dumps v @ r) = Inr (v, r)"
    using assms(1,3) by (simp add: json_value_scalar)
qed

lemma json_ok_reads_back: "json_ok v \<Longrightarrow> reads_back v"
proof (induction v rule: json_dumps.induct)
  case 1
  have "json_number (lit ''null'' @ r) = None" "json_constant (lit ''null'' @ r) = Some (JNull, r)" for r
    by (simp_all add: json_number_def int_part_def json_constant_def lit_def is_digit_cp_def)
  then show ?case by (auto simp: reads_back_def json_value_scalar lit_def)
next
  case (2 b)
  have "json_number (json_dumps (JBool b) @ r) = None"
    "json_constant (json_dumps (JBool b) @ r) = Some (JBool b, r)" for r
    by (simp_all add: json_number_def int_part_def json_constant_def lit_def is_digit_cp_def)
  then show ?case by (auto simp: reads_back_def json_value_scalar lit_def)
next
  case (3 i)
  obtain c cs where "int_text i = c # cs" "c = 45 \<or> is_digit_cp c" using int_text_head by blast
  then have "\<not> prefix [34] (int_text i @ r)" "\<not> prefix [123] (int_text i @ r)"
    "\<not> prefix [91] (int_text i @ r)" "0 < length (int_text i)" for r
    by (auto simp: is_digit_cp_def)
  with 3 json_number_int show ?case by (intro reads_back_number) auto
next
  case (4 t)
  then have "\<not> prefix [34] (t @ r)" "\<not> prefix [123] (t @ r)" "\<not> prefix [91] (t @ r)" "t \<noteq> []" for r
    by (cases t; auto simp: float_ok_def)+
  with 4 json_number_float show ?case by (intro reads_back_number) auto
next
  case (5 s)
  show ?case
    unfolding reads_back_def
  proof (intro allI impI)
    fix n r assume "length (json_dumps (JStr s)) \<le> n"
    then obtain m where "n = Suc m" by (cases n) (auto simp: dump_string_def)
    with 5 json_string_dump show "json_value n (json_dumps (JStr s) @ r) = Inr (JStr s, r)"
      by (simp add: dump_string_def)
  qed
next
  case (6 vs)
  show ?case
    unfolding reads_back_def
  proof (intro allI impI)
    fix n r assume len: "length (json_dumps (JList vs)) \<le> n"
    then obtain m where n: "n = Suc m" by (cases n) auto
    show "json_value n (json_dumps (JList vs) @ r) = Inr (JList vs, r)"
    proof (cases vs)
      case Nil
      then show ?thesis by (simp add: n skip_ws_other)
    next
      case (Cons w ws)
      let ?body = "join [44] (map json_dumps vs) @ 93 # r"
      have w: "json_ok w" using 6 Cons by simp
      have body: "\<exists>x. ?body = json_dumps w @ x" by (cases ws) (auto simp: Cons)
      then have "skip_ws ?body = ?body" "\<not> prefix [93] ?body"
        using skip_ws_dumps [OF w] json_dumps_head [OF w] by auto
      moreover have "json_elements m [] ?body = Inr (JList ([] @ vs), r)"
        using 6 Cons len by (intro json_elements_dumps) (auto simp: n)
      ultimately show ?thesis by (simp add: n)
    qed
  qed
next
  case (7 kvs)
  show ?case
    unfolding reads_back_def
  proof (intro allI impI)
    fix n r assume len: "length (json_dumps (JObj kvs)) \<le> n"
    then obtain m where n: "n = Suc m" by (cases n) auto
    show "json_value n (json_dumps (JObj kvs) @ r) = Inr (JObj kvs, r)"
    proof (cases kvs)
      case Nil
      then show ?thesis by (simp add: n skip_ws_other)
    next
      case (Cons w ws)
      let ?body = "join [44] (map dump_member kvs) @ 125 # r"
      have "\<exists>x. ?body = 34 # x" by (cases ws) (auto simp: Cons dump_member_def dump_string_def)
      then have "skip_ws ?body = ?body" "\<not> prefix [125] ?body" by (auto simp: skip_ws_other)
      moreover have "json_members m [] ?body = Inr (JObj (dict_of ([] @ kvs)), r)"
      proof (rule json_members_dumps)
        have "reads_back v" if "(k, v) \<in> set kvs" for k v
          using 7(1) [OF that refl] 7(2) that by auto
        with 7(2) show "\<forall>(k, v) \<in> set kvs. list_all scalar_value k \<and> json_ok v \<and> reads_back v" by auto
        show "length (join [44] (map dump_member kvs)) < m"
          using len unfolding json_dumps.simps dump_member_map by (simp add: n)
      qed (simp add: Cons)
      moreover have "json_dumps (JObj kvs) @ r = 123 # ?body"
        unfolding json_dumps.simps dump_member_map by simp
      ultimately show ?thesis using 7(2) by (simp only: n) (simp add: dict_of_ok)
    qed
  qed
qed

section \<open>Bytes\<close>

lemma json_text_dumps:
  assumes "json_ok v" and "stops r" and "skip_ws r = []"
  shows "json_text (json_dumps v @ r) = Inr v"
proof -
  have "json_value (Suc (length (json_dumps v @ r))) (json_dumps v @ r) = Inr (v, r)"
    using json_ok_reads_back [OF assms(1), unfolded reads_back_def] assms(2)
    by (simp del: json_value.simps)
  with assms show ?thesis by (simp add: json_text_def skip_ws_dumps del: json_value.simps)
qed

lemma hex_digit_printable: "d < 16 \<Longrightarrow> 32 \<le> hex_digit d \<and> hex_digit d \<le> 126"
  by (auto simp: hex_digit_def)

lemma escape_char_printable:
  assumes "scalar_value c" and "x \<in> set (escape_char c)" shows "32 \<le> x \<and> x \<le> 126"
proof -
  have u: "32 \<le> y \<and> y \<le> 126" if "y \<in> set (u_escape n)" "n < 65536" for y n
    using that hex_digit_printable [of "n div 4096"] div_less_iff_less_mult [of 4096 n 16] hex_digit_printable [of "n div 256 mod 16"]
      hex_digit_printable [of "n div 16 mod 16"] hex_digit_printable [of "n mod 16"]
    by (auto simp: u_escape_def)
  have "c < 1114112" using assms(1) by (simp add: scalar_value_def)
  then have "55296 + (c - 65536) div 1024 < 65536" "56320 + (c - 65536) mod 1024 < 65536"
    using mod_less_divisor [of 1024 "c - 65536"] by (simp_all, linarith?)
  with assms(2) u show ?thesis by (auto simp: escape_char_def split: if_splits)
qed

lemma dump_string_printable:
  assumes "list_all scalar_value s" and "x \<in> set (dump_string s)" shows "32 \<le> x \<and> x \<le> 126"
  using assms escape_char_printable by (auto simp: dump_string_def list_all_iff)

lemma set_join: "x \<in> set (join sep ss) \<Longrightarrow> x \<in> set sep \<or> (\<exists>s \<in> set ss. x \<in> set s)"
  by (induction sep ss rule: join.induct) auto

lemma json_dumps_printable:
  "json_ok v \<Longrightarrow> x \<in> set (json_dumps v) \<Longrightarrow> 32 \<le> x \<and> x \<le> 126"
proof (induction v rule: json_dumps.induct)
  case (3 i)
  then show ?case by (auto simp: int_text_def dest: nat_text_digits split: if_splits)
next
  case (4 t)
  then have "x = 48 \<or> x = 46 \<or> is_digit_cp x"
    by (cases t; cases "tl t") (auto simp: float_ok_def list_all_iff)
  then show ?case by (auto simp: is_digit_cp_def)
next
  case (5 s)
  then show ?case by (auto dest: dump_string_printable)
next
  case (6 vs)
  then show ?case by (auto dest!: set_join)
next
  case (7 kvs)
  from 7(3) consider "x \<in> {123, 125, 44}"
    | k v where "(k, v) \<in> set kvs" "x \<in> set (dump_string k @ [58] @ json_dumps v)"
    by (auto dest!: set_join)
  then show ?case
  proof cases
    case (2 k v)
    with 7(1) [OF 2(1) refl] 7(2) show ?thesis by (auto dest: dump_string_printable)
  qed auto
qed (auto simp: lit_def split: if_splits)

lemma decode_surrogatepass_ascii: "ascii t \<Longrightarrow> decode_surrogatepass (map byte t) = Inr t"
proof (induction t)
  case (Cons c t)
  then have c: "c < 128" by (simp add: ascii_def)
  then have "byte c \<noteq> 237" using byte_eq_iff [of c 237] by (auto simp: byte_def)
  then have "surrogate_next (map byte (c # t)) = None" by (auto simp: surrogate_next_def split: list.split)
  moreover have "utf8_next (map byte (c # t)) = (Some c, 1)"
    using c by (simp add: utf8_next.simps unat_byte)
  ultimately show ?case using Cons by (subst decode_surrogatepass.simps) (simp add: ascii_def)
qed (simp add: decode_surrogatepass.simps)

lemma byte_not: "c < 256 \<Longrightarrow> n < 256 \<Longrightarrow> c \<noteq> n \<Longrightarrow> byte c \<noteq> of_nat n"
  using byte_eq_iff [of c n] by (simp add: byte_def)

lemma json_loads_ascii:
  assumes "\<forall>c \<in> set t. 0 < c \<and> c < 128"
  shows "json_loads wide (map byte t) = json_text t"
proof -
  have b: "byte c \<noteq> 0 \<and> byte c \<noteq> 255 \<and> byte c \<noteq> 254 \<and> byte c \<noteq> 239" if "c \<in> set t" for c
    using assms that byte_not [of c 0] byte_not [of c 255] byte_not [of c 254] byte_not [of c 239] by auto
  have "\<not> prefix (x # xs) (map byte t)" if "x \<in> {0, 255, 254, 239}" for x xs
    using b that by (cases t) auto
  moreover have "map byte t ! 0 \<noteq> 0 \<and> map byte t ! 1 \<noteq> 0" if "4 \<le> length t \<or> length t = 2"
  proof -
    from that obtain x y u where "t = x # y # u" by (cases t; cases "tl t") auto
    with b show ?thesis by simp
  qed
  ultimately have "\<not> is_wide (map byte t)" "\<not> prefix [239, 187, 191] (map byte t)"
    by (auto simp: is_wide_def simp del: nth_map)
  moreover have "ascii t" using assms by (auto simp: ascii_def)
  ultimately show ?thesis by (simp add: json_loads_def decode_surrogatepass_ascii)
qed

text \<open>A message of either side of a line protocol, with or without its line end.\<close>

lemma json_loads_dumps:
  assumes "json_ok v" and "r = [] \<or> r = [10]"
  shows "json_loads wide (map byte (json_dumps v @ r)) = Inr v"
proof -
  have "\<forall>c \<in> set (json_dumps v @ r). 0 < c \<and> c < 128"
    using json_dumps_printable [OF assms(1)] assms(2) by fastforce
  moreover have "stops r" "skip_ws r = []" using assms(2) by (auto simp: stops_def skip_ws_def)
  ultimately show ?thesis using json_text_dumps [OF assms(1)] by (simp only: json_loads_ascii)
qed

lemma json_dumps_encode:
  assumes "json_ok v"
  shows "utf8_encode (json_dumps v @ [10]) = Inr (map byte (json_dumps v @ [10]))"
  using json_dumps_printable [OF assms] by (intro encode_ascii) (fastforce simp: ascii_def)

end
