(* ===== verification/Base64.thy ===== *)
theory Base64
  imports Exceptions
begin

text \<open>
  \<^verbatim>\<open>base64.b64encode\<close> and \<^verbatim>\<open>base64.b64decode(..., validate=True)\<close>, with the automaton of
  CPython's strict decoder: data characters are collected in fours, padding ends the data.
\<close>

definition b64_char :: "nat \<Rightarrow> nat" where
  "b64_char v =
     (if v < 26 then 65 + v else if v < 52 then 71 + v else if v < 62 then v - 4
      else if v = 62 then 43 else 47)"

definition b64_value :: "nat \<Rightarrow> nat option" where
  "b64_value c =
     (if 65 \<le> c \<and> c \<le> 90 then Some (c - 65)
      else if 97 \<le> c \<and> c \<le> 122 then Some (c - 71)
      else if 48 \<le> c \<and> c \<le> 57 then Some (c + 4)
      else if c = 43 then Some 62
      else if c = 47 then Some 63
      else None)"

fun b64_groups :: "nat list \<Rightarrow> pystr" where
  "b64_groups [] = []"
| "b64_groups [a] = [b64_char (a div 4), b64_char (a mod 4 * 16), 61, 61]"
| "b64_groups [a, b] =
     [b64_char (a div 4), b64_char (a mod 4 * 16 + b div 16), b64_char (b mod 16 * 4), 61]"
| "b64_groups (a # b # c # r) =
     b64_char (a div 4) # b64_char (a mod 4 * 16 + b div 16) #
     b64_char (b mod 16 * 4 + c div 64) # b64_char (c mod 64) # b64_groups r"

definition b64encode :: "bytes \<Rightarrow> pystr" where
  "b64encode s = b64_groups (map unat s)"

definition b64_error :: "string \<Rightarrow> exn" where
  \<comment> \<open>\<^verbatim>\<open>binascii.Error\<close>, a \<^verbatim>\<open>ValueError\<close>\<close>
  "b64_error m = raise_txt PyValueError m"

text \<open>
  The state of the decoder: the place in the group of four, the bits left over from the
  character before, the padding characters seen in this group, and whether padding has begun.
\<close>

fun a2b_strict :: "nat \<Rightarrow> nat \<Rightarrow> nat \<Rightarrow> bool \<Rightarrow> pystr \<Rightarrow> exn + nat list" where
  "a2b_strict quad left pads started [] =
     (if quad = 0 then Inr [] else Inl (b64_error ''Incorrect padding''))"
| "a2b_strict quad left pads started (c # cs) =
     (if c = 61 then
        (if 2 \<le> quad \<and> 4 \<le> quad + (pads + 1) then
           (if cs = [] then Inr [] else Inl (b64_error ''Excess data after padding''))
         else a2b_strict quad left (if 2 \<le> quad then pads + 1 else pads) True cs)
      else
        case b64_value c of
          None \<Rightarrow> Inl (b64_error ''Only base64 data is allowed'')
        | Some v \<Rightarrow>
            if started then Inl (b64_error ''Discontinuous padding not allowed'')
            else if quad = 0 then a2b_strict 1 v 0 False cs
            else if quad = 1 then
              try_bind (a2b_strict 2 (v mod 16) 0 False cs) (\<lambda>r. Inr ((left * 4 + v div 16) # r))
            else if quad = 2 then
              try_bind (a2b_strict 3 (v mod 4) 0 False cs) (\<lambda>r. Inr ((left * 16 + v div 4) # r))
            else
              try_bind (a2b_strict 0 0 0 False cs) (\<lambda>r. Inr ((left * 64 + v) # r)))"

definition b64decode :: "pystr \<Rightarrow> exn + bytes" where
  "b64decode s =
     (if \<exists>c \<in> set s. 128 \<le> c
      then Inl (raise_txt PyValueError ''string argument should contain only ASCII characters'')
      else if prefix [61] s then Inl (b64_error ''Leading padding not allowed'')
      else try_bind (a2b_strict 0 0 0 False s) (\<lambda>r. Inr (map of_nat r)))"

section \<open>Facts\<close>

lemma b64_value_char: "v < 64 \<Longrightarrow> b64_value (b64_char v) = Some v"
  by (auto simp: b64_value_def b64_char_def)

lemma b64_char_plain: "v < 64 \<Longrightarrow> b64_char v < 128 \<and> b64_char v \<noteq> 61"
  by (auto simp: b64_char_def)

lemma b64_groups_ascii: "\<forall>b \<in> set bs. b < 256 \<Longrightarrow> c \<in> set (b64_groups bs) \<Longrightarrow> c < 128"
  by (induction bs rule: b64_groups.induct) (auto simp: b64_char_plain)

lemma a2b_groups: "\<forall>b \<in> set bs. b < 256 \<Longrightarrow> a2b_strict 0 0 0 False (b64_groups bs) = Inr bs"
proof (induction bs rule: b64_groups.induct)
  case (2 a)
  then show ?case by (simp add: b64_value_char b64_char_plain)
next
  case (3 a b)
  then have "a mod 4 * 16 + b div 16 < 64" "b mod 16 * 4 < 64" "a div 4 < 64" "b div 16 < 16" by auto
  with 3 show ?case by (simp add: b64_value_char b64_char_plain)
next
  case (4 a b c r)
  then have "a mod 4 * 16 + b div 16 < 64" "b mod 16 * 4 + c div 64 < 64" "a div 4 < 64" "c mod 64 < 64"
    "b div 16 < 16" "c div 64 < 4" by auto
  with 4 show ?case by (simp add: b64_value_char b64_char_plain)
qed simp

lemma b64_no_leading_pad: "\<forall>b \<in> set bs. b < 256 \<Longrightarrow> \<not> prefix [61] (b64_groups bs)"
  by (cases bs rule: b64_groups.cases) (auto simp: b64_char_def)

lemma unat_byte_bound: "\<forall>b \<in> set (map unat (s :: bytes)). b < 256"
proof
  fix b assume "b \<in> set (map unat s)"
  then obtain w :: "8 word" where "b = unat w" by auto
  then show "b < 256" using unsigned_less [of w] by simp
qed

lemma b64decode_encode: "b64decode (b64encode s) = Inr s"
proof -
  have "\<not> (\<exists>c \<in> set (b64_groups (map unat s)). 128 \<le> c)"
    using b64_groups_ascii [OF unat_byte_bound] by (meson not_le)
  then show ?thesis
    using a2b_groups [OF unat_byte_bound, of s] b64_no_leading_pad [OF unat_byte_bound, of s]
    by (simp add: b64decode_def b64encode_def comp_def)
qed

lemma b64encode_ascii: "c \<in> set (b64encode s) \<Longrightarrow> c < 128"
  unfolding b64encode_def by (rule b64_groups_ascii [OF unat_byte_bound])

text \<open>The characters of an encoding, and their number.\<close>

lemma b64_char_range: "43 \<le> b64_char v \<and> b64_char v \<le> 122 \<and> b64_char v \<noteq> 92"
  by (auto simp: b64_char_def)

lemma b64_groups_range: "c \<in> set (b64_groups bs) \<Longrightarrow> 43 \<le> c \<and> c \<le> 122 \<and> c \<noteq> 92"
  by (induction bs rule: b64_groups.induct) (use b64_char_range in auto)

lemma b64_groups_length: "length (b64_groups bs) = 4 * ((length bs + 2) div 3)"
proof (induction bs rule: b64_groups.induct)
  case (4 a b c r)
  have "(length (a # b # c # r) + 2) div 3 = Suc ((length r + 2) div 3)" by simp
  with 4 show ?case by simp
qed simp_all

lemma b64encode_range: "c \<in> set (b64encode s) \<Longrightarrow> 43 \<le> c \<and> c \<le> 122 \<and> c \<noteq> 92"
  unfolding b64encode_def by (rule b64_groups_range)

lemma b64encode_length: "length (b64encode s) = 4 * ((length s + 2) div 3)"
  by (simp add: b64encode_def b64_groups_length)

lemma b64encode_Nil_iff [simp]: "b64encode s = [] \<longleftrightarrow> s = []"
  using b64encode_length [of s] by (cases s) auto

section \<open>The URL-safe alphabet\<close>

text \<open>
  \<^verbatim>\<open>base64.urlsafe_b64encode\<close> and \<^verbatim>\<open>base64.urlsafe_b64decode\<close>. The decoder is CPython's lenient
  one: it skips what is not of the alphabet and stops where a group is full of padding.
\<close>

definition urlsafe :: "nat \<Rightarrow> nat" where
  "urlsafe c = (if c = 43 then 45 else if c = 47 then 95 else c)"

definition urlsafe_back :: "nat \<Rightarrow> nat" where
  "urlsafe_back c = (if c = 45 then 43 else if c = 95 then 47 else c)"

definition urlsafe_b64encode :: "bytes \<Rightarrow> pystr" where
  "urlsafe_b64encode s = map urlsafe (b64encode s)"

fun a2b_lenient :: "nat \<Rightarrow> nat \<Rightarrow> nat \<Rightarrow> pystr \<Rightarrow> exn + nat list" where
  "a2b_lenient quad left pads [] =
     (if quad = 0 then Inr [] else Inl (b64_error ''Incorrect padding''))"
| "a2b_lenient quad left pads (c # cs) =
     (if c = 61 then
        (if 2 \<le> quad \<and> 4 \<le> quad + (pads + 1) then Inr []
         else a2b_lenient quad left (if 2 \<le> quad then pads + 1 else pads) cs)
      else
        case b64_value c of
          None \<Rightarrow> a2b_lenient quad left pads cs
        | Some v \<Rightarrow>
            if quad = 0 then a2b_lenient 1 v 0 cs
            else if quad = 1 then
              try_bind (a2b_lenient 2 (v mod 16) 0 cs) (\<lambda>r. Inr ((left * 4 + v div 16) # r))
            else if quad = 2 then
              try_bind (a2b_lenient 3 (v mod 4) 0 cs) (\<lambda>r. Inr ((left * 16 + v div 4) # r))
            else
              try_bind (a2b_lenient 0 0 0 cs) (\<lambda>r. Inr ((left * 64 + v) # r)))"

definition urlsafe_b64decode :: "pystr \<Rightarrow> exn + bytes" where
  "urlsafe_b64decode s =
     (if \<exists>c \<in> set s. 128 \<le> c
      then Inl (raise_txt PyValueError ''string argument should contain only ASCII characters'')
      else try_bind (a2b_lenient 0 0 0 (map urlsafe_back s)) (\<lambda>r. Inr (map of_nat r)))"

lemma urlsafe_back_char: "urlsafe_back (urlsafe (b64_char v)) = b64_char v"
  by (auto simp: urlsafe_def urlsafe_back_def b64_char_def)

lemma urlsafe_char: "urlsafe (b64_char v) \<noteq> 61" and urlsafe_pad: "urlsafe 61 = 61"
  by (auto simp: urlsafe_def b64_char_def)

text \<open>What the strict decoder accepts, the lenient one reads alike.\<close>

lemma a2b_lenient_of_strict:
  "a2b_strict quad left pads started s = Inr r \<Longrightarrow> a2b_lenient quad left pads s = Inr r"
  by (induction quad left pads started s arbitrary: r rule: a2b_strict.induct)
    (auto simp: result_simps split: if_splits option.splits)

text \<open>An encoding without its padding, which the length determines.\<close>

lemma b64_groups_body:
  "\<exists>body k. map urlsafe (b64_groups bs) = body @ replicate k 61 \<and> 61 \<notin> set body \<and> k < 3 \<and>
     map urlsafe_back body @ replicate k 61 = b64_groups bs"
proof (induction bs rule: b64_groups.induct)
  case (2 a)
  show ?case
    by (rule exI [where x = "map urlsafe [b64_char (a div 4), b64_char (a mod 4 * 16)]"], rule exI [where x = 2])
      (use urlsafe_char in \<open>auto simp: urlsafe_back_char numeral_2_eq_2 urlsafe_pad\<close>)
next
  case (3 a b)
  show ?case
    by (rule exI [where x = "map urlsafe [b64_char (a div 4), b64_char (a mod 4 * 16 + b div 16),
        b64_char (b mod 16 * 4)]"], rule exI [where x = 1])
      (use urlsafe_char in \<open>auto simp: urlsafe_back_char urlsafe_pad\<close>)
next
  case (4 a b c r)
  then obtain body k where IH: "map urlsafe (b64_groups r) = body @ replicate k 61" "61 \<notin> set body" "k < 3"
    "map urlsafe_back body @ replicate k 61 = b64_groups r" by blast
  show ?case
    by (rule exI [where x = "map urlsafe [b64_char (a div 4), b64_char (a mod 4 * 16 + b div 16),
        b64_char (b mod 16 * 4 + c div 64), b64_char (c mod 64)] @ body"], rule exI [where x = k])
      (use IH urlsafe_char in \<open>auto simp: urlsafe_back_char\<close>)
qed simp

definition unpadded :: "bytes \<Rightarrow> pystr" where
  "unpadded s = rstrip_by (\<lambda>c. c = 61) (urlsafe_b64encode s)"

definition repadded :: "pystr \<Rightarrow> pystr" where
  \<comment> \<open>\<^verbatim>\<open>value + "=" * (-len(value) % 4)\<close>\<close>
  "repadded s = s @ replicate (nat ((- int (length s)) mod 4)) 61"

lemma dropWhile_replicate: "p x \<Longrightarrow> dropWhile p (replicate k x @ xs) = dropWhile p xs"
  by (induction k) simp_all

lemma unpadded_body:
  "\<exists>k. 61 \<notin> set (unpadded s) \<and> repadded (unpadded s) = unpadded s @ replicate k 61 \<and>
     map urlsafe_back (unpadded s) @ replicate k 61 = b64encode s"
proof -
  obtain body k where b: "urlsafe_b64encode s = body @ replicate k 61" "61 \<notin> set body" "k < 3"
    "map urlsafe_back body @ replicate k 61 = b64encode s"
    using b64_groups_body [of "map unat s"] unfolding urlsafe_b64encode_def b64encode_def by blast
  have "dropWhile (\<lambda>c. c = 61) (rev body) = rev body"
    using b(2) by (cases body rule: rev_cases) auto
  then have body: "unpadded s = body"
    by (simp add: unpadded_def b(1) rstrip_by_def rev_append rev_replicate dropWhile_replicate)
  have "length body + k = 4 * ((length s + 2) div 3)"
    using arg_cong [OF b(4), of length] by (simp add: b64encode_length)
  then have "- int (length body) = int k + 4 * (- int ((length s + 2) div 3))" by simp
  then have "(- int (length body)) mod 4 = int k"
    using b(3) by (simp only: mod_mult_self2) simp
  then have "nat ((- int (length body)) mod 4) = k" by simp
  with body b show ?thesis by (auto simp: repadded_def)
qed

lemma urlsafe_b64decode_unpadded: "urlsafe_b64decode (repadded (unpadded s)) = Inr s"
proof -
  obtain k where k: "repadded (unpadded s) = unpadded s @ replicate k 61"
    "map urlsafe_back (unpadded s) @ replicate k 61 = b64encode s"
    using unpadded_body by blast
  have eq: "map urlsafe_back (repadded (unpadded s)) = b64encode s"
    unfolding k(1) k(2) [symmetric] by (simp add: urlsafe_back_def)
  have "urlsafe_back c < 128 \<Longrightarrow> c < 128" for c
    by (auto simp: urlsafe_back_def split: if_splits)
  then have "\<not> (\<exists>c \<in> set (repadded (unpadded s)). 128 \<le> c)"
    using b64encode_ascii [of _ s] unfolding eq [symmetric] by force
  moreover have "a2b_lenient 0 0 0 (b64encode s) = Inr (map unat s)"
    unfolding b64encode_def by (rule a2b_lenient_of_strict [OF a2b_groups [OF unat_byte_bound]])
  ultimately show ?thesis by (simp add: urlsafe_b64decode_def eq comp_def)
qed

lemma b64_groups_chars: "c \<in> set (b64_groups bs) \<Longrightarrow> c = 61 \<or> (\<exists>v. c = b64_char v)"
  by (induction bs rule: b64_groups.induct) auto

lemma unpadded_range: "c \<in> set (unpadded s) \<Longrightarrow> 43 \<le> c \<and> c \<le> 122 \<and> c \<noteq> 61 \<and> c \<noteq> 46 \<and> c \<noteq> 59"
proof -
  assume c: "c \<in> set (unpadded s)"
  then have "urlsafe_back c \<in> set (b64encode s)"
    using unpadded_body [of s] by (metis Un_iff image_eqI list.set_map set_append)
  then obtain v where "urlsafe_back c = b64_char v \<or> urlsafe_back c = 61"
    unfolding b64encode_def using b64_groups_chars by blast
  moreover have "c \<noteq> 61" using c unpadded_body [of s] by blast
  ultimately show ?thesis
    by (auto simp: urlsafe_back_def b64_char_def split: if_splits)
qed

end
