(* ===== verification/Agent_Protocol.thy ===== *)
theory Agent_Protocol
  imports Json_Roundtrip Base64 Paths
begin

text \<open>
  The JSON Lines protocol of the serial agent,
  \<^verbatim>\<open>src/helpers/serial-agent/src/hardware_serial_agent/protocol.py\<close>. An \<^verbatim>\<open>AgentError\<close> is an
  exception whose first piece is its code.
\<close>

definition PROTOCOL_VERSION :: int where "PROTOCOL_VERSION = 1"
definition MAX_JSON_LINE_BYTES :: nat where "MAX_JSON_LINE_BYTES = 1048576"
definition MAX_PAYLOAD_BYTES :: nat where "MAX_PAYLOAD_BYTES = 262144"
definition MAX_READ_BYTES :: int where "MAX_READ_BYTES = 262144"
definition MAX_TIMEOUT_SECONDS :: rat where "MAX_TIMEOUT_SECONDS = 120"

lemmas protocol_limits = PROTOCOL_VERSION_def MAX_JSON_LINE_BYTES_def MAX_PAYLOAD_BYTES_def
  MAX_READ_BYTES_def MAX_TIMEOUT_SECONDS_def

type_synonym request = "(pystr, json) dict"

definition agent_error :: "string \<Rightarrow> piece list \<Rightarrow> exn" where
  "agent_error code m = Exn AgentError (Txt (lit code) # m)"

section \<open>Floats\<close>

text \<open>The value of a JSON number literal; rounding to a double is not modelled.\<close>

datatype pyfloat = Finite rat | Infinite bool | NotANumber

definition float_value :: "pystr \<Rightarrow> pyfloat" where
  "float_value t =
     (if t = lit ''NaN'' then NotANumber
      else if t = lit ''Infinity'' then Infinite False
      else if t = lit ''-Infinity'' then Infinite True
      else
        let negative = prefix [45] t;
            u = (if negative then tl t else t);
            (i, r) = (takeWhile is_digit_cp u, dropWhile is_digit_cp u);
            (f, r1) = frac_part r;
            (x, r2) = exp_part r1;
            digits = dropWhile (\<lambda>c. \<not> is_digit_cp c) x;
            power = (if 45 \<in> set x then 1 / 10 ^ digits_value 0 digits else 10 ^ digits_value 0 digits);
            v = (of_nat (digits_value 0 i)
                 + of_nat (digits_value 0 (tl f)) / 10 ^ length (tl f)) * (if x = [] then 1 else power)
        in Finite (if negative then - v else v))"

definition float_of_int :: "int \<Rightarrow> exn + rat" where
  \<comment> \<open>\<^verbatim>\<open>float(i)\<close> raises when the double would be infinite\<close>
  "float_of_int i =
     (if 2 ^ 1024 - 2 ^ 970 \<le> \<bar>i\<bar>
      then Inl (raise_txt PyOverflowError ''int too large to convert to float'')
      else Inr (of_int i))"

definition is_protocol_version :: "json option \<Rightarrow> bool" where
  \<comment> \<open>\<^verbatim>\<open>value == PROTOCOL_VERSION\<close>: Python compares numbers and booleans by value\<close>
  "is_protocol_version v =
     (case v of
        Some (JInt i) \<Rightarrow> i = PROTOCOL_VERSION
      | Some (JBool b) \<Rightarrow> b
      | Some (JFloat t) \<Rightarrow> float_value t = Finite (of_int PROTOCOL_VERSION)
      | _ \<Rightarrow> False)"

section \<open>Messages\<close>

definition decode_request :: "(bytes \<Rightarrow> exn + pystr) \<Rightarrow> bytes \<Rightarrow> exn + request" where
  "decode_request wide line =
     (case json_loads wide line of
        Inl e \<Rightarrow>
          if caught_by e UnicodeDecodeError \<or> caught_by e JSONDecodeError
          then Inl (agent_error ''invalid_json'' [Txt (lit ''Request must be one valid JSON object'')])
          else Inl e
      | Inr (JObj kvs) \<Rightarrow> Inr kvs
      | Inr _ \<Rightarrow> Inl (agent_error ''invalid_request''
          [Txt (lit ''Request must be a JSON object with string keys'')]))"

definition encode_response :: "json \<Rightarrow> exn + bytes" where
  "encode_response response = utf8_encode (json_dumps response @ [10])"

definition success :: "(pystr \<times> json) list \<Rightarrow> json" where
  "success values = JObj ([(lit ''version'', JInt PROTOCOL_VERSION), (lit ''ok'', JBool True)] @ values)"

definition message_text :: "(piece \<Rightarrow> pystr) \<Rightarrow> piece list \<Rightarrow> pystr" where
  \<comment> \<open>\<^verbatim>\<open>str(error)\<close>; \<open>shown\<close> renders the pieces that are not text\<close>
  "message_text shown m = concat (map (\<lambda>p. case p of Txt t \<Rightarrow> t | _ \<Rightarrow> shown p) m)"

definition failure :: "(piece \<Rightarrow> pystr) \<Rightarrow> exn \<Rightarrow> json" where
  "failure shown e =
     (case exn_message e of
        Txt code # m \<Rightarrow> JObj [(lit ''version'', JInt PROTOCOL_VERSION), (lit ''ok'', JBool False),
          (lit ''error'', JObj [(lit ''code'', JStr code), (lit ''message'', JStr (message_text shown m))])]
      | m \<Rightarrow> JObj [(lit ''version'', JInt PROTOCOL_VERSION), (lit ''ok'', JBool False),
          (lit ''error'', JObj [(lit ''code'', JStr []), (lit ''message'', JStr (message_text shown m))])])"

section \<open>Validation\<close>

definition validate_envelope :: "request \<Rightarrow> exn + pystr" where
  "validate_envelope request =
     (if \<not> is_protocol_version (map_of request (lit ''version''))
      then Inl (agent_error ''unsupported_version''
        [Txt (lit ''Supported protocol version is ''), Txt (int_text PROTOCOL_VERSION)])
      else
        case map_of request (lit ''operation'') of
          Some (JStr (c # cs)) \<Rightarrow> Inr (c # cs)
        | _ \<Rightarrow> Inl (agent_error ''invalid_request'' [Txt (lit ''operation must be a non-empty string'')]))"

definition validate_fields :: "request \<Rightarrow> pystr list \<Rightarrow> exn + unit" where
  "validate_fields request required =
     (let common = [lit ''version'', lit ''operation''];
          missing = filter (\<lambda>k. \<not> has_key request k) required;
          unexpected = filter (\<lambda>k. k \<notin> set required \<and> k \<notin> set common) (dict_keys request)
      in if missing \<noteq> []
         then Inl (agent_error ''invalid_request'' [Txt (lit ''Missing required fields: ''),
           Txt (join (lit '', '') (sort missing))])
         else if unexpected \<noteq> []
         then Inl (agent_error ''invalid_request'' [Txt (lit ''Unexpected fields: ''),
           Txt (join (lit '', '') (sort unexpected))])
         else Inr ())"

definition require_string :: "request \<Rightarrow> string \<Rightarrow> exn + pystr" where
  "require_string request name =
     (case map_of request (lit name) of
        Some (JStr (c # cs)) \<Rightarrow> Inr (c # cs)
      | _ \<Rightarrow> Inl (agent_error ''invalid_request''
          [Txt (lit name), Txt (lit '' must be a non-empty string'')]))"

definition require_int :: "request \<Rightarrow> string \<Rightarrow> int \<Rightarrow> int \<Rightarrow> exn + int" where
  "require_int request name minimum maximum =
     (case map_of request (lit name) of
        Some (JInt i) \<Rightarrow>
          if minimum \<le> i \<and> i \<le> maximum then Inr i
          else Inl (agent_error ''invalid_request'' [Txt (lit name),
            Txt (lit '' must be an integer between ''), Txt (int_text minimum), Txt (lit '' and ''),
            Txt (int_text maximum)])
      | _ \<Rightarrow> Inl (agent_error ''invalid_request'' [Txt (lit name),
            Txt (lit '' must be an integer between ''), Txt (int_text minimum), Txt (lit '' and ''),
            Txt (int_text maximum)]))"

definition timeout_range :: exn where
  "timeout_range = agent_error ''invalid_request'' [Txt (lit ''timeout must be between 0 and 120.0'')]"

definition require_timeout :: "request \<Rightarrow> exn + rat" where
  "require_timeout request =
     (case map_of request (lit ''timeout'') of
        Some (JInt i) \<Rightarrow>
          try_bind (float_of_int i) (\<lambda>t.
            if 0 \<le> t \<and> t \<le> MAX_TIMEOUT_SECONDS then Inr t else Inl timeout_range)
      | Some (JFloat l) \<Rightarrow>
          (case float_value l of
             Finite t \<Rightarrow> if 0 \<le> t \<and> t \<le> MAX_TIMEOUT_SECONDS then Inr t else Inl timeout_range
           | _ \<Rightarrow> Inl timeout_range)
      | _ \<Rightarrow> Inl (agent_error ''invalid_request'' [Txt (lit ''timeout must be a number'')]))"

definition decode_payload :: "request \<Rightarrow> exn + bytes" where
  "decode_payload request =
     try_bind (require_string request ''data'') (\<lambda>encoded.
     case b64decode encoded of
       Inl e \<Rightarrow> Inl (agent_error ''invalid_base64'' [Txt (lit ''data must contain valid Base64'')])
     | Inr payload \<Rightarrow>
         if MAX_PAYLOAD_BYTES < length payload
         then Inl (agent_error ''payload_too_large'' [Txt (lit ''Decoded data exceeds ''),
           Txt (nat_text MAX_PAYLOAD_BYTES), Txt (lit '' bytes'')])
         else Inr payload)"

definition encode_payload :: "bytes \<Rightarrow> json" where
  "encode_payload payload = JStr (b64encode payload)"

section \<open>Facts\<close>

lemma agent_error_kind [simp]: "exn_kind (agent_error c m) = AgentError"
  by (simp add: agent_error_def)

text \<open>Validation fails only with an \<^verbatim>\<open>AgentError\<close>, except for an integer timeout out of the range of doubles.\<close>

lemma validation_errors:
  "validate_envelope r = Inl e \<Longrightarrow> exn_kind e = AgentError"
  "validate_fields r ks = Inl e \<Longrightarrow> exn_kind e = AgentError"
  "require_string r n = Inl e \<Longrightarrow> exn_kind e = AgentError"
  "require_int r n lo hi = Inl e \<Longrightarrow> exn_kind e = AgentError"
  "decode_payload r = Inl e \<Longrightarrow> exn_kind e = AgentError"
  by (auto simp: validate_envelope_def validate_fields_def require_string_def require_int_def
      decode_payload_def Let_def result_simps split: option.splits json.splits list.splits if_splits
      sum.splits)

lemma require_timeout_error:
  "require_timeout r = Inl e \<Longrightarrow> exn_kind e = AgentError \<or> exn_kind e = PyOverflowError"
  by (auto simp: require_timeout_def timeout_range_def float_of_int_def result_simps
      split: option.splits json.splits pyfloat.splits if_splits)

lemma require_timeout_range: "require_timeout r = Inr t \<Longrightarrow> 0 \<le> t \<and> t \<le> MAX_TIMEOUT_SECONDS"
  by (auto simp: require_timeout_def result_simps split: option.splits json.splits pyfloat.splits if_splits)

lemma require_int_range: "require_int r n lo hi = Inr i \<Longrightarrow> lo \<le> i \<and> i \<le> hi"
  by (auto simp: require_int_def split: option.splits json.splits if_splits)

lemma decode_payload_bound: "decode_payload r = Inr p \<Longrightarrow> length p \<le> MAX_PAYLOAD_BYTES"
  by (cases "require_string r ''data''"; cases "b64decode (projr (require_string r ''data''))")
    (auto simp: decode_payload_def split: if_splits)

lemma validate_fields_ok:
  "validate_fields r ks = Inr u \<longleftrightarrow> (\<forall>k \<in> set ks. has_key r k) \<and>
     set (dict_keys r) \<subseteq> set ks \<union> {lit ''version'', lit ''operation''}"
  by (auto simp: validate_fields_def Let_def filter_empty_conv)

lemma decode_request_dumps:
  assumes "json_ok (JObj kvs)" and "r = [] \<or> r = [10]"
  shows "decode_request wide (map byte (json_dumps (JObj kvs) @ r)) = Inr kvs"
  by (simp only: decode_request_def json_loads_dumps [OF assms]) simp

end
