(* ===== verification/Serial_Agent.thy ===== *)
theory Serial_Agent
  imports Agent_Protocol
begin

text \<open>
  The remote agent (\<^verbatim>\<open>agent.py\<close>, \<^verbatim>\<open>__main__.py\<close> of
  \<^verbatim>\<open>src/helpers/serial-agent/src/hardware_serial_agent\<close>): it owns at most one serial device
  and serves one request per line until \<^verbatim>\<open>close\<close> or the end of its input. pyserial, the file
  system and the standard streams are the record \<open>agent_os\<close>.
\<close>

record 'w agent_os =
  ao_open :: "pystr \<Rightarrow> int \<Rightarrow> ('w, nat) io"
  ao_is_char_device :: "pystr \<Rightarrow> ('w, bool) io"
  ao_set_timeout :: "nat \<Rightarrow> rat \<Rightarrow> ('w, unit) io"
  ao_read :: "nat \<Rightarrow> int \<Rightarrow> ('w, bytes) io"
  ao_write :: "nat \<Rightarrow> bytes \<Rightarrow> ('w, int option) io"
  ao_reset_input :: "nat \<Rightarrow> ('w, unit) io"
  ao_reset_output :: "nat \<Rightarrow> ('w, unit) io"
  ao_close :: "nat \<Rightarrow> ('w, unit) io"
  ao_output :: "bytes \<Rightarrow> ('w, unit) io"          \<comment> \<open>write and flush\<close>

text \<open>The agent's only field is \<^verbatim>\<open>_connection\<close>.\<close>

type_synonym 'w agent = "'w \<times> nat option"

definition connection :: "('w agent, nat option) io" where
  "connection = inner (reading id)"

definition set_connection :: "nat option \<Rightarrow> ('w agent, unit) io" where
  "set_connection c = inner (modifying (\<lambda>_. c))"

definition require_connection :: "('w agent, nat) io" where
  "require_connection =
     io_bind connection (\<lambda>c.
     case c of
       None \<Rightarrow> raising (agent_error ''not_open'' [Txt (lit ''No serial device is open'')])
     | Some h \<Rightarrow> returning h)"

definition validate_device :: "pystr \<Rightarrow> exn + pystr" where
  "validate_device value =
     (if has_control_char value
      then Inl (agent_error ''invalid_device'' [Txt (lit ''device must not contain control characters'')])
      else if \<not> below_dev value
      then Inl (agent_error ''invalid_device'' [Txt (lit ''device must be an absolute path below /dev'')])
      else Inr value)"

definition agent_close :: "'w agent_os \<Rightarrow> ('w agent, unit) io" where
  "agent_close os =
     io_bind connection (\<lambda>c.
     io_then (set_connection None)
       (case c of None \<Rightarrow> returning () | Some h \<Rightarrow> outer (ao_close os h)))"

section \<open>Operations\<close>

definition open_device :: "'w agent_os \<Rightarrow> request \<Rightarrow> ('w agent, json) io" where
  \<comment> \<open>\<^verbatim>\<open>_open\<close>, once no device is open\<close>
  "open_device os request =
     io_bind (lifting (try_bind (require_string request ''device'') validate_device)) (\<lambda>device.
     io_bind (lifting (require_int request ''baudrate'' 1 10000000)) (\<lambda>baudrate.
     io_bind (outer (ao_is_char_device os device)) (\<lambda>char_device.
     if \<not> char_device
     then raising (agent_error ''invalid_device''
       [Txt (lit ''Serial device is not a character device: ''), Txt device])
     else
       io_bind (outer (ao_open os device baudrate)) (\<lambda>h.
       io_then (set_connection (Some h)) (returning (success []))))))"

definition agent_open :: "'w agent_os \<Rightarrow> request \<Rightarrow> ('w agent, json) io" where
  "agent_open os request =
     io_then (lifting (validate_fields request [lit ''device'', lit ''baudrate'']))
     (io_bind connection (\<lambda>c.
      if c \<noteq> None
      then raising (agent_error ''already_open'' [Txt (lit ''A serial device is already open'')])
      else open_device os request))"

definition agent_write :: "'w agent_os \<Rightarrow> request \<Rightarrow> ('w agent, json) io" where
  "agent_write os request =
     io_then (lifting (validate_fields request [lit ''data'']))
     (io_bind require_connection (\<lambda>h.
      io_bind (lifting (decode_payload request)) (\<lambda>payload.
      io_bind (outer (ao_write os h payload)) (\<lambda>written.
      returning (success [(lit ''written'', JInt (case written of
        None \<Rightarrow> int (length payload) | Some n \<Rightarrow> n))])))))"

definition agent_read :: "'w agent_os \<Rightarrow> request \<Rightarrow> ('w agent, json) io" where
  "agent_read os request =
     io_then (lifting (validate_fields request [lit ''size'', lit ''timeout'']))
     (io_bind require_connection (\<lambda>h.
      io_bind (lifting (require_int request ''size'' 1 MAX_READ_BYTES)) (\<lambda>size.
      io_bind (lifting (require_timeout request)) (\<lambda>timeout.
      io_then (outer (ao_set_timeout os h timeout))
      (io_bind (outer (ao_read os h size)) (\<lambda>payload.
       returning (success [(lit ''data'', encode_payload payload)])))))))"

definition agent_reset_input :: "'w agent_os \<Rightarrow> request \<Rightarrow> ('w agent, json) io" where
  "agent_reset_input os request =
     io_then (lifting (validate_fields request []))
     (io_bind require_connection (\<lambda>h.
      io_then (outer (ao_reset_input os h)) (returning (success []))))"

definition agent_reset_output :: "'w agent_os \<Rightarrow> request \<Rightarrow> ('w agent, json) io" where
  "agent_reset_output os request =
     io_then (lifting (validate_fields request []))
     (io_bind require_connection (\<lambda>h.
      io_then (outer (ao_reset_output os h)) (returning (success []))))"

definition and_go_on :: "('w agent, json) io \<Rightarrow> ('w agent, json \<times> bool) io" where
  "and_go_on m = io_bind m (\<lambda>response. returning (response, False))"

definition agent_handle :: "'w agent_os \<Rightarrow> pystr \<Rightarrow> request \<Rightarrow> ('w agent, json \<times> bool) io" where
  \<comment> \<open>the response, and whether the process should stop\<close>
  "agent_handle os agent_version request =
     io_bind (lifting (validate_envelope request)) (\<lambda>operation.
     try_except
       (if operation = lit ''hello'' then
          and_go_on (io_then (lifting (validate_fields request []))
            (returning (success [(lit ''agent_version'', JStr agent_version)])))
        else if operation = lit ''open'' then and_go_on (agent_open os request)
        else if operation = lit ''write'' then and_go_on (agent_write os request)
        else if operation = lit ''read'' then and_go_on (agent_read os request)
        else if operation = lit ''reset_input'' then and_go_on (agent_reset_input os request)
        else if operation = lit ''reset_output'' then and_go_on (agent_reset_output os request)
        else if operation = lit ''close'' then
          io_then (lifting (validate_fields request []))
            (io_then (agent_close os) (returning (success [], True)))
        else raising (agent_error ''unknown_operation''
          [Txt (lit ''Unsupported operation: ''), Txt operation]))
       (\<lambda>e. if caught_by e SerialException \<or> caught_by e PyOSError
            then raising (agent_error ''serial_io'' [Txt (lit ''Serial operation failed: ''), Cause e])
            else raising e))"

section \<open>The process\<close>

text \<open>Standard input is the bytes still to come; \<^verbatim>\<open>readline\<close> takes at most \<open>limit\<close> of them.\<close>

definition readline :: "nat \<Rightarrow> bytes \<Rightarrow> bytes \<times> bytes" where
  "readline limit s =
     (let t = take limit s; (a, found, _) = partition_on 10 t;
          line = (if found then a @ [10] else t)
      in (line, drop (length line) s))"

lemma partition_on_length: "partition_on c s = (a, True, b) \<Longrightarrow> length s = length a + 1 + length b"
  by (drule partition_on_found) simp

lemma readline_length:
  assumes "readline limit s = (line, rest)" and "line \<noteq> []"
  shows "length rest < length s"
  using assms by (cases s) (auto simp: readline_def Let_def split: prod.splits if_splits)

function discard_rest :: "bytes \<Rightarrow> bytes" where
  \<comment> \<open>the loop of \<^verbatim>\<open>_discard_line_remainder\<close>: the input after the end of this line\<close>
  "discard_rest s =
     (case readline (MAX_JSON_LINE_BYTES + 1) s of (chunk, s') \<Rightarrow>
        if chunk = [] then s' else if suffix [10] chunk then s' else discard_rest s')"
  by pat_completeness auto
termination
  by (relation "measure length") (auto dest: readline_length [OF sym])

declare discard_rest.simps [simp del]

definition discard_line_remainder :: "bytes \<Rightarrow> bytes \<Rightarrow> bytes" where
  "discard_line_remainder first_chunk s = (if suffix [10] first_chunk then s else discard_rest s)"

definition answer ::
  "'w agent_os \<Rightarrow> pystr \<Rightarrow> (bytes \<Rightarrow> exn + pystr) \<Rightarrow> (piece \<Rightarrow> pystr) \<Rightarrow> bytes \<Rightarrow> ('w agent, json \<times> bool) io" where
  \<comment> \<open>the response to one line that is not too long\<close>
  "answer os agent_version wide shown line =
     try_except
       (io_bind (lifting (decode_request wide line)) (\<lambda>request. agent_handle os agent_version request))
       (\<lambda>e. if caught_by e AgentError then returning (failure shown e, False) else raising e)"

definition too_large :: exn where
  "too_large = agent_error ''request_too_large'' [Txt (lit ''JSON request line is too large'')]"

definition serve_step ::
  "'w agent_os \<Rightarrow> pystr \<Rightarrow> (bytes \<Rightarrow> exn + pystr) \<Rightarrow> (piece \<Rightarrow> pystr) \<Rightarrow> bytes
     \<Rightarrow> ('w agent, bytes + int) io" where
  "serve_step os agent_version wide shown input =
     (case readline (MAX_JSON_LINE_BYTES + 1) input of (line, rest) \<Rightarrow>
        if line = [] then returning (Inr 0)
        else
          io_bind
            (if MAX_JSON_LINE_BYTES < length line
             then returning ((failure shown too_large, False), discard_line_remainder line rest)
             else io_bind (answer os agent_version wide shown line) (\<lambda>q. returning (q, rest)))
            (\<lambda>((response, should_stop), rest').
             io_bind (lifting (encode_response response)) (\<lambda>b.
             io_then (outer (ao_output os b))
               (if should_stop then returning (Inr 0) else returning (Inl rest')))))"

definition agent_run ::
  "'w agent_os \<Rightarrow> pystr \<Rightarrow> (bytes \<Rightarrow> exn + pystr) \<Rightarrow> (piece \<Rightarrow> pystr) \<Rightarrow> bytes \<Rightarrow> ('w agent, int) io" where
  "agent_run os agent_version wide shown input =
     try_finally (io_loop (serve_step os agent_version wide shown) input) (agent_close os)"

section \<open>Ownership of the device\<close>

text \<open>An operating system that also records which devices are open.\<close>

definition tracked :: "'w agent_os \<Rightarrow> ('w \<times> nat list) agent_os" where
  "tracked os = \<lparr>
     ao_open = (\<lambda>d b. io_bind (outer (ao_open os d b)) (\<lambda>h.
       io_then (inner (modifying (\<lambda>l. l @ [h]))) (returning h))),
     ao_is_char_device = (\<lambda>d. outer (ao_is_char_device os d)),
     ao_set_timeout = (\<lambda>h t. outer (ao_set_timeout os h t)),
     ao_read = (\<lambda>h n. outer (ao_read os h n)), ao_write = (\<lambda>h d. outer (ao_write os h d)),
     ao_reset_input = (\<lambda>h. outer (ao_reset_input os h)),
     ao_reset_output = (\<lambda>h. outer (ao_reset_output os h)),
     ao_close = (\<lambda>h. io_then (inner (modifying (remove1 h))) (outer (ao_close os h))),
     ao_output = (\<lambda>b. outer (ao_output os b))\<rparr>"

definition owns :: "('w \<times> nat list) agent \<Rightarrow> bool" where
  \<comment> \<open>the open devices are the one the agent holds, if it holds one\<close>
  "owns a \<longleftrightarrow> snd (fst a) = (case snd a of None \<Rightarrow> [] | Some h \<Rightarrow> [h])"

lemma io_keeps_outer: "io_keeps (\<lambda>w. I (w, s)) m \<Longrightarrow> (\<And>s. io_keeps (\<lambda>w. I (w, s)) m) \<Longrightarrow> io_keeps I (outer m)"
  by (auto simp: io_keeps_def io_cases)

lemma owns_outer2: "io_keeps owns (outer (outer m))"
  by (auto simp: io_keeps_def io_cases owns_def)

lemma owns_connection: "io_keeps owns connection"
  by (auto simp: io_keeps_def connection_def io_cases run_simps)

lemma owns_require: "io_keeps owns require_connection"
  unfolding require_connection_def
  by (intro io_keeps_bind owns_connection) (auto intro: io_keeps_intros split: option.split)

lemma owns_tracked:
  "io_keeps owns (outer (ao_is_char_device (tracked os) d))"
  "io_keeps owns (outer (ao_set_timeout (tracked os) h t))"
  "io_keeps owns (outer (ao_read (tracked os) h n))"
  "io_keeps owns (outer (ao_write (tracked os) h p))"
  "io_keeps owns (outer (ao_reset_input (tracked os) h))"
  "io_keeps owns (outer (ao_reset_output (tracked os) h))"
  "io_keeps owns (outer (ao_output (tracked os) b))"
  by (simp_all add: tracked_def owns_outer2)

lemma owns_close: "io_keeps owns (agent_close (tracked os))"
  by (auto simp: io_keeps_def agent_close_def connection_def set_connection_def io_bind_def inner_def
      outer_def run_simps owns_def tracked_def split: option.splits sum.splits)

lemma agent_close_releases:
  assumes "agent_close os a = Some (r, a')" shows "snd a' = None"
  using assms
  by (cases r) (auto simp: agent_close_def connection_def set_connection_def io_cases run_simps
      split: option.splits)

lemma owns_opening:
  "io_post (\<lambda>a. owns a \<and> snd a = None)
     (io_bind (outer (ao_open (tracked os) d b)) (\<lambda>h. io_then (set_connection (Some h)) (returning x)))
     (\<lambda>r. owns)"
  unfolding io_post_def
proof (intro allI impI)
  fix a a' :: "('a \<times> nat list) agent" and r
  assume pre: "owns a \<and> snd a = None"
    and run: "io_bind (outer (ao_open (tracked os) d b)) (\<lambda>h. io_then (set_connection (Some h)) (returning x)) a
      = Some (r, a')"
  obtain w where a: "a = ((w, []), None)" using pre by (cases a) (auto simp: owns_def)
  from run show "owns a'"
    by (auto simp: a tracked_def set_connection_def io_bind_def outer_def inner_def run_simps owns_def
        split: option.splits sum.splits)
qed

lemma owns_open_device: "io_post (\<lambda>a. owns a \<and> snd a = None) (open_device (tracked os) request) (\<lambda>r. owns)"
proof -
  let ?P = "\<lambda>a. owns a \<and> snd a = None"
  have lift: "io_post ?P (lifting q) (\<lambda>r. ?P)" for q :: "exn + 'c" by (rule io_rules) simp
  have dev: "io_post ?P (outer (ao_is_char_device (tracked os) d)) (\<lambda>r. ?P)" for d
    by (auto simp: io_post_def tracked_def io_cases owns_def)
  show ?thesis
    unfolding open_device_def
    by (rule io_post_bind [OF lift] io_post_bind [OF dev] io_post_if io_post_simple owns_opening
        | simp)+
qed

lemma owns_open: "io_keeps owns (agent_open (tracked os) request)"
proof -
  have conn: "io_keeps owns (io_bind connection (\<lambda>c. if c \<noteq> None
      then raising (agent_error ''already_open'' [Txt (lit ''A serial device is already open'')])
      else open_device (tracked os) request))"
  proof -
    have "connection a = Some (Inr (snd a), a)" for a :: "('a \<times> nat list) agent"
      by (cases a) (simp add: connection_def inner_def run_simps)
    then show ?thesis
      using owns_open_device [of os request]
      by (auto simp: io_keeps_def io_post_def io_bind_def run_simps split: if_splits)
  qed
  then show ?thesis
    unfolding agent_open_def by (rule io_keeps_bind [OF io_keeps_intros(3)])
qed

lemma owns_ops:
  "io_keeps owns (agent_write (tracked os) request)" "io_keeps owns (agent_read (tracked os) request)"
  "io_keeps owns (agent_reset_input (tracked os) request)"
  "io_keeps owns (agent_reset_output (tracked os) request)"
  unfolding agent_write_def agent_read_def agent_reset_input_def agent_reset_output_def
  by (intro io_keeps_bind io_keeps_intros owns_require owns_tracked)+

lemma owns_handle: "io_keeps owns (agent_handle (tracked os) v request)"
  unfolding agent_handle_def and_go_on_def
  by (intro io_keeps_bind io_keeps_try_except io_keeps_intros owns_open owns_ops owns_close)

lemma owns_serve: "io_keeps owns (serve_step (tracked os) v wide shown input)"
  unfolding serve_step_def answer_def
  by (auto split: prod.split intro!: io_keeps_bind io_keeps_try_except io_keeps_intros owns_handle
      owns_tracked)

text \<open>
  C10. The agent never leaks a device: however its run ends - by \<^verbatim>\<open>close\<close>, at the end of its
  input, or by an exception that escapes the loop - every device it opened has been closed,
  and it holds none.
\<close>

theorem agent_run_releases:
  assumes "agent_run (tracked os) v wide shown input ((w, []), None) = Some (r, ((w', opened), c))"
  shows "c = None \<and> opened = []"
proof -
  let ?loop = "io_loop (serve_step (tracked os) v wide shown) input"
  from assms obtain q a where loop: "?loop ((w, []), None) = Some (q, a)"
    and close: "\<exists>p. agent_close (tracked os) a = Some (p, ((w', opened), c))"
    by (cases r) (auto simp: agent_run_def try_finally_Inr try_finally_Inl)
  have "owns ((w, []), None)" by (simp add: owns_def)
  with loop have "owns a" by (rule io_keepsD [OF io_keeps_loop [OF owns_serve]])
  with close have "owns ((w', opened), c)" using io_keepsD [OF owns_close] by blast
  moreover have "c = None" using close agent_close_releases by fastforce
  ultimately show ?thesis by (simp add: owns_def)
qed

section \<open>One answer per line\<close>

lemma partition_on_take:
  assumes "c \<notin> set a"
  shows "partition_on c (take n (a @ c # b)) =
    (if n \<le> length a then (take n a, False, []) else (a, True, take (n - Suc (length a)) b))"
proof (cases "n \<le> length a")
  case True
  with assms have "c \<notin> set (take n a)" by (auto dest: in_set_takeD)
  with True show ?thesis by (simp add: partition_on_notin)
next
  case False
  then have "take n (a @ c # b) = a @ c # take (n - Suc (length a)) b" by (simp add: take_Cons')
  with assms False show ?thesis by (simp add: partition_on_append)
qed

lemma readline_line:
  assumes "10 \<notin> set a"
  shows "readline n (a @ 10 # rest) =
    (if n \<le> length a then (take n a, drop n a @ 10 # rest) else (a @ [10], rest))"
proof (cases "n \<le> length a")
  case True
  then have t: "partition_on 10 (take n (a @ 10 # rest)) = (take n a, False, [])"
    by (simp only: partition_on_take [OF assms] if_True)
  show ?thesis unfolding readline_def Let_def t using True by simp
next
  case False
  then have t: "partition_on 10 (take n (a @ 10 # rest)) = (a, True, take (n - Suc (length a)) rest)"
    by (simp only: partition_on_take [OF assms] if_False)
  show ?thesis unfolding readline_def Let_def t using False by simp
qed

lemma discard_rest_line: "10 \<notin> set a \<Longrightarrow> discard_rest (a @ 10 # rest) = rest"
proof (induction a rule: length_induct)
  case (1 a)
  let ?n = "MAX_JSON_LINE_BYTES + 1"
  have n: "0 < ?n" by simp
  show ?case
  proof (cases "?n \<le> length a")
    case True
    then have ne: "take ?n a \<noteq> []" using n by auto
    have "10 \<notin> set (take ?n a)" "10 \<notin> set (drop ?n a)" using 1(2) by (auto dest: in_set_takeD in_set_dropD)
    moreover from this have "\<not> suffix [10] (take ?n a)" by (auto simp: suffix_def)
    moreover have "discard_rest (drop ?n a @ 10 # rest) = rest"
      using 1(1) True n calculation(2) by auto
    ultimately show ?thesis
      using ne True 1(2) by (subst discard_rest.simps) (simp add: readline_line)
  next
    case False
    with 1(2) show ?thesis by (subst discard_rest.simps) (simp add: readline_line)
  qed
qed

lemma serve_one_line:
  assumes "10 \<notin> set line"
  shows "serve_step os v wide shown (line @ 10 # rest) =
    io_bind
      (if length line < MAX_JSON_LINE_BYTES then answer os v wide shown (line @ [10])
       else returning (failure shown too_large, False))
      (\<lambda>(response, should_stop).
         io_bind (lifting (encode_response response)) (\<lambda>b.
         io_then (outer (ao_output os b))
           (if should_stop then returning (Inr 0) else returning (Inl rest))))"
proof (cases "length line < MAX_JSON_LINE_BYTES")
  case True
  with assms have "readline (MAX_JSON_LINE_BYTES + 1) (line @ 10 # rest) = (line @ [10], rest)"
    by (simp add: readline_line)
  with True show ?thesis
    by (simp add: serve_step_def io_bind_assoc split_def cong: if_cong)
next
  case False
  then have long: "MAX_JSON_LINE_BYTES \<le> length line" by simp
  show ?thesis
  proof (cases "MAX_JSON_LINE_BYTES + 1 \<le> length line")
    case True
    let ?n = "MAX_JSON_LINE_BYTES + 1"
    from assms True have r: "readline ?n (line @ 10 # rest) = (take ?n line, drop ?n line @ 10 # rest)"
      by (simp add: readline_line)
    have "10 \<notin> set (take ?n line)" "10 \<notin> set (drop ?n line)"
      using assms by (auto dest: in_set_takeD in_set_dropD)
    moreover from this have "\<not> suffix [10] (take ?n line)" by (auto simp: suffix_def)
    ultimately have "discard_line_remainder (take ?n line) (drop ?n line @ 10 # rest) = rest"
      by (simp add: discard_line_remainder_def discard_rest_line)
    with True r False show ?thesis by (cases line) (simp_all add: serve_step_def min_absorb2)
  next
    case exact: False
    with assms have r: "readline (MAX_JSON_LINE_BYTES + 1) (line @ 10 # rest) = (line @ [10], rest)"
      by (simp add: readline_line)
    moreover have "discard_line_remainder (line @ [10]) rest = rest"
      by (simp add: discard_line_remainder_def suffix_def)
    ultimately show ?thesis using False exact by (simp add: serve_step_def)
  qed
qed

text \<open>
  The agent stays in step with its input: one line of requests, however long, costs
  exactly one iteration and one response, and the next iteration starts right after the line.
  A line within the limit is decoded and handled, a longer one is answered with
  \<^verbatim>\<open>request_too_large\<close> and never decoded.
\<close>

lemma serve_step_line:
  assumes "10 \<notin> set line"
  shows "serve_step os v wide shown (line @ 10 # rest) =
    io_bind
      (if length line < MAX_JSON_LINE_BYTES then answer os v wide shown (line @ [10])
       else returning (failure shown too_large, False))
      (\<lambda>(response, should_stop).
         io_bind (lifting (encode_response response)) (\<lambda>b.
         io_then (outer (ao_output os b))
           (if should_stop then returning (Inr 0) else returning (Inl rest))))"
  using assms by (rule serve_one_line)

section \<open>Witnesses of the process\<close>

text \<open>Input is never UTF-16 or UTF-32 in the examples, and no piece of a message needs rendering.\<close>

definition no_wide :: "bytes \<Rightarrow> exn + pystr" where
  "no_wide b = Inl (raise_txt UnicodeDecodeError ''wide'')"

definition plain_pieces :: "piece \<Rightarrow> pystr" where
  "plain_pieces p = []"

text \<open>An operating system that opens every device as handle 7 and reads one byte.\<close>

definition example_os :: "nat agent_os" where
  "example_os = \<lparr>
     ao_open = (\<lambda>d b. returning 7), ao_is_char_device = (\<lambda>d. returning True),
     ao_set_timeout = (\<lambda>h t. returning ()), ao_read = (\<lambda>h n. returning [5]),
     ao_write = (\<lambda>h d. returning None), ao_reset_input = (\<lambda>h. returning ()),
     ao_reset_output = (\<lambda>h. returning ()), ao_close = (\<lambda>h. modifying Suc),
     ao_output = (\<lambda>b. returning ())\<rparr>"

lemma readline_end: "readline n [] = ([], [])"
  by (simp add: readline_def)

theorem agent_run_releases_witness:
  "agent_run (tracked example_os) [49] no_wide plain_pieces [] ((0, []), None) = Some (Inr 0, ((0, []), None)) \<and>
    (None :: nat option) = None \<and> ([] :: nat list) = []"
proof -
  have loop: "io_loop (serve_step (tracked example_os) [49] no_wide plain_pieces) [] ((0, []), None)
    = Some (Inr 0, ((0, []), None))"
    by (subst io_loop.simps)
      (simp add: serve_step_def readline_end io_bind_def run_simps io_sum_def)
  have run: "agent_run (tracked example_os) [49] no_wide plain_pieces [] ((0, []), None) = Some (Inr 0, ((0, []), None))"
    unfolding agent_run_def try_finally_def loop
    by (simp add: agent_close_def connection_def set_connection_def io_bind_def inner_def run_simps)
  then show ?thesis using agent_run_releases [OF run] by blast
qed

lemma serve_step_line_witness:
  "serve_step example_os [49] no_wide plain_pieces (blit ''{}'' @ 10 # blit ''rest'') =
    io_bind (answer example_os [49] no_wide plain_pieces (blit ''{}'' @ [10]))
      (\<lambda>(response, should_stop).
         io_bind (lifting (encode_response response)) (\<lambda>b.
         io_then (outer (ao_output example_os b))
           (if should_stop then returning (Inr 0) else returning (Inl (blit ''rest'')))))"
  using serve_step_line [of "blit ''{}''" example_os "[49]" no_wide plain_pieces "blit ''rest''"]
  by (simp add: blit_def MAX_JSON_LINE_BYTES_def)

section \<open>The limits of the agent\<close>

text \<open>An operating system that never returns from a call outside the documented limits.\<close>

definition only_if :: "bool \<Rightarrow> ('w, 'a) io \<Rightarrow> ('w, 'a) io" where
  "only_if b m = (if b then m else (\<lambda>_. None))"

definition limited :: "'w agent_os \<Rightarrow> 'w agent_os" where
  "limited os = os\<lparr>
     ao_open := (\<lambda>d b. only_if (below_dev d \<and> \<not> has_control_char d \<and> 1 \<le> b \<and> b \<le> 10000000) (ao_open os d b)),
     ao_is_char_device := (\<lambda>d. only_if (below_dev d \<and> \<not> has_control_char d) (ao_is_char_device os d)),
     ao_set_timeout := (\<lambda>h t. only_if (0 \<le> t \<and> t \<le> MAX_TIMEOUT_SECONDS) (ao_set_timeout os h t)),
     ao_read := (\<lambda>h n. only_if (1 \<le> n \<and> n \<le> MAX_READ_BYTES) (ao_read os h n)),
     ao_write := (\<lambda>h d. only_if (length d \<le> MAX_PAYLOAD_BYTES) (ao_write os h d))\<rparr>"

lemma only_if_True [simp]: "b \<Longrightarrow> only_if b m = m"
  by (simp add: only_if_def)

lemma limited_same:
  "ao_close (limited os) = ao_close os" "ao_output (limited os) = ao_output os"
  "ao_reset_input (limited os) = ao_reset_input os" "ao_reset_output (limited os) = ao_reset_output os"
  by (simp_all add: limited_def)

lemma validated_device:
  "try_bind q validate_device = Inr d \<Longrightarrow> below_dev d \<and> \<not> has_control_char d"
  by (cases q) (auto simp: validate_device_def split: if_splits)

lemma limited_open: "agent_open (limited os) request = agent_open os request"
proof -
  have "open_device (limited os) request = open_device os request"
    unfolding open_device_def
  proof (rule io_bind_lifting_cong)
    fix d assume "try_bind (require_string request ''device'') validate_device = Inr d"
    then have d: "below_dev d" "\<not> has_control_char d" by (auto dest: validated_device)
    show "io_bind (lifting (require_int request ''baudrate'' 1 10000000)) (\<lambda>b.
        io_bind (outer (ao_is_char_device (limited os) d)) (\<lambda>char_device.
        if \<not> char_device
        then raising (agent_error ''invalid_device''
          [Txt (lit ''Serial device is not a character device: ''), Txt d])
        else io_bind (outer (ao_open (limited os) d b)) (\<lambda>h.
          io_then (set_connection (Some h)) (returning (success []))))) =
      io_bind (lifting (require_int request ''baudrate'' 1 10000000)) (\<lambda>b.
        io_bind (outer (ao_is_char_device os d)) (\<lambda>char_device.
        if \<not> char_device
        then raising (agent_error ''invalid_device''
          [Txt (lit ''Serial device is not a character device: ''), Txt d])
        else io_bind (outer (ao_open os d b)) (\<lambda>h.
          io_then (set_connection (Some h)) (returning (success [])))))"
      using d by (intro io_bind_lifting_cong)
        (frule require_int_range, auto simp: limited_def intro!: io_bind_cong)
  qed
  then show ?thesis by (simp add: agent_open_def cong: if_cong)
qed

lemma limited_write: "agent_write (limited os) request = agent_write os request"
  unfolding agent_write_def
  by (intro io_bind_cong io_bind_lifting_cong) (auto simp: limited_def dest: decode_payload_bound)

lemma limited_read: "agent_read (limited os) request = agent_read os request"
  unfolding agent_read_def
  by (intro io_bind_cong io_bind_lifting_cong)
    (frule require_int_range, frule require_timeout_range, simp add: limited_def)

lemma limited_handle: "agent_handle (limited os) v request = agent_handle os v request"
proof -
  have "agent_reset_input (limited os) = agent_reset_input os"
    "agent_reset_output (limited os) = agent_reset_output os" "agent_close (limited os) = agent_close os"
    unfolding fun_eq_iff agent_reset_input_def agent_reset_output_def agent_close_def limited_same by simp_all
  then show ?thesis
    by (simp add: agent_handle_def limited_open limited_write limited_read cong: if_cong)
qed

text \<open>
  C30. Whatever bytes arrive, the agent asks the operating system only for what its limits
  allow: it opens and examines only paths below \<^verbatim>\<open>/dev\<close> without control characters, at 1 to
  10000000 baud, reads 1 to 262144 bytes with a timeout of 0 to 120 seconds, and writes at
  most 262144 bytes - a run is the same on a system that hangs on every other call.
\<close>

theorem agent_run_limited:
  "agent_run (limited os) v wide shown = agent_run os v wide shown"
proof -
  have "serve_step (limited os) v wide shown input = serve_step os v wide shown input" for input
    unfolding serve_step_def answer_def limited_handle limited_same by (rule refl)
  then have "serve_step (limited os) v wide shown = serve_step os v wide shown" by (rule ext)
  moreover have "agent_close (limited os) = agent_close os"
    unfolding agent_close_def limited_same by (rule refl)
  ultimately show ?thesis by (intro ext) (simp add: agent_run_def)
qed

section \<open>Every well-formed request is answered\<close>

definition serial_failure :: "exn \<Rightarrow> bool" where
  "serial_failure e \<longleftrightarrow> caught_by e SerialException \<or> caught_by e PyOSError"

definition working_os :: "'w agent_os \<Rightarrow> bool" where
  \<comment> \<open>pyserial and the file system return, and fail only with their documented exceptions\<close>
  "working_os os \<longleftrightarrow>
     (\<forall>d b. io_raises serial_failure (ao_open os d b)) \<and>
     (\<forall>d. io_raises serial_failure (ao_is_char_device os d)) \<and>
     (\<forall>h t. io_raises serial_failure (ao_set_timeout os h t)) \<and>
     (\<forall>h n. io_raises serial_failure (ao_read os h n)) \<and>
     (\<forall>h d. io_raises serial_failure (ao_write os h d)) \<and>
     (\<forall>h. io_raises serial_failure (ao_reset_input os h)) \<and>
     (\<forall>h. io_raises serial_failure (ao_reset_output os h)) \<and>
     (\<forall>h. io_raises serial_failure (ao_close os h))"

definition float_range :: "request \<Rightarrow> bool" where
  \<comment> \<open>an integer timeout is one a double can hold\<close>
  "float_range request \<longleftrightarrow>
     (case map_of request (lit ''timeout'') of
        Some (JInt i) \<Rightarrow> \<bar>i\<bar> < 2 ^ 1024 - 2 ^ 970 | _ \<Rightarrow> True)"

definition reportable :: "request \<Rightarrow> exn \<Rightarrow> bool" where
  \<comment> \<open>what handling a request may raise: reported errors, and the overflow of its timeout\<close>
  "reportable request e \<longleftrightarrow> serial_failure e \<or> exn_kind e = AgentError \<or>
     exn_kind e = PyOverflowError \<and> \<not> float_range request"

lemma require_timeout_float:
  assumes "require_timeout request = Inl e"
  shows "exn_kind e = AgentError \<or> exn_kind e = PyOverflowError \<and> \<not> float_range request"
proof (cases "float_range request")
  case True
  then have "float_of_int i = Inr (of_int i)" if "map_of request (lit ''timeout'') = Some (JInt i)" for i
    using that by (auto simp: float_range_def float_of_int_def)
  then show ?thesis
    using assms by (auto simp: require_timeout_def timeout_range_def split: option.splits json.splits
        pyfloat.splits if_splits)
qed (use assms require_timeout_error in blast)

lemma expected_lifting:
  "io_raises (reportable q) (lifting (validate_envelope r))" "io_raises (reportable q) (lifting (validate_fields r ks))"
  "io_raises (reportable q) (lifting (require_string r n))" "io_raises (reportable q) (lifting (require_int r n lo hi))"
  "io_raises (reportable q) (lifting (decode_payload r))"
  "io_raises (reportable q) (lifting (try_bind (require_string r n) validate_device))"
  "io_raises (reportable r) (lifting (require_timeout r))"
        apply (intro io_raises_simple(3), simp add: reportable_def validation_errors)
       apply (intro io_raises_simple(3), simp add: reportable_def validation_errors)
      apply (intro io_raises_simple(3), simp add: reportable_def validation_errors)
     apply (intro io_raises_simple(3), simp add: reportable_def validation_errors)
    apply (intro io_raises_simple(3), simp add: reportable_def validation_errors)
   apply (intro io_raises_simple(3), cases "require_string r n")
    apply (auto simp: reportable_def validation_errors validate_device_def split: if_splits) [2]
  apply (intro io_raises_simple(3), simp add: reportable_def require_timeout_float)
  done

lemma expected_agent:
  "io_raises (reportable q) connection" "io_raises (reportable q) require_connection"
  "io_raises (reportable q) (set_connection c)"
  by (auto simp: connection_def require_connection_def set_connection_def reportable_def
      intro!: io_raises_intros split: option.split)

lemma expected_outer: "io_raises serial_failure m \<Longrightarrow> io_raises (reportable q) (outer m)"
  by (rule io_raises_outer, erule io_raises_weaken) (simp add: reportable_def)

lemma expected_os:
  assumes "working_os os"
  shows "io_raises (reportable q) (outer (ao_open os d b))" "io_raises (reportable q) (outer (ao_is_char_device os d))"
    "io_raises (reportable q) (outer (ao_set_timeout os h t))" "io_raises (reportable q) (outer (ao_read os h n))"
    "io_raises (reportable q) (outer (ao_write os h p))" "io_raises (reportable q) (outer (ao_reset_input os h))"
    "io_raises (reportable q) (outer (ao_reset_output os h))" "io_raises (reportable q) (outer (ao_close os h))"
  using assms by (auto simp: working_os_def intro!: expected_outer)

lemma expected_ops:
  assumes "working_os os"
  shows "io_raises (reportable q) (agent_open os r)" "io_raises (reportable q) (agent_write os r)"
    "io_raises (reportable r) (agent_read os r)" "io_raises (reportable q) (agent_reset_input os r)"
    "io_raises (reportable q) (agent_reset_output os r)" "io_raises (reportable q) (agent_close os)"
  unfolding agent_open_def open_device_def agent_write_def agent_read_def agent_reset_input_def
    agent_reset_output_def agent_close_def
  using assms
  by (auto intro!: io_raises_bind io_raises_simple(1,2) expected_os expected_agent expected_lifting
      simp: reportable_def split: option.split)

definition answered :: "request \<Rightarrow> exn \<Rightarrow> bool" where
  "answered request e \<longleftrightarrow> exn_kind e = AgentError \<or> exn_kind e = PyOverflowError \<and> \<not> float_range request"

lemma handle_raises:
  assumes "working_os os"
  shows "io_raises (answered r) (agent_handle os v r)"
proof -
  have env: "io_raises (answered r) (lifting (validate_envelope r))"
    by (intro io_raises_simple(3)) (simp add: answered_def validation_errors)
  show ?thesis
    unfolding agent_handle_def and_go_on_def
    by (rule io_raises_bind [OF env], rule io_raises_try_except [where L = "reportable r"])
      (auto intro!: io_raises_bind io_raises_simple(1,2) expected_ops expected_lifting assms
        simp: reportable_def answered_def serial_failure_def)
qed

text \<open>
  C31. On a working serial library every line that decodes to a JSON object is answered: the
  agent returns a response for it, errors of the device included. The one exception is an
  integer \<^verbatim>\<open>timeout\<close> beyond the range of doubles, whose \<^verbatim>\<open>OverflowError\<close> is not answered; nothing
  else is ever raised.
\<close>

theorem agent_answers:
  assumes "working_os os" and "decode_request wide line = Inr request"
  shows "\<exists>r a'. answer os v wide shown line a = Some (r, a') \<and>
    (\<forall>e. r = Inl e \<longrightarrow> exn_kind e = PyOverflowError \<and> \<not> float_range request)"
proof -
  have "io_raises (\<lambda>e. exn_kind e = PyOverflowError \<and> \<not> float_range request) (answer os v wide shown line)"
    unfolding answer_def assms(2)
  proof (rule io_raises_try_except [where L = "answered request"])
    show "io_raises (answered request) (io_bind (lifting (Inr request)) (agent_handle os v))"
      using handle_raises [OF assms(1)]
      by (simp add: io_raises_def io_bind_def lifting_def)
  next
    fix e assume "answered request e"
    moreover have "subclass_of AgentError AgentError" by code_simp
    ultimately show "io_raises (\<lambda>e. exn_kind e = PyOverflowError \<and> \<not> float_range request)
        (if caught_by e AgentError then returning (failure shown e, False) else raising e)"
      by (auto simp: answered_def caught_by_def intro: io_raises_simple)
  qed
  then show ?thesis using io_raisesD [where w = a] by blast
qed

definition hello_request :: request where
  "hello_request = [(lit ''version'', JInt 1), (lit ''operation'', JStr (lit ''hello''))]"

theorem agent_answers_witness:
  "\<exists>q a'. answer example_os [49] no_wide plain_pieces (map byte (json_dumps (JObj hello_request) @ [10])) (0, None)
    = Some (Inr q, a')"
proof -
  have "working_os example_os"
    by (simp add: working_os_def example_os_def io_raises_def run_simps)
  moreover have "decode_request no_wide (map byte (json_dumps (JObj hello_request) @ [10])) = Inr hello_request"
    by (rule decode_request_dumps)
      (simp_all add: hello_request_def dict_ok_def lit_def scalar_value_def printable_bound [where k = 1])
  moreover have "float_range hello_request"
    by (simp add: float_range_def hello_request_def)
  ultimately obtain r a' where "answer example_os [49] no_wide plain_pieces (map byte (json_dumps (JObj hello_request) @ [10])) (0, None)
      = Some (r, a')" "\<forall>e. r \<noteq> Inl e"
    using agent_answers [of example_os no_wide "map byte (json_dumps (JObj hello_request) @ [10])" hello_request
        "[49]" plain_pieces "(0, None)"] by blast
  then show ?thesis by (cases r) auto
qed

end
