(* ===== verification/Agent_Channel.thy ===== *)
theory Agent_Channel
  imports Serial_Agent Transports
begin

text \<open>
  The client of the serial agent, \<^verbatim>\<open>src/hardware_test/transport/serial_agent.py\<close>, and the
  transport built on it, \<^verbatim>\<open>pyserial_over_ssh.py\<close>. A \<^verbatim>\<open>SerialAgentChannel\<close> owns two buffers
  beside the SSH channel: the bytes of responses not yet parsed and the serial bytes not yet
  received. Its world is therefore the world of the SSH channel paired with the buffers, and
  \<open>agent_channel\<close> is again a \<open>console_channel\<close>, the interface the console session runs on.
\<close>

definition MAX_RESPONSE_BYTES :: nat where "MAX_RESPONSE_BYTES = 1048576"
definition READ_SIZE :: int where "READ_SIZE = 65535"

record agent_buffers =
  response_buffer :: bytes
  serial_buffer :: bytes

definition no_buffers :: agent_buffers where
  "no_buffers = \<lparr>response_buffer = [], serial_buffer = []\<rparr>"

section \<open>Requests and responses\<close>

definition request_line :: "string \<Rightarrow> (pystr \<times> json) list \<Rightarrow> exn + bytes" where
  "request_line operation values = utf8_encode (json_dumps (JObj
     ([(lit ''version'', JInt PROTOCOL_VERSION), (lit ''operation'', JStr (lit operation))] @ values)) @ [10])"

definition decode_response :: "(bytes \<Rightarrow> exn + pystr) \<Rightarrow> bytes \<Rightarrow> exn + request" where
  "decode_response wide line =
     (case json_loads wide line of
        Inl e \<Rightarrow>
          if caught_by e UnicodeDecodeError \<or> caught_by e JSONDecodeError
          then Inl (raise_txt TransportError ''Serial agent returned invalid JSON'')
          else Inl e
      | Inr (JObj kvs) \<Rightarrow> Inr kvs
      | Inr _ \<Rightarrow> Inl (raise_txt TransportError ''Serial agent response must be a JSON object''))"

definition error_message :: "request \<Rightarrow> string \<Rightarrow> piece list" where
  "error_message response operation =
     (let rejected = [Txt (lit ''Serial agent rejected operation ''), Repr (lit operation)] in
      case map_of response (lit ''error'') of
        Some (JObj error) \<Rightarrow>
          (case (map_of error (lit ''code''), map_of error (lit ''message'')) of
             (Some (JStr code), Some (JStr message)) \<Rightarrow>
               [Txt (lit ''Serial agent ''), Txt code, Txt (lit '' during ''), Repr (lit operation),
                Txt (lit '': ''), Txt message]
           | _ \<Rightarrow> rejected)
      | _ \<Rightarrow> rejected)"

definition check_response :: "string \<Rightarrow> request \<Rightarrow> exn + request" where
  \<comment> \<open>the end of \<^verbatim>\<open>_request\<close>\<close>
  "check_response operation response =
     (if \<not> is_protocol_version (map_of response (lit ''version''))
      then Inl (raise_txt TransportError ''Serial agent returned an unsupported protocol version'')
      else if map_of response (lit ''ok'') \<noteq> Some (JBool True)
      then Inl (Exn TransportError (error_message response operation))
      else Inr response)"

section \<open>The channel\<close>

type_synonym ('w, 'a) agent_io = "('w \<times> agent_buffers, 'a) io"

definition channel_closed :: "'w console_channel \<Rightarrow> ('w, bool) agent_io" where
  "channel_closed ch = outer (io_bind (ch_closed ch) (\<lambda>c.
     if c then returning True else ch_exit_status_ready ch))"

definition read_response_step ::
  "(bytes \<Rightarrow> exn + pystr) \<Rightarrow> 'w console_channel \<Rightarrow> 'w runtime \<Rightarrow> rat \<Rightarrow> string \<Rightarrow> unit
     \<Rightarrow> ('w, unit + request) agent_io" where
  "read_response_step wide ch rt deadline operation u =
     io_bind (outer (rt_monotonic rt)) (\<lambda>now.
     if \<not> now < deadline
     then raising (Exn TransportTimeoutError [Txt (lit ''Serial agent operation ''),
       Repr (lit operation), Txt (lit '' timed out'')])
     else
       io_bind (inner (reading response_buffer)) (\<lambda>buffer.
       case partition_on 10 buffer of
         (line, True, rest) \<Rightarrow>
           io_then (inner (modifying (\<lambda>b. b\<lparr>response_buffer := rest\<rparr>)))
             (io_bind (lifting (decode_response wide line)) (\<lambda>r. returning (Inr r)))
       | _ \<Rightarrow>
           io_bind (outer (ch_recv_ready ch)) (\<lambda>ready.
           if ready then
             io_bind (outer (ch_recv ch 65535)) (\<lambda>chunk.
             io_then (inner (modifying (\<lambda>b. b\<lparr>response_buffer := buffer @ chunk\<rparr>)))
               (if MAX_RESPONSE_BYTES < length (buffer @ chunk)
                then raising (raise_txt TransportError ''Serial agent response is too large'')
                else returning (Inl ())))
           else
             io_bind (outer (ch_exit_status_ready ch)) (\<lambda>exited.
             if exited
             then raising (Exn TransportError [Txt (lit ''Serial agent exited during operation ''),
               Repr (lit operation)])
             else io_then (outer (rt_sleep rt poll_interval)) (returning (Inl ()))))))"

definition read_response ::
  "(bytes \<Rightarrow> exn + pystr) \<Rightarrow> 'w console_channel \<Rightarrow> 'w runtime \<Rightarrow> rat \<Rightarrow> string \<Rightarrow> ('w, request) agent_io" where
  "read_response wide ch rt request_timeout operation =
     io_bind (outer (rt_monotonic rt)) (\<lambda>now.
       io_loop (read_response_step wide ch rt (now + request_timeout) operation) ())"

definition channel_request ::
  "(bytes \<Rightarrow> exn + pystr) \<Rightarrow> 'w console_channel \<Rightarrow> 'w runtime \<Rightarrow> rat \<Rightarrow> string \<Rightarrow> (pystr \<times> json) list
     \<Rightarrow> ('w, request) agent_io" where
  "channel_request wide ch rt request_timeout operation values =
     io_bind (channel_closed ch) (\<lambda>closed.
     if closed
     then raising (Exn TransportError [Txt (lit ''Serial agent exited before operation ''),
       Repr (lit operation)])
     else
       io_bind (lifting (request_line operation values)) (\<lambda>line.
       io_then (outer (ch_sendall ch line))
       (io_bind (read_response wide ch rt request_timeout operation) (\<lambda>response.
        lifting (check_response operation response)))))"

definition channel_negotiate ::
  "(bytes \<Rightarrow> exn + pystr) \<Rightarrow> 'w console_channel \<Rightarrow> 'w runtime \<Rightarrow> rat \<Rightarrow> ('w, pystr) agent_io" where
  "channel_negotiate wide ch rt request_timeout =
     io_bind (channel_request wide ch rt request_timeout ''hello'' []) (\<lambda>response.
     case map_of response (lit ''agent_version'') of
       Some (JStr (c # cs)) \<Rightarrow> returning (c # cs)
     | _ \<Rightarrow> raising (raise_txt TransportError ''Serial agent returned an invalid version''))"

definition channel_open ::
  "(bytes \<Rightarrow> exn + pystr) \<Rightarrow> 'w console_channel \<Rightarrow> 'w runtime \<Rightarrow> rat \<Rightarrow> pystr \<Rightarrow> int \<Rightarrow> ('w, unit) agent_io" where
  "channel_open wide ch rt request_timeout device baudrate =
     io_then (channel_request wide ch rt request_timeout ''open''
         [(lit ''device'', JStr device), (lit ''baudrate'', JInt baudrate)])
       (returning ())"

definition repr_value :: "json option \<Rightarrow> piece" where
  \<comment> \<open>\<^verbatim>\<open>repr\<close>; a container is shown in its JSON form\<close>
  "repr_value v =
     (case v of
        None \<Rightarrow> Txt (lit ''None'') | Some JNull \<Rightarrow> Txt (lit ''None'')
      | Some (JBool b) \<Rightarrow> Txt (if b then lit ''True'' else lit ''False'')
      | Some (JStr s) \<Rightarrow> Repr s | Some v \<Rightarrow> Txt (json_dumps v))"

definition channel_sendall ::
  "(bytes \<Rightarrow> exn + pystr) \<Rightarrow> 'w console_channel \<Rightarrow> 'w runtime \<Rightarrow> rat \<Rightarrow> bytes \<Rightarrow> ('w, unit) agent_io" where
  "channel_sendall wide ch rt request_timeout s =
     io_bind (channel_request wide ch rt request_timeout ''write'' [(lit ''data'', JStr (b64encode s))])
       (\<lambda>response.
       let written = map_of response (lit ''written'') in
       if written = Some (JInt (int (length s))) then returning ()
       else raising (Exn TransportError [Txt (lit ''Serial agent reported a partial write: expected ''),
         Txt (nat_text (length s)), Txt (lit '', got ''), repr_value written]))"

definition channel_recv_ready ::
  "(bytes \<Rightarrow> exn + pystr) \<Rightarrow> 'w console_channel \<Rightarrow> 'w runtime \<Rightarrow> rat \<Rightarrow> ('w, bool) agent_io" where
  "channel_recv_ready wide ch rt request_timeout =
     io_bind (inner (reading serial_buffer)) (\<lambda>buffer.
     if buffer \<noteq> [] then returning True
     else
       io_bind (channel_closed ch) (\<lambda>closed.
       if closed then returning False
       else
         io_bind (channel_request wide ch rt request_timeout ''read''
             [(lit ''size'', JInt READ_SIZE), (lit ''timeout'', JFloat (lit ''0.05''))]) (\<lambda>response.
         case map_of response (lit ''data'') of
           Some (JStr encoded) \<Rightarrow>
             (case b64decode encoded of
                Inl e \<Rightarrow> raising (raise_txt TransportError ''Serial agent returned invalid Base64 data'')
              | Inr data \<Rightarrow>
                  io_then (inner (modifying (\<lambda>b. b\<lparr>serial_buffer := serial_buffer b @ data\<rparr>)))
                    (io_bind (inner (reading serial_buffer)) (\<lambda>s. returning (s \<noteq> []))))
         | _ \<Rightarrow> raising (raise_txt TransportError ''Serial agent returned invalid read data''))))"

definition channel_recv :: "nat \<Rightarrow> ('w, bytes) agent_io" where
  "channel_recv nbytes =
     io_bind (inner (reading serial_buffer)) (\<lambda>buffer.
     io_then (inner (modifying (\<lambda>b. b\<lparr>serial_buffer := drop nbytes buffer\<rparr>)))
       (returning (take nbytes buffer)))"

definition channel_reset_input ::
  "(bytes \<Rightarrow> exn + pystr) \<Rightarrow> 'w console_channel \<Rightarrow> 'w runtime \<Rightarrow> rat \<Rightarrow> ('w, unit) agent_io" where
  "channel_reset_input wide ch rt request_timeout =
     io_then (inner (modifying (\<lambda>b. b\<lparr>serial_buffer := []\<rparr>)))
     (io_then (channel_request wide ch rt request_timeout ''reset_input'' []) (returning ()))"

definition channel_close ::
  "(bytes \<Rightarrow> exn + pystr) \<Rightarrow> 'w console_channel \<Rightarrow> ('w, unit) io \<Rightarrow> 'w runtime \<Rightarrow> rat \<Rightarrow> ('w, unit) agent_io" where
  \<comment> \<open>of the channel's own \<^verbatim>\<open>close\<close>\<close>
  "channel_close wide ch close rt request_timeout =
     try_finally
       (try_except
         (io_bind (channel_closed ch) (\<lambda>closed.
          if closed then returning ()
          else io_then (channel_request wide ch rt request_timeout ''close'' []) (returning ())))
         (\<lambda>e. if caught_by e TransportError then returning () else raising e))
       (outer close)"

definition agent_channel ::
  "(bytes \<Rightarrow> exn + pystr) \<Rightarrow> 'w console_channel \<Rightarrow> 'w runtime \<Rightarrow> rat \<Rightarrow> ('w \<times> agent_buffers) console_channel" where
  \<comment> \<open>the operations of \<^verbatim>\<open>ConsoleChannel\<close>\<close>
  "agent_channel wide ch rt request_timeout = \<lparr>
     ch_closed = channel_closed ch,
     ch_sendall = channel_sendall wide ch rt request_timeout,
     ch_recv_ready = channel_recv_ready wide ch rt request_timeout,
     ch_recv = channel_recv,
     ch_exit_status_ready = outer (ch_exit_status_ready ch)\<rparr>"

section \<open>The transport\<close>

definition paired_runtime :: "'w runtime \<Rightarrow> ('w \<times> 's) runtime" where
  "paired_runtime rt = \<lparr>rt_monotonic = outer (rt_monotonic rt), rt_sleep = (\<lambda>t. outer (rt_sleep rt t)),
     rt_uuid4_hex = outer (rt_uuid4_hex rt)\<rparr>"

type_synonym ('w, 'a) agent_transport_io = "(('w \<times> agent_buffers) \<times> fields_state, 'a) io"

text \<open>The channel over the SSH channel \<open>c\<close>, as the console session sees it.\<close>

definition console_of ::
  "(bytes \<Rightarrow> exn + pystr) \<Rightarrow> 'w paramiko \<Rightarrow> 'w runtime \<Rightarrow> rat \<Rightarrow> nat \<Rightarrow> ('w \<times> agent_buffers) console_channel" where
  "console_of wide pk rt command_tmo c = agent_channel wide (pk_channel pk c) rt command_tmo"

definition remote_open ::
  "(bytes \<Rightarrow> exn + pystr) \<Rightarrow> 'w paramiko \<Rightarrow> 'w runtime \<Rightarrow> nat \<Rightarrow> ssh_connection \<Rightarrow> pystr \<Rightarrow> int
     \<Rightarrow> console_session_config \<Rightarrow> pystr \<Rightarrow> rat \<Rightarrow> rat \<Rightarrow> ('w, unit) agent_transport_io" where
  \<comment> \<open>the body of the \<^verbatim>\<open>try\<close> of \<^verbatim>\<open>connect\<close>\<close>
  "remote_open wide pk rt client ssh serial_device baudrate console agent_command connect_tmo command_tmo =
     io_then (outer (outer (connect_client pk client ssh connect_tmo)))
     (io_bind (outer (outer (pk_get_transport pk client))) (\<lambda>transport.
      io_bind (case transport of None \<Rightarrow> returning False | Some t \<Rightarrow> outer (outer (pk_is_active pk t)))
      (\<lambda>active.
      if \<not> active
      then raising (raise_txt TransportError
        ''SSH connection became inactive before serial agent started'')
      else
        io_bind (outer (outer (pk_open_session pk (the transport) connect_tmo))) (\<lambda>channel.
        io_then (outer (outer (pk_channel_exec pk channel (shlex_quote agent_command))))
        (io_then (outer (inner (modifying (\<lambda>_. no_buffers))))
        (io_then (outer (channel_negotiate wide (pk_channel pk channel) rt command_tmo))
        (io_then (outer (channel_open wide (pk_channel pk channel) rt command_tmo serial_device baudrate))
        (io_then (set_fields (\<lambda>_. \<lparr>f_client = Some client, f_channel = Some channel, f_console = True\<rparr>))
          (outer (prepare_console (console_of wide pk rt command_tmo channel) (paired_runtime rt)
             console connect_tmo))))))))))"

definition close_agent ::
  "(bytes \<Rightarrow> exn + pystr) \<Rightarrow> 'w paramiko \<Rightarrow> 'w runtime \<Rightarrow> rat \<Rightarrow> nat \<Rightarrow> ('w, unit) agent_io" where
  "close_agent wide pk rt command_tmo c =
     channel_close wide (pk_channel pk c) (pk_channel_close pk c) rt command_tmo"

definition remote_connect ::
  "(bytes \<Rightarrow> exn + pystr) \<Rightarrow> 'w paramiko \<Rightarrow> 'w runtime \<Rightarrow> ssh_connection \<Rightarrow> pystr \<Rightarrow> int
     \<Rightarrow> console_session_config \<Rightarrow> pystr \<Rightarrow> rat \<Rightarrow> rat \<Rightarrow> ('w, unit) agent_transport_io" where
  "remote_connect wide pk rt ssh serial_device baudrate console agent_command connect_tmo command_tmo =
     io_bind (get_field f_client) (\<lambda>open'.
     if open' \<noteq> None then returning ()
     else
       io_bind (outer (outer (pk_client pk))) (\<lambda>client.
       io_then (outer (outer (configure_host_key_policy pk client (sc_host_key_policy ssh)
         (sc_known_hosts_path ssh))))
       (try_except
         (remote_open wide pk rt client ssh serial_device baudrate console agent_command connect_tmo
           command_tmo)
         (\<lambda>e. io_then (abandon_connect (close_agent wide pk rt command_tmo) (outer (pk_close pk client)))
           (raising e)))))"

definition remote_close ::
  "(bytes \<Rightarrow> exn + pystr) \<Rightarrow> 'w paramiko \<Rightarrow> 'w runtime \<Rightarrow> rat \<Rightarrow> ('w, unit) agent_transport_io" where
  "remote_close wide pk rt command_tmo =
     io_bind (get_field (\<lambda>s. (f_channel s, f_client s))) (\<lambda>(channel, client).
     io_then (set_fields (\<lambda>_. disconnected))
     (try_finally
       (case channel of None \<Rightarrow> returning () | Some c \<Rightarrow> outer (close_agent wide pk rt command_tmo c))
       (case client of None \<Rightarrow> returning () | Some c \<Rightarrow> outer (outer (pk_close pk c)))))"

definition remote_execute ::
  "(bytes \<Rightarrow> exn + pystr) \<Rightarrow> 'w paramiko \<Rightarrow> 'w runtime \<Rightarrow> console_session_config \<Rightarrow> rat \<Rightarrow> command
     \<Rightarrow> ('w, command_result) agent_transport_io" where
  "remote_execute wide pk rt console command_tmo command =
     (if \<not> is_unix_command command then raising (unsupported ''PySerialOverSshTransport'' command)
      else
        io_bind (get_field (\<lambda>s. (f_console s, f_channel s))) (\<lambda>(console', channel).
        case (console', channel) of
          (True, Some c) \<Rightarrow> execute_in_console (console_of wide pk rt command_tmo c) (paired_runtime rt)
            console command_tmo command
        | _ \<Rightarrow> raising (raise_txt PyRuntimeError ''PySerial-over-SSH transport is not connected'')))"

text \<open>The transport keeps the contract of the others.\<close>

definition quiet_agent :: "(bytes \<Rightarrow> exn + pystr) \<Rightarrow> 'w paramiko \<Rightarrow> 'w runtime \<Rightarrow> rat \<Rightarrow> bool" where
  "quiet_agent wide pk rt command_tmo \<longleftrightarrow>
     (\<forall>c w e w'. close_agent wide pk rt command_tmo c w \<noteq> Some (Inl e, w'))"

lemma remote_open_client:
  assumes "remote_open wide pk rt c ssh d b console a t m ws = Some (Inr u, ws')"
  shows "f_client (snd ws') = Some c"
  using assms by (auto simp: remote_open_def io_cases split: if_splits option.splits)

lemma remote_connect_result:
  assumes "remote_connect wide pk rt ssh d b console a t m (w, s) = Some (r, (w', s'))"
  shows "(\<forall>u. r = Inr u \<longrightarrow> f_client s' \<noteq> None) \<and>
    (\<forall>e. r = Inl e \<longrightarrow> quiet_agent wide pk rt m \<longrightarrow> s' = s \<or> s' = disconnected)"
proof -
  note left = abandon_connect_fields [of "close_agent wide pk rt m", folded quiet_agent_def]
  show ?thesis
    using assms
    by (cases r) (auto simp: remote_connect_def io_cases split: if_splits
        dest: remote_open_client left)
qed

interpretation remote: transport_contract "remote_connect wide pk rt conf d b console a t m"
  "remote_close wide pk rt m" "remote_execute wide pk rt console m" is_unix_command
  "\<lambda>s. f_client s \<noteq> None \<or> f_channel s \<noteq> None" "quiet_agent wide pk rt m"
  for wide and pk :: "'w paramiko" and rt conf d b console a t m
proof (unfold_locales, goal_cases)
  case (1 w s u w' s') then show ?case by (auto dest: remote_connect_result)
next
  case (2 s w e w' s') then show ?case by (auto dest!: remote_connect_result simp: disconnected_def)
next
  case (3 w s u w' s')
  then show ?case by (auto simp: remote_close_def io_cases disconnected_def split: option.splits)
next
  case (4 s w)
  then show ?case
    by (simp add: remote_close_def io_bind_def try_finally_def run_fields run_simps)
next
  case (5 c ws) then show ?case by (simp add: remote_execute_def run_simps unsupported_def)
next
  case (6 c s w)
  then show ?case
    by (simp add: remote_execute_def io_bind_def run_fields run_simps raise_txt_def split: bool.split)
qed

end
