(* ===== verification/Agent_Link.thy ===== *)
theory Agent_Link
  imports Agent_Channel
begin

text \<open>
  The two ends of the serial-agent protocol put together: the client of
  \<^verbatim>\<open>src/hardware_test/transport/serial_agent.py\<close> over a channel whose far side is the agent
  process of \<^verbatim>\<open>src/helpers/serial-agent\<close>. The composition does to the serial port what the
  operation asks, once, and hands back what the port delivered.
\<close>

section \<open>The agent behind a channel\<close>

text \<open>The agent's standard output is a queue of bytes kept beside its operating system.\<close>

definition piped :: "'w agent_os \<Rightarrow> ('w \<times> bytes) agent_os" where
  "piped os = \<lparr>
     ao_open = (\<lambda>d b. outer (ao_open os d b)), ao_is_char_device = (\<lambda>d. outer (ao_is_char_device os d)),
     ao_set_timeout = (\<lambda>h t. outer (ao_set_timeout os h t)),
     ao_read = (\<lambda>h n. outer (ao_read os h n)), ao_write = (\<lambda>h d. outer (ao_write os h d)),
     ao_reset_input = (\<lambda>h. outer (ao_reset_input os h)),
     ao_reset_output = (\<lambda>h. outer (ao_reset_output os h)), ao_close = (\<lambda>h. outer (ao_close os h)),
     ao_output = (\<lambda>b. inner (modifying (\<lambda>out. out @ b)))\<rparr>"

text \<open>A channel to the agent: it runs one iteration for the line it is sent, and is over when the
  agent has stopped.\<close>

type_synonym 'w link = "('w \<times> bytes) agent \<times> bool"

definition agent_link ::
  "'w agent_os \<Rightarrow> pystr \<Rightarrow> (bytes \<Rightarrow> exn + pystr) \<Rightarrow> (piece \<Rightarrow> pystr) \<Rightarrow> 'w link console_channel" where
  "agent_link os v wide shown = \<lparr>
     ch_closed = inner (reading id),
     ch_sendall = (\<lambda>s. io_bind (outer (serve_step (piped os) v wide shown s)) (\<lambda>r.
       case r of Inl rest \<Rightarrow> returning () | Inr code \<Rightarrow> inner (modifying (\<lambda>_. True)))),
     ch_recv_ready = outer (outer (inner (reading (\<lambda>out. out \<noteq> [])))),
     ch_recv = (\<lambda>n. outer (outer (inner (io_bind (reading id) (\<lambda>out.
       io_then (modifying (drop n)) (returning (take n out))))))),
     ch_exit_status_ready = inner (reading id)\<rparr>"

text \<open>A clock that leaves the link alone and under which no request times out.\<close>

definition prompt_clock :: "'w link runtime \<Rightarrow> rat \<Rightarrow> bool" where
  "prompt_clock rt timeout \<longleftrightarrow>
     (\<exists>clock. (\<forall>x. rt_monotonic rt x = Some (Inr (clock x), x)) \<and> (\<forall>x y. clock x < clock y + timeout))"

text \<open>The state of a link: port, queue, device and exit flag; then the client's two buffers.\<close>

abbreviation link_state :: "'w \<Rightarrow> bytes \<Rightarrow> nat option \<Rightarrow> bool \<Rightarrow> bytes \<Rightarrow> bytes \<Rightarrow> 'w link \<times> agent_buffers" where
  "link_state w out h over rb sb \<equiv> ((((w, out), h), over), \<lparr>response_buffer = rb, serial_buffer = sb\<rparr>)"

lemma link_ops [io_simps]:
  "ch_closed (agent_link os v wide shown) (a, over) = Some (Inr over, (a, over))"
  "ch_exit_status_ready (agent_link os v wide shown) (a, over) = Some (Inr over, (a, over))"
  "ch_recv_ready (agent_link os v wide shown) (((w, out), h), over) = Some (Inr (out \<noteq> []), (((w, out), h), over))"
  "ch_recv (agent_link os v wide shown) n (((w, out), h), over)
    = Some (Inr (take n out), (((w, drop n out), h), over))"
  by (simp_all add: agent_link_def inner_def outer_def run_simps io_bind_def)

section \<open>Reading one response\<close>

lemma prompt_clockD:
  assumes "prompt_clock rt timeout" and "rt_monotonic rt x0 = Some (Inr t0, x0)"
  obtains now where "rt_monotonic rt x = Some (Inr now, x)" and "now < t0 + timeout"
proof -
  obtain clock where "rt_monotonic rt x = Some (Inr (clock x), x)"
    and "rt_monotonic rt x0 = Some (Inr (clock x0), x0)" and "clock x < clock x0 + timeout"
    using assms(1) unfolding prompt_clock_def by blast
  then show ?thesis using that assms(2) by auto
qed

lemma read_step_line:
  assumes "prompt_clock rt timeout" and "rt_monotonic rt x0 = Some (Inr t0, x0)"
    and "10 \<notin> set line" and "rb = line @ 10 # rest"
  shows "read_response_step wide (agent_link os v wide' shown) rt (t0 + timeout) operation u
      (link_state w out h over rb sb)
    = (case decode_response wide line of
        Inl e \<Rightarrow> Some (Inl e, link_state w out h over rest sb)
      | Inr r \<Rightarrow> Some (Inr (Inr r), link_state w out h over rest sb))"
proof -
  obtain now where now: "rt_monotonic rt (((w, out), h), over) = Some (Inr now, (((w, out), h), over))"
    "now < t0 + timeout"
    using prompt_clockD [OF assms(1,2)] by metis
  from assms(3,4) show ?thesis
    by (simp add: read_response_step_def io_bind_def outer_def inner_def run_simps now
        partition_on_append split: sum.splits)
qed

lemma read_step_chunk:
  assumes "prompt_clock rt timeout" and "rt_monotonic rt x0 = Some (Inr t0, x0)"
    and "10 \<notin> set rb" and "out \<noteq> []" and "length rb + length out \<le> MAX_RESPONSE_BYTES"
  shows "read_response_step wide (agent_link os v wide' shown) rt (t0 + timeout) operation u
      (link_state w out h over rb sb)
    = Some (Inr (Inl ()), link_state w (drop 65535 out) h over (rb @ take 65535 out) sb)"
proof -
  obtain now where now: "rt_monotonic rt (((w, out), h), over) = Some (Inr now, (((w, out), h), over))"
    "now < t0 + timeout"
    using prompt_clockD [OF assms(1,2)] by metis
  from assms(3-5) show ?thesis
    by (simp add: read_response_step_def io_bind_def outer_def inner_def run_simps now
        partition_on_notin link_ops)
qed

lemma read_response_loop:
  assumes clock: "prompt_clock rt timeout" "rt_monotonic rt x0 = Some (Inr t0, x0)"
    and line: "10 \<notin> set line" "length line < MAX_RESPONSE_BYTES" and whole: "rb @ out = line @ [10]"
  shows "io_loop (read_response_step wide (agent_link os v wide' shown) rt (t0 + timeout) operation) ()
      (link_state w out h over rb sb)
    = Some (decode_response wide line, link_state w [] h over [] sb)"
  using whole
proof (induction "length out" arbitrary: out rb rule: less_induct)
  case less
  let ?step = "read_response_step wide (agent_link os v wide' shown) rt (t0 + timeout) operation"
  show ?case
  proof (cases "out = []")
    case True
    with less.prems read_step_line [OF clock line(1), of rb "[]"] show ?thesis
      by (subst io_loop.simps) (auto simp: io_bind_def io_sum_def returning_def split: sum.splits)
  next
    case False
    then have "last (rb @ out) = last out" by simp
    from False less.prems have rb: "rb = take (length rb) line" "length rb \<le> length line"
      by (metis append_eq_append_conv2 append_eq_conv_conj append_is_Nil_conv append_self_conv
          butlast_append butlast_snoc,
          metis Suc_leI add_less_cancel_left length_append length_greater_0_conv less_Suc_eq_le
          list.size(3) list.size(4) add_Suc_right add_0_right)
    then have "10 \<notin> set rb" using line(1) by (metis in_set_takeD)
    moreover have "length rb + length out \<le> MAX_RESPONSE_BYTES"
      using line(2) arg_cong [OF less.prems, of length] by simp
    ultimately have "?step () (link_state w out h over rb sb) =
        Some (Inr (Inl ()), link_state w (drop 65535 out) h over (rb @ take 65535 out) sb)"
      using read_step_chunk [OF clock] False by blast
    moreover have "length (drop 65535 out) < length out" using False by (cases out) auto
    ultimately show ?thesis
      using less.hyps [of "drop 65535 out" "rb @ take 65535 out"] less.prems
      by (subst io_loop.simps) (simp add: io_bind_def io_sum_def)
  qed
qed

section \<open>One request\<close>

declare json_dumps.simps(7) [simp del] json_ok.simps(7) [simp del]

definition request_fields :: "string \<Rightarrow> (pystr \<times> json) list \<Rightarrow> request" where
  "request_fields operation values =
     [(lit ''version'', JInt PROTOCOL_VERSION), (lit ''operation'', JStr (lit operation))] @ values"

lemma dumps_no_newline: "json_ok v \<Longrightarrow> 10 \<notin> set (map byte (json_dumps v))"
  using json_dumps_printable [of v] byte_eq_iff [of 10] by (fastforce simp: byte_def)

lemma decode_response_dumps:
  "json_ok (JObj kvs) \<Longrightarrow> decode_response wide (map byte (json_dumps (JObj kvs))) = Inr kvs"
  using json_loads_dumps [of "JObj kvs" "[]" wide] by (simp add: decode_response_def)

lemma link_sendall:
  assumes req: "json_ok (JObj req)" "length (json_dumps (JObj req)) < MAX_JSON_LINE_BYTES"
    and answered: "answer (piped os) v wide shown (map byte (json_dumps (JObj req) @ [10])) ((w, []), h)
      = Some (Inr (JObj resp, stop), ((w', []), h'))"
    and resp: "json_ok (JObj resp)"
  shows "ch_sendall (agent_link os v wide shown) (map byte (json_dumps (JObj req) @ [10])) (((w, []), h), False)
    = Some (Inr (), (((w', map byte (json_dumps (JObj resp)) @ [10]), h'), stop))"
proof -
  let ?line = "map byte (json_dumps (JObj req))"
  have line: "map byte (json_dumps (JObj req) @ [10]) = ?line @ 10 # []" by (simp add: byte_def)
  have enc: "encode_response (JObj resp) = Inr (map byte (json_dumps (JObj resp)) @ [10])"
    using json_dumps_encode [OF resp] by (simp add: encode_response_def byte_def)
  have step: "serve_step (piped os) v wide shown (?line @ 10 # []) ((w, []), h)
    = Some (Inr (if stop then Inr 0 else Inl []), ((w', map byte (json_dumps (JObj resp)) @ [10]), h'))"
    unfolding serve_one_line [OF dumps_no_newline [OF req(1)]]
    using req(2) answered enc
    by (simp add: io_bind_def lifting_def outer_def inner_def run_simps piped_def byte_def)
  then show ?thesis
    unfolding line agent_link_def by (simp add: io_bind_def outer_def inner_def run_simps)
qed

lemma request_over_link:
  assumes clock: "prompt_clock rt timeout"
    and req: "json_ok (JObj (request_fields operation values))"
      "length (json_dumps (JObj (request_fields operation values))) < MAX_JSON_LINE_BYTES"
    and answered: "answer (piped os) v wide shown
        (map byte (json_dumps (JObj (request_fields operation values)) @ [10])) ((w, []), h)
      = Some (Inr (JObj resp, stop), ((w', []), h'))"
    and resp: "json_ok (JObj resp)" "length (json_dumps (JObj resp)) < MAX_RESPONSE_BYTES"
  shows "channel_request wide' (agent_link os v wide shown) rt timeout operation values
      (link_state w [] h False [] sb)
    = Some (check_response operation resp, link_state w' [] h' stop [] sb)"
proof -
  let ?link = "agent_link os v wide shown"
    and ?sent = "(((w', map byte (json_dumps (JObj resp)) @ [10]), h'), stop)"
  obtain now where now: "rt_monotonic rt ?sent = Some (Inr now, ?sent)"
    using clock unfolding prompt_clock_def by blast
  have read: "read_response wide' ?link rt timeout operation (?sent, \<lparr>response_buffer = [], serial_buffer = sb\<rparr>)
    = Some (Inr resp, link_state w' [] h' stop [] sb)"
    using read_response_loop [OF clock now dumps_no_newline [OF resp(1)],
        of "[]" "map byte (json_dumps (JObj resp)) @ [10]" wide'] resp
    by (simp add: read_response_def io_bind_def outer_def now decode_response_dumps)
  have line: "request_line operation values
      = Inr (map byte (json_dumps (JObj (request_fields operation values)) @ [10]))"
    using json_dumps_encode [OF req(1)] by (simp add: request_line_def request_fields_def)
  show ?thesis
    using link_sendall [OF req answered resp(1)] read
    by (simp add: channel_request_def channel_closed_def io_bind_def outer_def run_simps line
        link_ops)
qed

section \<open>Writing and reading through the link\<close>

lemma dump_string_plain:
  assumes "\<forall>c \<in> set s. 32 \<le> c \<and> c \<le> 126 \<and> c \<noteq> 34 \<and> c \<noteq> 92"
  shows "dump_string s = [34] @ s @ [34]"
proof -
  have "concat (map escape_char s) = s"
    using assms by (induction s) (auto simp: escape_char_def)
  then show ?thesis by (simp add: dump_string_def)
qed

lemma dump_b64: "dump_string (b64encode s) = [34] @ b64encode s @ [34]"
  by (rule dump_string_plain) (auto dest: b64encode_range)

lemma b64_scalar: "list_all scalar_value (b64encode s)"
  by (auto simp: list_all_iff scalar_value_def dest: b64encode_range)

lemma version_text: "int_text PROTOCOL_VERSION = [49]"
  by (simp add: PROTOCOL_VERSION_def int_text_def nat_text_small)

lemma printable_version [simp]: "printable_code PROTOCOL_VERSION"
  by (rule printable_bound [where k = 1]) (simp_all add: PROTOCOL_VERSION_def)

lemma write_request_ok:
  assumes "length s \<le> MAX_PAYLOAD_BYTES"
  shows "json_ok (JObj (request_fields ''write'' [(lit ''data'', JStr (b64encode s))]))"
    and "length (json_dumps (JObj (request_fields ''write'' [(lit ''data'', JStr (b64encode s))])))
      < MAX_JSON_LINE_BYTES"
proof -
  show "json_ok (JObj (request_fields ''write'' [(lit ''data'', JStr (b64encode s))]))"
    by (simp add: request_fields_def json_ok.simps dict_ok_def lit_def scalar_value_def b64_scalar)
  have "length (json_dumps (JObj (request_fields ''write'' [(lit ''data'', JStr (b64encode s))])))
    = 43 + length (b64encode s)"
    by (simp add: request_fields_def json_dumps.simps dump_b64 version_text)
      (simp add: lit_def dump_string_def escape_char_def)
  then show "length (json_dumps (JObj (request_fields ''write'' [(lit ''data'', JStr (b64encode s))])))
      < MAX_JSON_LINE_BYTES"
    using assms by (simp add: b64encode_length protocol_limits)
qed

lemma answer_fields:
  assumes "json_ok (JObj kvs)"
    and "agent_handle os v kvs a = Some (Inr q, a')"
  shows "answer os v wide shown (map byte (json_dumps (JObj kvs) @ [10])) a = Some (Inr q, a')"
  using decode_request_dumps [OF assms(1), of "[10]"] assms(2)
  by (simp add: answer_def io_bind_def lifting_def try_except_def)

lemma envelope_fields:
  "validate_envelope (request_fields (c # cs) values) = Inr (lit (c # cs))"
  by (simp add: validate_envelope_def request_fields_def is_protocol_version_def lit_def)

lemma handle_write:
  assumes "s \<noteq> []" and "length s \<le> MAX_PAYLOAD_BYTES" and "ao_write os h s w = Some (Inr n, w')"
  shows "agent_handle (piped os) v (request_fields ''write'' [(lit ''data'', JStr (b64encode s))]) ((w, out), Some h)
    = Some (Inr (success [(lit ''written'', JInt (case n of None \<Rightarrow> int (length s) | Some k \<Rightarrow> k))], False),
        ((w', out), Some h))"
proof -
  let ?r = "request_fields ''write'' [(lit ''data'', JStr (b64encode s))]"
  have data: "map_of ?r (lit ''data'') = Some (JStr (b64encode s))"
    by (simp add: request_fields_def)
  obtain c cs where "b64encode s = c # cs" using assms(1) by (metis b64encode_Nil_iff list.exhaust)
  with data have payload: "decode_payload ?r = Inr s"
    using assms(2) b64decode_encode [of s]
    by (simp add: decode_payload_def require_string_def result_simps)
  have fields: "validate_fields ?r [lit ''data''] = Inr ()"
    by (simp add: validate_fields_ok request_fields_def has_key_def)
  show ?thesis
    by (simp add: agent_handle_def envelope_fields and_go_on_def agent_write_def require_connection_def
        connection_def io_bind_def lifting_def try_except_def inner_def outer_def run_simps payload fields
        piped_def assms(3))
qed

lemma success_ok:
  assumes "dict_ok values" and "lit ''version'' \<notin> fst ` set values" and "lit ''ok'' \<notin> fst ` set values"
    and "\<forall>(k, x) \<in> set values. list_all scalar_value k \<and> json_ok x"
  shows "json_ok (success values)"
  using assms by (force simp: success_def json_ok.simps dict_ok_def lit_def scalar_value_def)

lemma check_success:
  assumes "success values = JObj kvs"
  shows "check_response operation kvs = Inr kvs"
  using assms by (auto simp: success_def check_response_def is_protocol_version_def)

lemma int_text_length:
  assumes "0 \<le> i" and "i < 10 ^ k" and "0 < k" shows "length (int_text i) \<le> k"
  using assms nat_text_length [of "nat i" k] by (simp add: int_text_def nat_less_iff max_def split: if_splits)

definition written_count :: "bytes \<Rightarrow> int option \<Rightarrow> int" where
  "written_count s n = (case n of None \<Rightarrow> int (length s) | Some k \<Rightarrow> k)"

lemma written_response:
  assumes "length s \<le> MAX_PAYLOAD_BYTES" and "\<forall>k. n = Some k \<longrightarrow> 0 \<le> k \<and> k \<le> int (length s)"
  shows "json_ok (success [(lit ''written'', JInt (written_count s n))])"
    and "length (json_dumps (success [(lit ''written'', JInt (written_count s n))])) < MAX_RESPONSE_BYTES"
proof -
  have i: "0 \<le> written_count s n" "written_count s n < 10 ^ 6"
    using assms by (auto simp: written_count_def protocol_limits split: option.split)
  then show "json_ok (success [(lit ''written'', JInt (written_count s n))])"
    by (intro success_ok) (auto simp: lit_def scalar_value_def dict_ok_def intro!: printable_bound [where k = 6])
  have "length (int_text (written_count s n)) \<le> 6" using i by (intro int_text_length) auto
  then show "length (json_dumps (success [(lit ''written'', JInt (written_count s n))])) < MAX_RESPONSE_BYTES"
    by (simp add: success_def json_dumps.simps version_text)
      (simp add: lit_def dump_string_def escape_char_def MAX_RESPONSE_BYTES_def)
qed

text \<open>
  C6. Writing through the agent refines writing to the port: a client that sends \<open>s\<close> over a
  fresh link makes the remote port write exactly \<open>s\<close>, once; \<^verbatim>\<open>sendall\<close> then returns
  precisely when the port took all of it and raises \<^verbatim>\<open>TransportError\<close> on a partial write, and
  the link is left ready for the next request.
\<close>

theorem sendall_reaches_port:
  assumes clock: "prompt_clock rt timeout"
    and s: "s \<noteq> []" "length s \<le> MAX_PAYLOAD_BYTES"
    and port: "ao_write os h s w = Some (Inr n, w')" "\<forall>k. n = Some k \<longrightarrow> 0 \<le> k \<and> k \<le> int (length s)"
  shows "\<exists>m. channel_sendall wide' (agent_link os v wide shown) rt timeout s
      (link_state w [] (Some h) False [] sb)
    = Some (if n = None \<or> n = Some (int (length s)) then Inr () else Inl (Exn TransportError m),
        link_state w' [] (Some h) False [] sb)"
proof -
  obtain kvs where kvs: "success [(lit ''written'', JInt (written_count s n))] = JObj kvs"
    by (simp add: success_def)
  have answered: "answer (piped os) v wide shown
      (map byte (json_dumps (JObj (request_fields ''write'' [(lit ''data'', JStr (b64encode s))])) @ [10]))
      ((w, []), Some h) = Some (Inr (JObj kvs, False), ((w', []), Some h))"
    using handle_write [where out = "[]" and v = v, OF s port(1)] kvs
    by (intro answer_fields write_request_ok s) (simp add: written_count_def)
  have req: "channel_request wide' (agent_link os v wide shown) rt timeout ''write''
      [(lit ''data'', JStr (b64encode s))] (link_state w [] (Some h) False [] sb)
    = Some (Inr kvs, link_state w' [] (Some h) False [] sb)"
    using request_over_link [OF clock write_request_ok [OF s(2)] answered] written_response [OF s(2) port(2)]
    by (simp only: kvs check_success [OF kvs])
  have "map_of kvs (lit ''written'') = Some (JInt (written_count s n))"
    using kvs by (auto simp: success_def)
  with req show ?thesis
    by (auto simp: channel_sendall_def io_bind_def Let_def run_simps written_count_def split: option.split)
qed

section \<open>Reading\<close>

lemma read_timeout: "float_value (lit ''0.05'') = Finite (1 / 20)"
proof -
  have t: "lit ''0.05'' = [48, 46, 48, 53]" by (simp add: lit_def)
  have "frac_part [46, 48, 53] = ([46, 48, 53], [])" by (simp add: frac_part_def is_digit_cp_def)
  moreover have "exp_part [] = ([], [])" by (simp add: exp_part_def)
  ultimately show ?thesis
    unfolding float_value_def t Let_def
    by (simp add: is_digit_cp_def digit_value_ascii) (simp add: lit_def)
qed

lemma float_ok_timeout: "float_ok (lit ''0.05'')"
  by (simp add: float_ok_def lit_def is_digit_cp_def)

abbreviation read_values :: "(pystr \<times> json) list" where
  "read_values \<equiv> [(lit ''size'', JInt READ_SIZE), (lit ''timeout'', JFloat (lit ''0.05''))]"

lemma read_request_ok:
  "json_ok (JObj (request_fields ''read'' read_values))"
  "length (json_dumps (JObj (request_fields ''read'' read_values))) < MAX_JSON_LINE_BYTES"
proof -
  have "printable_code READ_SIZE" by (rule printable_bound [where k = 5]) (simp_all add: READ_SIZE_def)
  then show "json_ok (JObj (request_fields ''read'' read_values))"
    using float_ok_timeout
    by (simp add: request_fields_def json_ok.simps dict_ok_def) (simp add: lit_def scalar_value_def)
  have "length (int_text READ_SIZE) \<le> 5" by (rule int_text_length) (simp_all add: READ_SIZE_def)
  then show "length (json_dumps (JObj (request_fields ''read'' read_values))) < MAX_JSON_LINE_BYTES"
    by (simp add: request_fields_def json_dumps.simps version_text)
      (simp add: lit_def dump_string_def escape_char_def protocol_limits)
qed

lemma handle_read:
  assumes "ao_set_timeout os h (1 / 20) w = Some (Inr u, w1)" and "ao_read os h READ_SIZE w1 = Some (Inr data, w2)"
  shows "agent_handle (piped os) v (request_fields ''read'' read_values) ((w, out), Some h)
    = Some (Inr (success [(lit ''data'', JStr (b64encode data))], False), ((w2, out), Some h))"
proof -
  let ?r = "request_fields ''read'' read_values"
  have size: "require_int ?r ''size'' 1 MAX_READ_BYTES = Inr READ_SIZE"
    by (simp add: require_int_def request_fields_def READ_SIZE_def protocol_limits)
  have time: "require_timeout ?r = Inr (1 / 20)"
    by (simp add: require_timeout_def request_fields_def read_timeout protocol_limits)
  have fields: "validate_fields ?r [lit ''size'', lit ''timeout''] = Inr ()"
    by (simp add: validate_fields_ok request_fields_def has_key_def)
  show ?thesis
    by (simp add: agent_handle_def envelope_fields and_go_on_def agent_read_def require_connection_def
        connection_def io_bind_def lifting_def try_except_def inner_def outer_def run_simps size time fields
        piped_def assms encode_payload_def)
qed

lemma data_response:
  assumes "int (length data) \<le> READ_SIZE"
  shows "json_ok (success [(lit ''data'', JStr (b64encode data))])"
    and "length (json_dumps (success [(lit ''data'', JStr (b64encode data))])) < MAX_RESPONSE_BYTES"
proof -
  show "json_ok (success [(lit ''data'', JStr (b64encode data))])"
    by (intro success_ok) (auto simp: lit_def scalar_value_def b64_scalar dict_ok_def)
  show "length (json_dumps (success [(lit ''data'', JStr (b64encode data))])) < MAX_RESPONSE_BYTES"
    using assms
    by (simp add: success_def json_dumps.simps version_text dump_b64)
      (simp add: lit_def dump_string_def escape_char_def MAX_RESPONSE_BYTES_def READ_SIZE_def b64encode_length)
qed

text \<open>
  C16. Reading through the agent refines reading the port: with nothing buffered,
  \<^verbatim>\<open>recv_ready\<close> makes the remote port read at most 65535 bytes with a timeout of 0.05 seconds,
  once, and reports whether it delivered any; the following \<^verbatim>\<open>recv\<close> returns these bytes
  unchanged and in order, keeping those it was not asked for.
\<close>

theorem recv_delivers_port:
  assumes clock: "prompt_clock rt timeout"
    and port: "ao_set_timeout os h (1 / 20) w = Some (Inr u, w1)"
      "ao_read os h READ_SIZE w1 = Some (Inr data, w2)" "int (length data) \<le> READ_SIZE"
  shows "io_bind (channel_recv_ready wide' (agent_link os v wide shown) rt timeout)
      (\<lambda>ready. io_bind (channel_recv k) (\<lambda>got. returning (ready, got))) (link_state w [] (Some h) False [] [])
    = Some (Inr (data \<noteq> [], take k data), link_state w2 [] (Some h) False [] (drop k data))"
proof -
  obtain kvs where kvs: "success [(lit ''data'', JStr (b64encode data))] = JObj kvs"
    by (simp add: success_def)
  have answered: "answer (piped os) v wide shown
      (map byte (json_dumps (JObj (request_fields ''read'' read_values)) @ [10])) ((w, []), Some h)
    = Some (Inr (JObj kvs, False), ((w2, []), Some h))"
    using handle_read [where out = "[]" and v = v, OF port(1,2)] kvs
    by (intro answer_fields read_request_ok) simp
  have req: "channel_request wide' (agent_link os v wide shown) rt timeout ''read'' read_values
      (link_state w [] (Some h) False [] []) = Some (Inr kvs, link_state w2 [] (Some h) False [] [])"
    using request_over_link [OF clock read_request_ok answered] data_response [OF port(3)]
    by (simp only: kvs check_success [OF kvs])
  have "map_of kvs (lit ''data'') = Some (JStr (b64encode data))"
    using kvs by (auto simp: success_def)
  with req show ?thesis
    by (simp add: channel_recv_ready_def channel_recv_def channel_closed_def io_bind_def inner_def outer_def
        run_simps link_ops b64decode_encode)
qed

section \<open>The wire format\<close>

text \<open>
  C29. One message per line, without loss: a JSON object of either side whose strings hold scalar
  values, whose integers have at most 4300 digits and whose floats are literals of the form
  \<^verbatim>\<open>0.ddd\<close> is encoded as a line that contains no newline but its last byte, and the other side
  decodes exactly the object that was sent - the agent from the whole line, the client from the
  line without its end.
\<close>

theorem protocol_roundtrip:
  assumes "json_ok (JObj kvs)"
  shows "\<exists>line. encode_response (JObj kvs) = Inr (line @ [10]) \<and> 10 \<notin> set line \<and>
    decode_request wide (line @ [10]) = Inr kvs \<and> decode_response wide' line = Inr kvs"
proof (intro exI conjI)
  let ?line = "map byte (json_dumps (JObj kvs))"
  show "encode_response (JObj kvs) = Inr (?line @ [10])"
    using json_dumps_encode [OF assms] by (simp add: encode_response_def byte_def)
  show "10 \<notin> set ?line" by (rule dumps_no_newline [OF assms])
  show "decode_request wide (?line @ [10]) = Inr kvs"
    using decode_request_dumps [OF assms, of "[10]"] by (simp add: byte_def)
  show "decode_response wide' ?line = Inr kvs" by (rule decode_response_dumps [OF assms])
qed

theorem protocol_roundtrip_witness:
  "\<exists>line. encode_response (JObj hello_request) = Inr (line @ [10]) \<and> 10 \<notin> set line \<and>
    decode_request no_wide (line @ [10]) = Inr hello_request \<and> decode_response no_wide line = Inr hello_request"
  by (rule protocol_roundtrip)
    (simp_all add: hello_request_def json_ok.simps dict_ok_def lit_def scalar_value_def
      printable_bound [where k = 1])

section \<open>Witnesses\<close>

definition frozen_clock :: "'w runtime" where
  "frozen_clock = \<lparr>rt_monotonic = returning 0, rt_sleep = (\<lambda>_. returning ()), rt_uuid4_hex = returning []\<rparr>"

lemma frozen_prompt: "prompt_clock frozen_clock 1"
  unfolding prompt_clock_def frozen_clock_def by (rule exI [of _ "\<lambda>_. 0"]) (simp add: run_simps)

theorem sendall_reaches_port_witness:
  "channel_sendall no_wide (agent_link example_os [49] no_wide plain_pieces) frozen_clock 1 [7]
      (link_state 0 [] (Some 7) False [] []) = Some (Inr (), link_state 0 [] (Some 7) False [] [])"
  using sendall_reaches_port [OF frozen_prompt, of "[7]" example_os 7 0 None 0 no_wide "[49]" no_wide plain_pieces "[]"]
  by (simp add: example_os_def run_simps MAX_PAYLOAD_BYTES_def)

theorem recv_delivers_port_witness:
  "io_bind (channel_recv_ready no_wide (agent_link example_os [49] no_wide plain_pieces) frozen_clock 1)
      (\<lambda>ready. io_bind (channel_recv 9) (\<lambda>got. returning (ready, got))) (link_state 0 [] (Some 7) False [] [])
    = Some (Inr (True, [5]), link_state 0 [] (Some 7) False [] [])"
  using recv_delivers_port [OF frozen_prompt, of example_os 7 0 "()" 0 "[5]" 0 no_wide "[49]" no_wide plain_pieces 9]
  by (simp add: example_os_def run_simps READ_SIZE_def)

end
