(* ===== verification/Stand.thy ===== *)
theory Stand
  imports Agent_Channel
begin

text \<open>
  The stand at run time: \<^verbatim>\<open>src/hardware_test/stand/stand.py\<close> over the devices of
  \<^verbatim>\<open>src/hardware_test/devices\<close> and whichever transport each of them was built on. The state of
  a stand is the world of the libraries and, for every device object, what its transport
  holds. A device delegates to its transport through a lock (theory \<open>Synchronized\<close>), which a
  single thread does not notice.
\<close>

section \<open>Any transport\<close>

record 'w libraries =
  lib_wide :: "bytes \<Rightarrow> exn + pystr"
  lib_paramiko :: "'w paramiko"
  lib_pyserial :: "'w pyserial"
  lib_runtime :: "'w runtime"

text \<open>Only the serial-agent transport has buffers of its own; the others leave them alone.\<close>

type_synonym transport_state = "agent_buffers \<times> fields_state"

definition beside_buffers :: "('w \<times> fields_state, 'a) io \<Rightarrow> ('w, 'a) agent_transport_io" where
  "beside_buffers m = (\<lambda>((w, b), s).
     case m (w, s) of None \<Rightarrow> None | Some (r, (w', s')) \<Rightarrow> Some (r, ((w', b), s')))"

lemma beside_Some [io_cases]:
  "beside_buffers m ((w, b), s) = Some (r, ((w', b'), s')) \<longleftrightarrow> m (w, s) = Some (r, (w', s')) \<and> b' = b"
  by (auto simp: beside_buffers_def split: option.splits)

definition transport_connect :: "'w libraries \<Rightarrow> transport \<Rightarrow> ('w, unit) agent_transport_io" where
  "transport_connect lib t =
     (case t of
        SSHTransport ssh ct mt \<Rightarrow> beside_buffers (ssh_connect (lib_paramiko lib) ssh ct)
      | PicocomOverSshTransport ssh d b con ct mt \<Rightarrow>
          beside_buffers (picocom_connect (lib_paramiko lib) (lib_runtime lib) ssh d b con ct)
      | PySerialTransport d b con ct mt \<Rightarrow>
          beside_buffers (pyserial_connect (lib_pyserial lib) (lib_runtime lib) d b con ct mt)
      | PySerialOverSshTransport ssh d b con a ct mt \<Rightarrow>
          remote_connect (lib_wide lib) (lib_paramiko lib) (lib_runtime lib) ssh d b con a ct mt)"

definition transport_close :: "'w libraries \<Rightarrow> transport \<Rightarrow> ('w, unit) agent_transport_io" where
  "transport_close lib t =
     (case t of
        SSHTransport ssh ct mt \<Rightarrow> beside_buffers (ssh_close (lib_paramiko lib))
      | PicocomOverSshTransport ssh d b con ct mt \<Rightarrow> beside_buffers (picocom_close (lib_paramiko lib))
      | PySerialTransport d b con ct mt \<Rightarrow> beside_buffers (pyserial_close (lib_pyserial lib))
      | PySerialOverSshTransport ssh d b con a ct mt \<Rightarrow>
          remote_close (lib_wide lib) (lib_paramiko lib) (lib_runtime lib) mt)"

definition transport_execute ::
  "'w libraries \<Rightarrow> transport \<Rightarrow> command \<Rightarrow> ('w, command_result) agent_transport_io" where
  "transport_execute lib t command =
     (case t of
        SSHTransport ssh ct mt \<Rightarrow> beside_buffers (ssh_execute (lib_paramiko lib) mt command)
      | PicocomOverSshTransport ssh d b con ct mt \<Rightarrow>
          beside_buffers (picocom_execute (lib_paramiko lib) (lib_runtime lib) con mt command)
      | PySerialTransport d b con ct mt \<Rightarrow>
          beside_buffers (pyserial_execute (lib_pyserial lib) (lib_runtime lib) con mt command)
      | PySerialOverSshTransport ssh d b con a ct mt \<Rightarrow>
          remote_execute (lib_wide lib) (lib_paramiko lib) (lib_runtime lib) con mt command)"

text \<open>What the four classes share: the commands they run, and when they hold a connection.\<close>

definition supports :: "transport \<Rightarrow> command \<Rightarrow> bool" where
  "supports t c = (case t of SSHTransport ssh ct mt \<Rightarrow> is_text_command c | _ \<Rightarrow> is_unix_command c)"

definition holds :: "transport \<Rightarrow> fields_state \<Rightarrow> bool" where
  "holds t s =
     (case t of
        SSHTransport ssh ct mt \<Rightarrow> f_client s \<noteq> None
      | PySerialTransport d b con ct mt \<Rightarrow> f_channel s \<noteq> None
      | _ \<Rightarrow> f_client s \<noteq> None \<or> f_channel s \<noteq> None)"

definition quiet_library :: "'w libraries \<Rightarrow> transport \<Rightarrow> bool" where
  \<comment> \<open>closing the channel of a failed connection does not raise\<close>
  "quiet_library lib t =
     (case t of
        PicocomOverSshTransport ssh d b con ct mt \<Rightarrow> quiet_channels (lib_paramiko lib)
      | PySerialOverSshTransport ssh d b con a ct mt \<Rightarrow>
          quiet_agent (lib_wide lib) (lib_paramiko lib) (lib_runtime lib) mt
      | _ \<Rightarrow> True)"

lemma beside_None [io_simps]: "m (w, s) = None \<Longrightarrow> beside_buffers m ((w, b), s) = None"
  by (simp add: beside_buffers_def)

lemma beside_contract:
  assumes "transport_contract connect close execute supported up quiet"
  shows "transport_contract (beside_buffers connect) (beside_buffers close) (\<lambda>c. beside_buffers (execute c))
    supported up quiet"
proof -
  note facts = transport_contract.connect_holds [OF assms] transport_contract.connect_failed [OF assms]
    transport_contract.close_releases [OF assms] transport_contract.close_idle [OF assms]
    transport_contract.execute_unsupported [OF assms] transport_contract.execute_idle [OF assms]
  show ?thesis
  proof (rule transport_contract.intro, goal_cases)
    case (1 w s u w' s') then show ?case by (cases w; cases w') (auto simp: beside_Some dest: facts(1))
  next
    case (2 s w e w' s') then show ?case by (cases w; cases w') (auto simp: beside_Some dest: facts(2))
  next
    case (3 w s u w' s') then show ?case by (cases w; cases w') (auto simp: beside_Some dest: facts(3))
  next
    case (4 s w) then show ?case using facts(4) by (cases w) (auto simp: beside_Some)
  next
    case (5 c ws)
    then obtain w b s where "ws = ((w, b), s)" by (cases ws) auto
    with 5 show ?case using facts(5) [of c "(w, s)"] by (auto simp: beside_Some)
  next
    case (6 c s w)
    then obtain w0 b where "w = (w0, b)" by (cases w) auto
    with 6 show ?case using facts(6) [of c s w0] by (auto simp: beside_Some)
  qed
qed

interpretation any: transport_contract "transport_connect lib t" "transport_close lib t"
  "transport_execute lib t" "supports t" "holds t" "quiet_library lib t"
  for lib :: "'w libraries" and t
proof (cases t)
  case (SSHTransport ssh ct mt)
  then show "transport_contract (transport_connect lib t) (transport_close lib t) (transport_execute lib t)
      (supports t) (holds t) (quiet_library lib t)"
    using beside_contract [OF ssh.transport_contract_axioms, of "lib_paramiko lib" ssh ct mt]
    by (simp add: transport_connect_def [abs_def] transport_close_def transport_execute_def [abs_def]
        supports_def [abs_def] holds_def [abs_def] quiet_library_def)
next
  case (PicocomOverSshTransport ssh d b con ct mt)
  then show "transport_contract (transport_connect lib t) (transport_close lib t) (transport_execute lib t)
      (supports t) (holds t) (quiet_library lib t)"
    using beside_contract [OF picocom.transport_contract_axioms,
        of "lib_paramiko lib" "lib_runtime lib" ssh d b con ct mt]
    by (simp add: transport_connect_def [abs_def] transport_close_def transport_execute_def [abs_def]
        supports_def [abs_def] holds_def [abs_def] quiet_library_def)
next
  case (PySerialTransport d b con ct mt)
  then show "transport_contract (transport_connect lib t) (transport_close lib t) (transport_execute lib t)
      (supports t) (holds t) (quiet_library lib t)"
    using beside_contract [OF pyserial.transport_contract_axioms,
        of "lib_pyserial lib" "lib_runtime lib" d b con ct mt]
    by (simp add: transport_connect_def [abs_def] transport_close_def transport_execute_def [abs_def]
        supports_def [abs_def] holds_def [abs_def] quiet_library_def)
next
  case (PySerialOverSshTransport ssh d b con a ct mt)
  then show "transport_contract (transport_connect lib t) (transport_close lib t) (transport_execute lib t)
      (supports t) (holds t) (quiet_library lib t)"
    using remote.transport_contract_axioms
      [of "lib_wide lib" "lib_paramiko lib" "lib_runtime lib" ssh d b con a ct mt]
    by (simp add: transport_connect_def [abs_def] transport_close_def transport_execute_def [abs_def]
        supports_def [abs_def] holds_def [abs_def] quiet_library_def)
qed

section \<open>Devices\<close>

type_synonym runtime_device = "lockable_transport device"

definition device_connect :: "'w libraries \<Rightarrow> runtime_device \<Rightarrow> ('w, unit) agent_transport_io" where
  "device_connect lib d = transport_connect lib (wrapped (dev_transport d))"

definition device_close :: "'w libraries \<Rightarrow> runtime_device \<Rightarrow> ('w, unit) agent_transport_io" where
  "device_close lib d = transport_close lib (wrapped (dev_transport d))"

definition dut_execute_command ::
  "'w libraries \<Rightarrow> runtime_device \<Rightarrow> command \<Rightarrow> ('w, command_result) agent_transport_io" where
  "dut_execute_command lib d command = transport_execute lib (wrapped (dev_transport d)) command"

text \<open>The device protocols a project has to supply.\<close>

definition dut_get_status :: "('w, device_status) io" where
  "dut_get_status = raising (raise_txt PyNotImplementedError
     ''Replace Dut.get_status with the project-specific protocol'')"

definition analyzer_measure :: "('w, measurement) io" where
  "analyzer_measure = raising (raise_txt PyNotImplementedError
     ''Replace Analyzer.measure with the project-specific protocol'')"

definition generator_configure :: "('w, unit) io" where
  "generator_configure = raising (raise_txt PyNotImplementedError
     ''Replace Generator.configure with the project-specific protocol'')"

section \<open>Roles\<close>

definition device_class_name :: "device_class \<Rightarrow> pystr" where
  "device_class_name c = (case c of Device \<Rightarrow> lit ''Device'' | Dut \<Rightarrow> lit ''Dut''
     | Analyzer \<Rightarrow> lit ''Analyzer'' | Generator \<Rightarrow> lit ''Generator'')"

definition stand_device :: "'t device test_stand \<Rightarrow> pystr \<Rightarrow> device_class \<Rightarrow> exn + nat" where
  "stand_device stand role expected_type =
     (case map_of (ts_devices stand) role of
        None \<Rightarrow>
          let names = join (lit '', '') (sort (dict_keys (ts_devices stand)));
              available = (if names \<noteq> [] then names else lit ''none'')
          in Inl (Exn PyLookupError [Txt (lit ''Unknown device role ''), Repr role,
               Txt (lit ''. Available roles: ''), Txt available])
      | Some oid \<Rightarrow>
          let c = dev_class (ts_objects stand ! oid) in
          if \<not> device_isinstance c expected_type
          then Inl (Exn PyTypeError [Txt (lit ''Logical role ''), Repr role, Txt (lit '' requires ''),
            Txt (device_class_name expected_type), Txt (lit '', got ''), Txt (device_class_name c)])
          else Inr oid)"

definition optional_device :: "'t device test_stand \<Rightarrow> pystr \<Rightarrow> device_class \<Rightarrow> exn + nat option" where
  "optional_device stand role expected_type =
     (if \<not> has_key (ts_devices stand) role then Inr None
      else try_bind (stand_device stand role expected_type) (\<lambda>oid. Inr (Some oid)))"

definition stand_dut :: "'t device test_stand \<Rightarrow> exn + nat" where
  "stand_dut stand = stand_device stand (lit ''dut'') Dut"

definition stand_analyzer :: "'t device test_stand \<Rightarrow> exn + nat option" where
  "stand_analyzer stand = optional_device stand (lit ''analyzer'') Analyzer"

definition stand_generator :: "'t device test_stand \<Rightarrow> exn + nat option" where
  "stand_generator stand = optional_device stand (lit ''generator'') Generator"

section \<open>Connecting and closing\<close>

definition unique_devices :: "'d test_stand \<Rightarrow> nat list" where
  "unique_devices stand = unique (map snd (ts_devices stand))"

fun connect_devices ::
  "(nat \<Rightarrow> ('w, unit) io) \<Rightarrow> (nat \<Rightarrow> ('w, unit) io) \<Rightarrow> nat list \<Rightarrow> nat list \<Rightarrow> ('w, unit) io" where
  \<comment> \<open>the loop of \<^verbatim>\<open>connect\<close>, of the devices \<open>opened\<close> so far\<close>
  "connect_devices con clo opened [] = returning ()"
| "connect_devices con clo opened (d # ds) =
     io_then (try_except (con d) (\<lambda>e. io_then (io_each clo (rev opened)) (raising e)))
       (connect_devices con clo (opened @ [d]) ds)"

fun close_devices :: "(nat \<Rightarrow> ('w, unit) io) \<Rightarrow> nat list \<Rightarrow> exn option \<Rightarrow> ('w, unit) io" where
  \<comment> \<open>the loop of \<^verbatim>\<open>close\<close> and the \<^verbatim>\<open>raise\<close> after it\<close>
  "close_devices clo [] first_error =
     (case first_error of None \<Rightarrow> returning () | Some e \<Rightarrow> raising e)"
| "close_devices clo (d # ds) first_error =
     io_bind (try_except (io_then (clo d) (returning first_error))
         (\<lambda>e. returning (Some (case first_error of None \<Rightarrow> e | Some e' \<Rightarrow> e'))))
       (close_devices clo ds)"

text \<open>An operation of one device, on the state of the stand.\<close>

type_synonym ('w, 'a) stand_io = "('w \<times> (nat \<Rightarrow> transport_state), 'a) io"

definition on_device :: "nat \<Rightarrow> ('w, 'a) agent_transport_io \<Rightarrow> ('w, 'a) stand_io" where
  "on_device oid m = (\<lambda>(w, S).
     case m ((w, fst (S oid)), snd (S oid)) of
       None \<Rightarrow> None
     | Some (r, ((w', b), s)) \<Rightarrow> Some (r, (w', S(oid := (b, s)))))"

definition stand_connect :: "'w libraries \<Rightarrow> runtime_device test_stand \<Rightarrow> ('w, unit) stand_io" where
  "stand_connect lib stand =
     connect_devices (\<lambda>i. on_device i (device_connect lib (ts_objects stand ! i)))
       (\<lambda>i. on_device i (device_close lib (ts_objects stand ! i))) [] (unique_devices stand)"

definition stand_close :: "'w libraries \<Rightarrow> runtime_device test_stand \<Rightarrow> ('w, unit) stand_io" where
  "stand_close lib stand =
     close_devices (\<lambda>i. on_device i (device_close lib (ts_objects stand ! i)))
       (rev (unique_devices stand)) None"

section \<open>A pool of devices\<close>

text \<open>
  What a stand relies on: an operation of one device changes only that device's state,
  connecting and closing leave it up and down when they return, and a connection that fails
  leaves a device down that was down.
\<close>

locale device_pool =
  fixes con clo :: "nat \<Rightarrow> ('w \<times> (nat \<Rightarrow> 's), unit) io"
    and up :: "nat \<Rightarrow> 's \<Rightarrow> bool"
    and quiet :: "nat \<Rightarrow> bool"
  assumes con_frame: "con i (w, S) = Some (r, (w', S')) \<Longrightarrow> j \<noteq> i \<Longrightarrow> S' j = S j"
    and clo_frame: "clo i (w, S) = Some (r, (w', S')) \<Longrightarrow> j \<noteq> i \<Longrightarrow> S' j = S j"
    and con_up: "con i (w, S) = Some (Inr u, (w', S')) \<Longrightarrow> up i (S' i)"
    and con_fails: "con i (w, S) = Some (Inl e, (w', S')) \<Longrightarrow> quiet i \<Longrightarrow> \<not> up i (S i) \<Longrightarrow> \<not> up i (S' i)"
    and clo_down: "clo i (w, S) = Some (Inr u, (w', S')) \<Longrightarrow> \<not> up i (S' i)"
begin

lemma each_close:
  assumes "io_each clo ds (w, S) = Some (r, (w', S'))"
  shows "(\<forall>j. j \<notin> set ds \<longrightarrow> S' j = S j) \<and> (\<forall>u. r = Inr u \<longrightarrow> (\<forall>j \<in> set ds. \<not> up j (S' j)))"
  using assms
proof (induction ds arbitrary: w S)
  case (Cons d ds)
  show ?case
  proof (cases "\<exists>e. clo d (w, S) = Some (Inl e, (w', S')) \<and> r = Inl e")
    case True
    then show ?thesis by (auto dest: clo_frame)
  next
    case False
    with Cons.prems obtain u w1 S1 where first: "clo d (w, S) = Some (Inr u, (w1, S1))"
      and rest: "io_each clo ds (w1, S1) = Some (r, (w', S'))"
      by (cases r) (auto simp: io_cases)
    note IH = Cons.IH [OF rest]
    have "\<not> up d (S' d)" if "r = Inr ()" using that IH clo_down [OF first] by (cases "d \<in> set ds") auto
    then show ?thesis using IH clo_frame [OF first] by auto
  qed
qed (simp add: returning_def)

lemma connect_all:
  assumes "connect_devices con clo done' ds (w, S) = Some (r, (w', S'))"
    and "distinct (done' @ ds)" and "\<forall>j \<in> set ds. \<not> up j (S j)" and "\<forall>j \<in> set done'. up j (S j)"
  shows "(\<forall>j. j \<notin> set (done' @ ds) \<longrightarrow> S' j = S j) \<and>
    (case r of
       Inr u \<Rightarrow> \<forall>j \<in> set (done' @ ds). up j (S' j)
     | Inl e \<Rightarrow> (\<forall>j \<in> set ds. quiet j) \<longrightarrow> (\<forall>j \<in> set (done' @ ds). \<forall>w e w'. clo j w \<noteq> Some (Inl e, w'))
         \<longrightarrow> (\<forall>j \<in> set (done' @ ds). \<not> up j (S' j)))"
  using assms
proof (induction ds arbitrary: done' w S)
  case Nil
  then show ?case by (auto simp: returning_def)
next
  case (Cons d ds)
  show ?case
  proof (cases "\<exists>w1 S1. con d (w, S) = Some (Inr (), (w1, S1))")
    case True
    then obtain w1 S1 where first: "con d (w, S) = Some (Inr (), (w1, S1))" by blast
    with Cons.prems(1) have rest: "connect_devices con clo (done' @ [d]) ds (w1, S1) = Some (r, (w', S'))"
      by (auto simp: io_bind_def try_except_def split: option.splits sum.splits)
    have frame: "S1 j = S j" if "j \<noteq> d" for j using con_frame [OF first that] .
    have "d \<notin> set ds" "d \<notin> set done'" using Cons.prems(2) by auto
    then have "S1 j = S j" if "j \<in> set ds \<union> set done'" for j using that frame by (metis UnE)
    then have "\<forall>j \<in> set ds. \<not> up j (S1 j)" "\<forall>j \<in> set (done' @ [d]). up j (S1 j)"
      using Cons.prems(3,4) con_up [OF first] by auto
    from Cons.IH [OF rest _ this] Cons.prems(2) frame show ?thesis
      by (auto split: sum.splits)
  next
    case False
    with Cons.prems(1) obtain e w1 S1 q where first: "con d (w, S) = Some (Inl e, (w1, S1))"
      and undone: "io_each clo (rev done') (w1, S1) = Some (q, (w', S'))"
      and r: "r = Inl (case q of Inl e' \<Rightarrow> e' | Inr u \<Rightarrow> e)"
      by (auto simp: io_bind_def try_except_def run_simps split: option.splits sum.splits)
    note closed = each_close [OF undone]
    have frame: "S1 j = S j" if "j \<noteq> d" for j using con_frame [OF first that] .
    have "\<not> up j (S' j)" if quiet: "\<forall>j \<in> set (d # ds). quiet j" and calm: "\<forall>j \<in> set (done' @ d # ds). \<forall>w e w'. clo j w \<noteq> Some (Inl e, w')"
      and "j \<in> set (done' @ d # ds)" for j
    proof (cases "j \<in> set done'")
      case True
      have "set l \<subseteq> set done' \<Longrightarrow> io_each clo l x \<noteq> Some (Inl e', (v', T'))" for l x e' v' T'
        using calm by (induction l arbitrary: x) (auto simp: io_cases returning_def)
      from this [of "rev done'"] undone obtain u where "q = Inr u" by (cases q) auto
      with closed True show ?thesis by auto
    next
      case out: False
      with closed have "S' j = S1 j" by simp
      moreover have "\<not> up j (S1 j)"
        using out that(3) Cons.prems(3) frame [of j] con_fails [OF first] quiet by (cases "j = d") auto
      ultimately show ?thesis by simp
    qed
    then show ?thesis using closed frame r by auto
  qed
qed

text \<open>Closing in turn stops at the first device whose closing raises.\<close>

lemma each_close_stops:
  assumes "io_each clo ds (w, S) = Some (r, (w', S'))" and "distinct ds"
  shows "\<exists>closed kept. ds = closed @ kept \<and> (\<forall>j \<in> set closed. \<not> up j (S' j)) \<and>
    (\<forall>j. j \<notin> set closed \<longrightarrow> j \<notin> set (take 1 kept) \<longrightarrow> S' j = S j) \<and>
    (case r of Inr u \<Rightarrow> kept = [] | Inl e \<Rightarrow> kept \<noteq> [] \<and> (\<exists>a a'. clo (hd kept) a = Some (Inl e, a')))"
  using assms
proof (induction ds arbitrary: w S)
  case Nil
  then show ?case by (simp add: returning_def) auto
next
  case (Cons d ds)
  show ?case
  proof (cases "\<exists>e. clo d (w, S) = Some (Inl e, (w', S')) \<and> r = Inl e")
    case True
    then show ?thesis using clo_frame by (intro exI [of _ "[]"] exI [of _ "d # ds"]) fastforce
  next
    case False
    with Cons.prems(1) obtain u w1 S1 where first: "clo d (w, S) = Some (Inr u, (w1, S1))"
      and rest: "io_each clo ds (w1, S1) = Some (r, (w', S'))"
      by (cases r) (auto simp: io_cases)
    from Cons.IH [OF rest] Cons.prems(2) obtain closed kept where IH: "ds = closed @ kept"
      "\<forall>j \<in> set closed. \<not> up j (S' j)" "\<forall>j. j \<notin> set closed \<longrightarrow> j \<notin> set (take 1 kept) \<longrightarrow> S' j = S1 j"
      "case r of Inr u \<Rightarrow> kept = [] | Inl e \<Rightarrow> kept \<noteq> [] \<and> (\<exists>a a'. clo (hd kept) a = Some (Inl e, a'))" by auto
    have "d \<notin> set closed" "d \<notin> set (take 1 kept)"
      using Cons.prems(2) IH(1) set_take_subset [of 1 kept] by auto
    with IH(3) clo_down [OF first] have "\<not> up d (S' d)" by simp
    moreover have "S' j = S j" if "j \<notin> set (d # closed)" "j \<notin> set (take 1 kept)" for j
      using that IH(3) clo_frame [OF first, of j] by simp
    ultimately show ?thesis using IH by (intro exI [of _ "d # closed"] exI [of _ kept]) auto
  qed
qed

lemma connect_outcome:
  assumes "connect_devices con clo done' ds (w, S) = Some (r, (w', S'))"
    and "distinct (done' @ ds)" and "\<forall>j \<in> set done'. up j (S j)"
  shows "case r of
      Inr u \<Rightarrow> (\<forall>j \<in> set (done' @ ds). up j (S' j)) \<and> (\<forall>j. j \<notin> set (done' @ ds) \<longrightarrow> S' j = S j)
    | Inl e \<Rightarrow> \<exists>opened failed rest closed kept. ds = opened @ failed # rest \<and>
        rev (done' @ opened) = closed @ kept \<and> (\<forall>j \<in> set closed. \<not> up j (S' j)) \<and>
        (\<forall>j \<in> set (tl kept). up j (S' j)) \<and>
        (\<forall>j. j \<notin> set (done' @ opened @ [failed]) \<longrightarrow> S' j = S j) \<and>
        (quiet failed \<longrightarrow> \<not> up failed (S failed) \<longrightarrow> \<not> up failed (S' failed)) \<and>
        (if kept = [] then \<exists>a a'. con failed a = Some (Inl e, a') else \<exists>a a'. clo (hd kept) a = Some (Inl e, a'))"
  using assms
proof (induction ds arbitrary: done' w S)
  case Nil
  then show ?case by (simp add: returning_def) auto
next
  case (Cons d ds)
  show ?case
  proof (cases "\<exists>w1 S1. con d (w, S) = Some (Inr (), (w1, S1))")
    case True
    then obtain w1 S1 where first: "con d (w, S) = Some (Inr (), (w1, S1))" by blast
    with Cons.prems(1) have rest: "connect_devices con clo (done' @ [d]) ds (w1, S1) = Some (r, (w', S'))"
      by (auto simp: io_bind_def try_except_def split: option.splits sum.splits)
    have frame: "S1 j = S j" if "j \<noteq> d" for j using con_frame [OF first that] .
    have "d \<notin> set done'" "d \<notin> set ds" "distinct ((done' @ [d]) @ ds)" using Cons.prems(2) by auto
    moreover have "\<forall>j \<in> set (done' @ [d]). up j (S1 j)"
      using Cons.prems(3) con_up [OF first] frame calculation(1)
      by (metis Un_iff empty_iff empty_set insert_iff list.simps(15) set_append)
    ultimately have IH: "case r of
      Inr u \<Rightarrow> (\<forall>j \<in> set ((done' @ [d]) @ ds). up j (S' j)) \<and> (\<forall>j. j \<notin> set ((done' @ [d]) @ ds) \<longrightarrow> S' j = S1 j)
    | Inl e \<Rightarrow> \<exists>opened failed rest closed kept. ds = opened @ failed # rest \<and>
        rev ((done' @ [d]) @ opened) = closed @ kept \<and> (\<forall>j \<in> set closed. \<not> up j (S' j)) \<and>
        (\<forall>j \<in> set (tl kept). up j (S' j)) \<and>
        (\<forall>j. j \<notin> set ((done' @ [d]) @ opened @ [failed]) \<longrightarrow> S' j = S1 j) \<and>
        (quiet failed \<longrightarrow> \<not> up failed (S1 failed) \<longrightarrow> \<not> up failed (S' failed)) \<and>
        (if kept = [] then \<exists>a a'. con failed a = Some (Inl e, a') else \<exists>a a'. clo (hd kept) a = Some (Inl e, a'))"
      using Cons.IH [OF rest] by blast
    show ?thesis
    proof (cases r)
      case (Inl e)
      from IH [unfolded Inl sum.case] obtain opened failed rest closed kept where split: "ds = opened @ failed # rest"
        "rev ((done' @ [d]) @ opened) = closed @ kept"
        and states: "\<forall>j \<in> set closed. \<not> up j (S' j)" "\<forall>j \<in> set (tl kept). up j (S' j)"
        "\<forall>j. j \<notin> set ((done' @ [d]) @ opened @ [failed]) \<longrightarrow> S' j = S1 j"
        "quiet failed \<longrightarrow> \<not> up failed (S1 failed) \<longrightarrow> \<not> up failed (S' failed)"
        "if kept = [] then \<exists>a a'. con failed a = Some (Inl e, a') else \<exists>a a'. clo (hd kept) a = Some (Inl e, a')"
        by (elim exE conjE) (rule that)
      have "failed \<noteq> d" using split(1) \<open>d \<notin> set ds\<close> by auto
      with states(4) frame have "quiet failed \<longrightarrow> \<not> up failed (S failed) \<longrightarrow> \<not> up failed (S' failed)" by simp
      moreover have "\<forall>j. j \<notin> set (done' @ (d # opened) @ [failed]) \<longrightarrow> S' j = S j" using states(3) frame by auto
      moreover have "rev (done' @ d # opened) = closed @ kept" using split(2) by simp
      moreover have "d # ds = (d # opened) @ failed # rest" using split(1) by simp
      ultimately show ?thesis unfolding Inl sum.case using states(1,2,5) by blast
    qed (use IH frame in auto)
  next
    case False
    with Cons.prems(1) obtain e w1 S1 q where first: "con d (w, S) = Some (Inl e, (w1, S1))"
      and undone: "io_each clo (rev done') (w1, S1) = Some (q, (w', S'))"
      and r: "r = Inl (case q of Inl e' \<Rightarrow> e' | Inr u \<Rightarrow> e)"
      by (auto simp: io_bind_def try_except_def run_simps split: option.splits sum.splits)
    from each_close_stops [OF undone] Cons.prems(2) obtain closed kept where stops: "rev done' = closed @ kept"
      "\<forall>j \<in> set closed. \<not> up j (S' j)" "\<forall>j. j \<notin> set closed \<longrightarrow> j \<notin> set (take 1 kept) \<longrightarrow> S' j = S1 j"
      "case q of Inr u \<Rightarrow> kept = [] | Inl e \<Rightarrow> kept \<noteq> [] \<and> (\<exists>a a'. clo (hd kept) a = Some (Inl e, a'))" by auto
    have frame: "S1 j = S j" if "j \<noteq> d" for j using con_frame [OF first that] .
    have sets: "set done' = set closed \<union> set kept" using arg_cong [OF stops(1), of set] by simp
    have "distinct (closed @ kept)" using Cons.prems(2) by (simp add: stops(1) [symmetric])
    then have "j \<notin> set closed" "j \<notin> set (take 1 kept)" if "j \<in> set (tl kept)" for j
      using that by (cases kept; auto)+
    note apart = this
    have "up j (S' j)" if "j \<in> set (tl kept)" for j
    proof -
      have "j \<in> set done'" using that sets by (cases kept) auto
      then have "up j (S j)" "j \<noteq> d" using Cons.prems(2,3) by auto
      then show ?thesis using stops(3) apart [OF that] frame [of j] by simp
    qed
    moreover have away: "S' j = S1 j" if "j \<notin> set done'" for j
      using that stops(3) sets set_take_subset [of 1 kept] by blast
    moreover have "quiet d \<longrightarrow> \<not> up d (S d) \<longrightarrow> \<not> up d (S' d)"
      using con_fails [OF first] away [of d] Cons.prems(2) by auto
    moreover have "\<exists>e'. r = Inl e' \<and> (if kept = [] then \<exists>a a'. con d a = Some (Inl e', a') else \<exists>a a'. clo (hd kept) a = Some (Inl e', a'))"
      using stops(4) first r by (cases q) auto
    then obtain e' where e': "r = Inl e'"
      "if kept = [] then \<exists>a a'. con d a = Some (Inl e', a') else \<exists>a a'. clo (hd kept) a = Some (Inl e', a')" by blast
    moreover have "\<forall>j. j \<notin> set (done' @ [] @ [d]) \<longrightarrow> S' j = S j" using away frame by simp
    moreover have "d # ds = [] @ d # ds" "rev (done' @ []) = closed @ kept" using stops(1) by simp_all
    ultimately show ?thesis unfolding e'(1) sum.case using stops(2) by blast
  qed
qed

end

section \<open>The stand is such a pool\<close>

lemma on_device_Some [io_cases]:
  "on_device i m (w, S) = Some (r, (w', S')) \<longleftrightarrow>
     (\<exists>b s. m ((w, fst (S i)), snd (S i)) = Some (r, ((w', b), s)) \<and> S' = S(i := (b, s)))"
  by (auto simp: on_device_def split: option.splits)

definition device_up :: "runtime_device test_stand \<Rightarrow> nat \<Rightarrow> transport_state \<Rightarrow> bool" where
  \<comment> \<open>the device's transport holds a connection\<close>
  "device_up stand i s = holds (wrapped (dev_transport (ts_objects stand ! i))) (snd s)"

interpretation pool: device_pool "\<lambda>i. on_device i (device_connect lib (ts_objects stand ! i))"
  "\<lambda>i. on_device i (device_close lib (ts_objects stand ! i))" "device_up stand"
  "\<lambda>i. quiet_library lib (wrapped (dev_transport (ts_objects stand ! i)))"
  for lib :: "'w libraries" and stand
proof (unfold_locales, goal_cases)
  case (1 i w S r w' S' j) then show ?case by (auto simp: on_device_Some)
next
  case (2 i w S r w' S' j) then show ?case by (auto simp: on_device_Some)
next
  case (3 i w S u w' S')
  then show ?case by (auto simp: on_device_Some device_up_def device_connect_def dest: any.connect_holds)
next
  case (4 i w S e w' S')
  then show ?case by (auto simp: on_device_Some device_up_def device_connect_def dest: any.connect_failed)
next
  case (5 i w S u w' S')
  then show ?case by (auto simp: on_device_Some device_up_def device_close_def dest: any.close_releases)
qed

definition calm_closing :: "'w libraries \<Rightarrow> runtime_device test_stand \<Rightarrow> bool" where
  \<comment> \<open>closing a device, or the channel of a connection that failed, does not raise\<close>
  "calm_closing lib stand \<longleftrightarrow>
     (\<forall>d \<in> set (unique_devices stand).
        quiet_library lib (wrapped (dev_transport (ts_objects stand ! d)))) \<and>
     (\<forall>d \<in> set (unique_devices stand). \<forall>a e a'.
        device_close lib (ts_objects stand ! d) a \<noteq> Some (Inl e, a'))"

text \<open>When closing does not raise, connecting is all or nothing.\<close>

lemma calm_connect_all_or_none:
  assumes "stand_connect lib stand (w, S) = Some (r, (w', S'))" and "calm_closing lib stand"
    and "\<forall>d \<in> set (unique_devices stand). \<not> device_up stand d (S d)"
  shows "(\<forall>d \<in> set (unique_devices stand). device_up stand d (S' d) \<longleftrightarrow> (\<exists>u. r = Inr u)) \<and>
    (\<forall>d. d \<notin> set (unique_devices stand) \<longrightarrow> S' d = S d)"
proof -
  have calm: "\<forall>d \<in> set (unique_devices stand). \<forall>a e a'.
      on_device d (device_close lib (ts_objects stand ! d)) a \<noteq> Some (Inl e, a')"
    using assms(2) by (auto simp: calm_closing_def on_device_Some)
  have "distinct ([] @ unique_devices stand)" by (simp add: unique_devices_def)
  from pool.connect_all [OF assms(1) [unfolded stand_connect_def] this assms(3)] calm assms(2)
  show ?thesis
    by (cases r) (auto simp: calm_closing_def split_paired_all)
qed

text \<open>
  C4. What connecting a stand leaves behind: if \<^verbatim>\<open>connect\<close> returns, every device of every role is
  up. If it raises, some device failed; of those opened before it, in reverse order, the first
  ones have been closed and are down, until one of these closes raised itself: then its error
  is raised, and the devices opened before that one are still up. If none did, all are down
  and the error is that of the failed device. Whatever comes after the failed device, and
  every device outside the stand, is untouched, and the failed device itself is down again if
  it was down, unless its library raises from closing a channel.
\<close>

theorem stand_connect_outcome:
  assumes "stand_connect lib stand (w, S) = Some (r, (w', S'))"
  shows "case r of
      Inr u \<Rightarrow> (\<forall>d \<in> set (unique_devices stand). device_up stand d (S' d)) \<and>
        (\<forall>d. d \<notin> set (unique_devices stand) \<longrightarrow> S' d = S d)
    | Inl e \<Rightarrow> \<exists>opened failed rest closed kept. unique_devices stand = opened @ failed # rest \<and>
        rev opened = closed @ kept \<and> (\<forall>d \<in> set closed. \<not> device_up stand d (S' d)) \<and>
        (\<forall>d \<in> set (tl kept). device_up stand d (S' d)) \<and>
        (\<forall>d. d \<notin> set (opened @ [failed]) \<longrightarrow> S' d = S d) \<and>
        (quiet_library lib (wrapped (dev_transport (ts_objects stand ! failed))) \<longrightarrow>
          \<not> device_up stand failed (S failed) \<longrightarrow> \<not> device_up stand failed (S' failed)) \<and>
        (if kept = []
         then \<exists>a a'. on_device failed (device_connect lib (ts_objects stand ! failed)) a = Some (Inl e, a')
         else \<exists>a a'. on_device (hd kept) (device_close lib (ts_objects stand ! hd kept)) a = Some (Inl e, a'))"
proof -
  have "distinct ([] @ unique_devices stand)" by (simp add: unique_devices_def)
  from pool.connect_outcome [OF assms [unfolded stand_connect_def] this] show ?thesis
    by (simp only: append_Nil list.set(1) ball_empty)
qed

section \<open>Closing attempts everything\<close>

text \<open>\<open>attempts f ds w rs w'\<close>: running \<open>f\<close> on each of \<open>ds\<close> in turn, whatever the outcomes \<open>rs\<close>,
  leads from \<open>w\<close> to \<open>w'\<close>.\<close>

inductive attempts :: "('d \<Rightarrow> ('w, unit) io) \<Rightarrow> 'd list \<Rightarrow> 'w \<Rightarrow> (exn + unit) list \<Rightarrow> 'w \<Rightarrow> bool"
  for f where
  none: "attempts f [] w [] w"
| one: "f d w = Some (r, w1) \<Longrightarrow> attempts f ds w1 rs w' \<Longrightarrow> attempts f (d # ds) w (r # rs) w'"

inductive_simps attempts_simps: "attempts f [] w rs w'" "attempts f (d # ds) w rs w'"

fun first_error_of :: "(exn + unit) list \<Rightarrow> exn option" where
  "first_error_of [] = None"
| "first_error_of (Inl e # rs) = Some e"
| "first_error_of (Inr u # rs) = first_error_of rs"

lemma close_devices_attempts:
  "close_devices clo ds first w = Some (r, w') \<longleftrightarrow>
     (\<exists>rs. attempts clo ds w rs w' \<and>
       r = (case (case first of None \<Rightarrow> first_error_of rs | Some e \<Rightarrow> Some e) of
              None \<Rightarrow> Inr () | Some e \<Rightarrow> Inl e))"
proof (induction ds arbitrary: first w)
  case Nil
  then show ?case by (cases first) (auto simp: attempts_simps run_simps)
next
  case (Cons d ds)
  show ?case
  proof (cases "clo d w")
    case None
    then show ?thesis by (auto simp: attempts_simps run_bind run_try_except)
  next
    case (Some q)
    then obtain r0 w1 where "clo d w = Some (r0, w1)" by (cases q) auto
    then show ?thesis
      by (cases r0; cases first)
        (auto simp: attempts_simps io_bind_def try_except_def run_simps Cons.IH)
  qed
qed

lemma remdups_snoc: "remdups (ys @ [x]) = filter (\<lambda>y. y \<noteq> x) (remdups ys) @ [x]"
  by (induction ys) auto

lemma unique_from_remdups: "rev (unique_from seen xs) = filter (\<lambda>x. x \<notin> set seen) (remdups (rev xs))"
  by (induction xs arbitrary: seen) (auto simp: remdups_snoc intro: filter_cong)

text \<open>
  C32. Closing a stand attempts every device exactly once, however many roles share it, in the
  reverse of the order in which the roles first name them, and goes on after a failure; it
  raises exactly when some device failed to close, and then the first such error.
\<close>

theorem stand_close_attempts_all:
  "distinct (remdups (rev (map snd (ts_devices stand)))) \<and>
   set (remdups (rev (map snd (ts_devices stand)))) = snd ` set (ts_devices stand) \<and>
   (stand_close lib stand a = Some (r, a') \<longleftrightarrow>
     (\<exists>rs. attempts (\<lambda>i. on_device i (device_close lib (ts_objects stand ! i)))
         (remdups (rev (map snd (ts_devices stand)))) a rs a' \<and>
       r = (case first_error_of rs of None \<Rightarrow> Inr () | Some e \<Rightarrow> Inl e)))"
  by (simp add: stand_close_def close_devices_attempts unique_devices_def unique_def unique_from_remdups)

section \<open>The roles of a created stand\<close>

lemma create_device_class:
  "create_device c t = Inr d \<Longrightarrow> map_of device_types (dc_type c) = Some (dev_class d)"
  by (auto simp: create_device_def split: option.splits)

text \<open>
  On a stand made by \<^verbatim>\<open>create_stand\<close> looking up a role of its configuration with an expected
  class succeeds exactly when the type the inventory gives the device of that role is the
  expected class, or any device is accepted; otherwise it raises \<^verbatim>\<open>TypeError\<close>. Any other role
  raises \<^verbatim>\<open>LookupError\<close>.
\<close>

lemma created_stand_lookup:
  assumes "create_stand inventory config settings = Inr stand" and "dict_ok (sd_devices config)"
  shows "case map_of (sd_devices config) role of
      None \<Rightarrow> \<exists>m. stand_device stand role expected = Inl (Exn PyLookupError m)
    | Some name \<Rightarrow> \<exists>c k. map_of (inv_devices inventory) name = Some c \<and>
        map_of device_types (dc_type c) = Some k \<and>
        (if device_isinstance k expected
         then \<exists>oid. stand_device stand role expected = Inr oid \<and> dev_class (ts_objects stand ! oid) = k
         else \<exists>m. stand_device stand role expected = Inl (Exn PyTypeError m))"
proof -
  from assms obtain physical where
    inv: "stand_inv (\<lambda>c. create_transport c settings) create_device (inv_devices inventory)
      (sd_devices config) physical (ts_devices stand) (ts_objects stand)"
    unfolding create_stand_def by (rule stand_create_inv)
  show ?thesis
  proof (cases "map_of (sd_devices config) role")
    case None
    then have "map_of (ts_devices stand) role = None"
      using arg_cong [OF stand_inv_keys [OF inv], of set] by (auto simp: map_of_eq_None_iff)
    with None show ?thesis by (simp add: stand_device_def Let_def)
  next
    case (Some name)
    then have "(role, name) \<in> set (sd_devices config)" by (rule map_of_SomeD)
    from stand_inv_role [OF inv assms(2) this] obtain oid c t where
      "map_of (ts_devices stand) role = Some oid" "map_of (inv_devices inventory) name = Some c"
      and made: "create_device c t = Inr (ts_objects stand ! oid)"
      by (auto simp: built_def)
    with Some create_device_class [OF made] show ?thesis
      by (auto simp: stand_device_def Let_def)
  qed
qed

section \<open>Witnesses\<close>

text \<open>A stand of one SSH device in two roles; its host refuses every connection.\<close>

definition example_device :: runtime_device where
  "example_device = \<lparr>dev_class = Dut,
     dev_transport = SynchronizedTransport (SSHTransport example_connection 10 30), dev_model = lit ''m''\<rparr>"

definition example_test_stand :: "runtime_device test_stand" where
  "example_test_stand = \<lparr>ts_devices = [(lit ''dut'', 0), (lit ''console'', 0)], ts_objects = [example_device]\<rparr>"

definition refusing_libraries :: "nat libraries" where
  "refusing_libraries = \<lparr>lib_wide = (\<lambda>b. Inr []), lib_paramiko = refusing_paramiko,
     lib_pyserial = \<lparr>sl_open = (\<lambda>_ _ _. returning 0), sl_is_open = (\<lambda>_. returning False),
       sl_in_waiting = (\<lambda>_. returning 0), sl_read = (\<lambda>_ _. returning []),
       sl_write = (\<lambda>_ _. returning None), sl_close = (\<lambda>_. returning ())\<rparr>,
     lib_runtime = \<lparr>rt_monotonic = returning 0, rt_sleep = (\<lambda>_. returning ()), rt_uuid4_hex = returning []\<rparr>\<rparr>"

lemma example_unique: "unique_devices example_test_stand = [0]"
  by (simp add: unique_devices_def example_test_stand_def unique_def)

lemma device0: "ts_objects example_test_stand ! 0 = example_device"
  by (simp add: example_test_stand_def)

lemma refused: "device_connect refusing_libraries example_device ((0, b), disconnected)
    = Some (Inl (raise_txt SSHException ''refused''), ((0, b), disconnected))"
  by (simp add: device_connect_def example_device_def transport_connect_def beside_buffers_def
      ssh_connect_def io_bind_def run_fields run_simps refusing_libraries_def refusing_paramiko_def
      configure_host_key_policy_def connect_client_def example_connection_def outer_def disconnected_def)

lemma closing_calm: "device_close refusing_libraries example_device a \<noteq> Some (Inl e, a')"
  by (cases a; cases "fst a"; cases a'; cases "fst a'")
    (auto simp: device_close_def example_device_def transport_close_def beside_Some ssh_close_def
      io_cases refusing_libraries_def refusing_paramiko_def run_simps split: option.splits)

theorem stand_connect_outcome_witness:
  "stand_connect refusing_libraries example_test_stand (0, \<lambda>_. (no_buffers, disconnected))
     = Some (Inl (raise_txt SSHException ''refused''), (0, \<lambda>_. (no_buffers, disconnected))) \<and>
   \<not> device_up example_test_stand 0 (no_buffers, disconnected)"
proof -
  have run: "stand_connect refusing_libraries example_test_stand (0, \<lambda>_. (no_buffers, disconnected))
      = Some (Inl (raise_txt SSHException ''refused''), (0, \<lambda>_. (no_buffers, disconnected)))"
    unfolding stand_connect_def example_unique
    by (simp add: on_device_def device0 refused io_bind_def try_except_def run_simps fun_upd_idem)
  have quiet: "quiet_library refusing_libraries (wrapped (dev_transport example_device))"
    by (simp add: example_device_def quiet_library_def)
  have down: "\<not> device_up example_test_stand 0 (no_buffers, disconnected)"
    by (simp add: device_up_def device0) (simp add: example_device_def holds_def disconnected_def)
  obtain opened failed rest where "[0] = opened @ failed # rest"
    "quiet_library refusing_libraries (wrapped (dev_transport (ts_objects example_test_stand ! failed))) \<longrightarrow>
      \<not> device_up example_test_stand failed (no_buffers, disconnected)"
    using stand_connect_outcome [OF run] down unfolding example_unique sum.case by blast
  with quiet down run show ?thesis by (cases opened) (simp_all add: device0)
qed

definition dut_inventory :: "transport_config device_config inventory" where
  "dut_inventory = example_inventory\<lparr>inv_devices :=
     [(lit ''dut-01'', \<lparr>dc_type = lit ''dut'', dc_model = [],
        dc_transport = SshTransportConfig example_ssh\<rparr>)]\<rparr>"

lemma created_stand_lookup_witness:
  "\<exists>stand m. create_stand dut_inventory two_role_stand example_settings = Inr stand \<and>
     stand_device stand (lit ''console'') Analyzer = Inl (Exn PyTypeError m)"
proof -
  obtain stand where stand: "create_stand dut_inventory two_role_stand example_settings = Inr stand"
    by (simp add: create_stand_def stand_create_def two_role_stand_def dut_inventory_def Let_def
        create_device_def device_types_def create_ssh_config_def example_settings_def get_ssh_def
        default_settings_def example_ssh_def)
  have "dict_ok (sd_devices two_role_stand)" by (simp add: two_role_stand_def dict_ok_def)
  from created_stand_lookup [OF stand this, of "lit ''console''" Analyzer] stand show ?thesis
    by (auto simp: two_role_stand_def dut_inventory_def device_types_def device_isinstance_def)
qed

end
