(* ===== verification/Synchronized.thy ===== *)
theory Synchronized
  imports Stand
begin

text \<open>
  Threads on one \<^verbatim>\<open>SynchronizedTransport\<close>
  (\<^verbatim>\<open>src/hardware_test/transport/synchronized.py\<close>). A transport operation is not atomic: it
  begins and ends, and other threads may run in between. What a thread still has to do is a
  list of actions; the threads interleave freely on one re-entrant lock.
\<close>

section \<open>The code of a thread\<close>

datatype operation = Connect | Close | Execute command

text \<open>A thread calls operations, alone or in \<^verbatim>\<open>with transport.exclusive():\<close> blocks, which nest.\<close>

datatype use = Call operation | Exclusive "use list"

text \<open>\<open>Enter\<close> and \<open>Leave\<close> are the ends of a block's body, apart from the lock. A body that raises is
  a shorter body: \<^verbatim>\<open>with\<close> leaves it in the same way.\<close>

datatype action = Acquire | Release | Begin operation | Finish operation | Enter | Leave

fun use_actions :: "use \<Rightarrow> action list" where
  \<comment> \<open>\<^verbatim>\<open>with self._lock:\<close> around the wrapped transport's operation, or around the block\<close>
  "use_actions (Call f) = [Acquire, Begin f, Finish f, Release]"
| "use_actions (Exclusive us) = [Acquire, Enter] @ concat (map use_actions us) @ [Leave, Release]"

definition thread_actions :: "use list \<Rightarrow> action list" where
  "thread_actions us = concat (map use_actions us)"

section \<open>The lock\<close>

text \<open>\<^verbatim>\<open>RLock\<close>: its owner and how often it was acquired.\<close>

type_synonym rlock = "(nat \<times> nat) option"

definition acquire :: "nat \<Rightarrow> rlock \<Rightarrow> rlock option" where
  \<comment> \<open>\<^const>\<open>None\<close>: the thread has to wait\<close>
  "acquire t l =
     (case l of None \<Rightarrow> Some (Some (t, 1))
      | Some (u, n) \<Rightarrow> if u = t then Some (Some (t, n + 1)) else None)"

definition release :: "nat \<Rightarrow> rlock \<Rightarrow> rlock option" where
  \<comment> \<open>\<^const>\<open>None\<close>: the lock is not the thread's, a \<^verbatim>\<open>RuntimeError\<close>\<close>
  "release t l =
     (case l of None \<Rightarrow> None
      | Some (u, n) \<Rightarrow> if u = t then Some (if n \<le> 1 then None else Some (t, n - 1)) else None)"

record threads =
  lock :: rlock
  code :: "nat \<Rightarrow> action list"

definition perform :: "nat \<Rightarrow> action \<Rightarrow> rlock \<Rightarrow> rlock option" where
  "perform t a l = (case a of Acquire \<Rightarrow> acquire t l | Release \<Rightarrow> release t l | _ \<Rightarrow> Some l)"

inductive thread_step :: "threads \<Rightarrow> nat \<times> action \<Rightarrow> threads \<Rightarrow> bool" where
  act: "code s t = a # rest \<Longrightarrow> perform t a (lock s) = Some l
    \<Longrightarrow> thread_step s (t, a) (s\<lparr>lock := l, code := (code s)(t := rest)\<rparr>)"

inductive_cases thread_stepE: "thread_step s (t, a) s'"

inductive reachable :: "(nat \<Rightarrow> use list) \<Rightarrow> threads \<Rightarrow> bool" for us where
  start: "reachable us \<lparr>lock = None, code = (\<lambda>t. thread_actions (us t))\<rparr>"
| move: "reachable us s \<Longrightarrow> thread_step s ta s' \<Longrightarrow> reachable us s'"

section \<open>The invariant\<close>

text \<open>\<open>nested n m as\<close>: run by a thread that holds the lock \<open>n\<close> times and is in \<open>m\<close> blocks, \<open>as\<close>
  calls the transport only under the lock, keeps it until its blocks are left, and gives it back.\<close>

fun nested :: "nat \<Rightarrow> nat \<Rightarrow> action list \<Rightarrow> bool" where
  "nested n m [] \<longleftrightarrow> n = 0 \<and> m = 0"
| "nested n m (Acquire # as) \<longleftrightarrow> nested (Suc n) m as"
| "nested n m (Release # as) \<longleftrightarrow> m < n \<and> nested (n - 1) m as"
| "nested n m (Begin f # as) \<longleftrightarrow> 0 < n \<and> (\<exists>r. as = Finish f # r) \<and> nested n m as"
| "nested n m (Finish f # as) \<longleftrightarrow> 0 < n \<and> nested n m as"
| "nested n m (Enter # as) \<longleftrightarrow> m < n \<and> nested n (Suc m) as"
| "nested n m (Leave # as) \<longleftrightarrow> 0 < m \<and> m \<le> n \<and> nested n (m - 1) as"

lemma nested_use: "nested n m as \<Longrightarrow> m \<le> n \<Longrightarrow> nested n m (use_actions u @ as)"
proof (induction u arbitrary: n m as)
  case (Exclusive us)
  have "nested (Suc n) (Suc m) (concat (map use_actions us) @ Leave # Release # as)"
    using Exclusive.IH Exclusive.prems by (induction us) auto
  with Exclusive.prems show ?case by simp
qed simp

lemma nested_thread: "nested 0 0 (thread_actions us)"
  unfolding thread_actions_def by (induction us) (auto intro: nested_use)

lemma nested_blocks:
  "nested n m as \<Longrightarrow> m \<le> n \<Longrightarrow> count_list as Leave = count_list as Enter + m"
  by (induction n m as rule: nested.induct) auto

definition depth :: "rlock \<Rightarrow> nat \<Rightarrow> nat" where
  "depth l t = (case l of Some (u, n) \<Rightarrow> if u = t then n else 0 | None \<Rightarrow> 0)"

lemma depth_owner: "l = Some (u, n) \<Longrightarrow> depth l u = n"
  by (simp add: depth_def)

definition lock_inv :: "threads \<Rightarrow> bool" where
  "lock_inv s \<longleftrightarrow> (\<forall>u n. lock s = Some (u, n) \<longrightarrow> 0 < n) \<and>
     (\<forall>t. \<exists>m \<le> depth (lock s) t. nested (depth (lock s) t) m (code s t))"

lemma perform_depth:
  assumes "perform t a l = Some l'" and "\<forall>u n. l = Some (u, n) \<longrightarrow> 0 < n"
    and "m \<le> depth l t" and "nested (depth l t) m (a # rest)"
  shows "(\<forall>u n. l' = Some (u, n) \<longrightarrow> 0 < n) \<and> (\<exists>m' \<le> depth l' t. nested (depth l' t) m' rest) \<and>
    (\<forall>u. u \<noteq> t \<longrightarrow> depth l' u = depth l u)"
proof (cases a)
  case Enter
  with assms show ?thesis by (auto simp: perform_def intro: exI [of _ "Suc m"])
next
  case Leave
  with assms show ?thesis by (auto simp: perform_def intro: exI [of _ "m - 1"])
qed (use assms in \<open>fastforce simp: perform_def acquire_def release_def depth_def intro: exI [of _ m]
    split: option.splits if_splits\<close>)+

lemma lock_inv_step:
  assumes "thread_step s ta s'" and "lock_inv s" shows "lock_inv s'"
  using assms
proof cases
  case (act t a rest l)
  from assms(2) have pos: "\<forall>u n. lock s = Some (u, n) \<longrightarrow> 0 < n"
    and nest: "\<And>u. \<exists>m \<le> depth (lock s) u. nested (depth (lock s) u) m (code s u)"
    by (simp_all add: lock_inv_def)
  from nest [of t] act(3) obtain m where "m \<le> depth (lock s) t" "nested (depth (lock s) t) m (a # rest)" by auto
  note after = perform_depth [OF act(4) pos this]
  have "\<exists>m \<le> depth l u. nested (depth l u) m (if u = t then rest else code s u)" for u
  proof (cases "u = t")
    case False
    then have "depth l u = depth (lock s) u" using after by blast
    with nest False show ?thesis by simp
  qed (use after in simp)
  with after show ?thesis unfolding act(2) lock_inv_def by simp
qed

lemma lock_inv_reachable: "reachable us s \<Longrightarrow> lock_inv s"
proof (induction rule: reachable.induct)
  case start
  then show ?case by (simp add: lock_inv_def depth_def nested_thread)
qed (rule lock_inv_step)

text \<open>A thread is inside an operation when its next action is to finish it, and in an exclusive
  block when it has a block to leave that it need not enter first.\<close>

definition inside :: "threads \<Rightarrow> nat \<Rightarrow> bool" where
  "inside s t \<longleftrightarrow> (\<exists>f r. code s t = Finish f # r)"

definition in_block :: "threads \<Rightarrow> nat \<Rightarrow> bool" where
  "in_block s t \<longleftrightarrow> count_list (code s t) Enter < count_list (code s t) Leave"

lemma owns:
  assumes "lock_inv s" and "inside s t \<or> in_block s t" shows "\<exists>n. lock s = Some (t, n)"
proof -
  from assms(1) obtain m where m: "m \<le> depth (lock s) t" "nested (depth (lock s) t) m (code s t)"
    unfolding lock_inv_def by blast
  from assms(2) have "0 < depth (lock s) t"
  proof
    assume "in_block s t"
    with nested_blocks [OF m(2,1)] m(1) show ?thesis by (simp add: in_block_def)
  qed (use m(2) in \<open>auto simp: inside_def\<close>)
  then show ?thesis by (auto simp: depth_def split: option.splits if_splits)
qed

lemma only_owner_moves:
  assumes "lock_inv s" and l: "lock s = Some (t, n)" and step: "thread_step s (u, a) s'"
  shows "u = t"
proof (rule ccontr)
  assume ne: "u \<noteq> t"
  from step obtain rest l' where "code s u = a # rest" "perform u a (lock s) = Some l'"
    by (auto elim: thread_stepE)
  moreover from assms(1) obtain m where "m \<le> depth (lock s) u" "nested (depth (lock s) u) m (code s u)"
    unfolding lock_inv_def by blast
  ultimately show False
    using l ne by (cases a) (auto simp: depth_def perform_def acquire_def)
qed

text \<open>
  C11. The transport is never used by two threads at once: whatever the threads do with it and
  however they interleave, at most one of them is inside an operation of the wrapped
  transport or in an exclusive block, and while one is, no other thread moves at all - it
  neither begins an operation nor enters a block.
\<close>

theorem transport_exclusive:
  assumes "reachable us s" and "inside s t \<or> in_block s t"
  shows "(inside s u \<or> in_block s u \<longrightarrow> u = t) \<and> (thread_step s (u, a) s' \<longrightarrow> u = t)"
proof -
  note inv = lock_inv_reachable [OF assms(1)]
  from owns [OF inv assms(2)] obtain n where "lock s = Some (t, n)" by blast
  with only_owner_moves [OF inv this] owns [OF inv, of u] show ?thesis by auto
qed

text \<open>
  C33. The threads never deadlock on a transport: as long as some thread has something left to
  do, some thread can move, and when all are finished the lock is free.
\<close>

theorem transport_no_deadlock:
  assumes "reachable us s"
  shows "((\<exists>t. code s t \<noteq> []) \<longleftrightarrow> (\<exists>t a s'. thread_step s (t, a) s')) \<and>
    ((\<forall>t. code s t = []) \<longrightarrow> lock s = None)"
proof -
  note inv = lock_inv_reachable [OF assms]
  have nested: "\<exists>m \<le> depth (lock s) t. nested (depth (lock s) t) m (code s t)" for t using inv by (simp add: lock_inv_def)
  have move: "\<exists>a s'. thread_step s (t, a) s'" if "code s t = a # rest" "perform t a (lock s) \<noteq> None" for t a rest
    using that by (auto intro: thread_step.act)
  have "(\<exists>t. code s t \<noteq> []) \<longleftrightarrow> (\<exists>t a s'. thread_step s (t, a) s')"
  proof
    assume "\<exists>t. code s t \<noteq> []"
    then obtain t where t: "code s t \<noteq> []" by blast
    show "\<exists>t a s'. thread_step s (t, a) s'"
    proof (cases "lock s")
      case None
      obtain a rest where c: "code s t = a # rest" using t by (cases "code s t") auto
      with nested [of t] None have "perform t a (lock s) \<noteq> None"
        by (cases a) (auto simp: depth_def perform_def acquire_def)
      with c move show ?thesis by blast
    next
      case (Some q)
      obtain u n where q: "q = (u, n)" by fastforce
      then have "0 < n" using inv Some by (simp add: lock_inv_def)
      with nested [of u] Some q obtain a rest where c: "code s u = a # rest"
        by (cases "code s u") (auto simp: depth_def)
      have "perform u a (lock s) \<noteq> None"
        using Some q by (cases a) (auto simp: perform_def acquire_def release_def)
      with c move show ?thesis by blast
    qed
  next
    assume "\<exists>t a s'. thread_step s (t, a) s'"
    then obtain t a s' where "thread_step s (t, a) s'" by blast
    then have "code s t \<noteq> []" by (auto elim: thread_stepE)
    then show "\<exists>t. code s t \<noteq> []" by blast
  qed
  moreover have "(\<forall>t. code s t = []) \<longrightarrow> lock s = None"
  proof
    assume "\<forall>t. code s t = []"
    then have "depth (lock s) t = 0" for t using nested [of t] by simp
    then show "lock s = None"
      using inv by (metis depth_owner lock_inv_def not_less0 option.exhaust surj_pair)
  qed
  ultimately show ?thesis by (rule conjI)
qed

section \<open>Witnesses\<close>

text \<open>Two threads that connect; the first is in the middle of it.\<close>

definition connecting :: threads where
  "connecting = \<lparr>lock = Some (0, 1), code = (\<lambda>t. thread_actions [Call Connect])(0 := [Finish Connect, Release])\<rparr>"

lemma connecting_reachable: "reachable (\<lambda>t. [Call Connect]) connecting"
proof -
  let ?all = "\<lambda>t :: nat. thread_actions [Call Connect]"
  let ?s0 = "\<lparr>lock = None, code = ?all\<rparr>"
    and ?s1 = "\<lparr>lock = Some (0, 1), code = ?all(0 := [Begin Connect, Finish Connect, Release])\<rparr>"
  have "thread_step ?s0 (0, Acquire) (?s0\<lparr>lock := Some (0, 1),
      code := (code ?s0)(0 := [Begin Connect, Finish Connect, Release])\<rparr>)"
    by (rule act) (simp_all add: thread_actions_def perform_def acquire_def)
  then have first: "reachable (\<lambda>t. [Call Connect]) ?s1"
    using reachable.start [of "\<lambda>t. [Call Connect]"] by (auto intro: reachable.move)
  have "thread_step ?s1 (0, Begin Connect) (?s1\<lparr>lock := Some (0, 1),
      code := (code ?s1)(0 := [Finish Connect, Release])\<rparr>)"
    by (rule act) (simp_all add: perform_def)
  from reachable.move [OF first this] show ?thesis by (simp add: connecting_def)
qed

text \<open>Thread 0 is in an exclusive block, between two operations of it.\<close>

definition pausing :: threads where
  "pausing = \<lparr>lock = Some (0, 1), code = (\<lambda>t. thread_actions [Exclusive [Call Connect]])
     (0 := thread_actions [Call Connect] @ [Leave, Release])\<rparr>"

lemma pausing_reachable: "reachable (\<lambda>t. [Exclusive [Call Connect]]) pausing"
proof -
  let ?us = "\<lambda>t :: nat. [Exclusive [Call Connect]]"
  let ?all = "\<lambda>t :: nat. thread_actions [Exclusive [Call Connect]]"
  let ?s0 = "\<lparr>lock = None, code = ?all\<rparr>"
    and ?s1 = "\<lparr>lock = Some (0, 1), code = ?all(0 := Enter # thread_actions [Call Connect] @ [Leave, Release])\<rparr>"
  have "thread_step ?s0 (0, Acquire) (?s0\<lparr>lock := Some (0, 1),
      code := (code ?s0)(0 := Enter # thread_actions [Call Connect] @ [Leave, Release])\<rparr>)"
    by (rule act) (simp_all add: thread_actions_def perform_def acquire_def)
  then have first: "reachable ?us ?s1" using reachable.start [of ?us] by (auto intro: reachable.move)
  have "thread_step ?s1 (0, Enter) (?s1\<lparr>lock := Some (0, 1),
      code := (code ?s1)(0 := thread_actions [Call Connect] @ [Leave, Release])\<rparr>)"
    by (rule act) (simp_all add: perform_def)
  from reachable.move [OF first this] show ?thesis by (simp add: pausing_def)
qed

theorem transport_exclusive_witness:
  "in_block pausing 0 \<and> \<not> inside pausing 0 \<and> \<not> (\<exists>s'. thread_step pausing (1, Acquire) s')"
proof -
  have block: "in_block pausing 0" "\<not> inside pausing 0"
    by (simp_all add: in_block_def inside_def pausing_def thread_actions_def)
  then show ?thesis using transport_exclusive [OF pausing_reachable, of 0 1 Acquire] by auto
qed

theorem transport_no_deadlock_witness: "\<exists>t a s'. thread_step connecting (t, a) s'"
proof -
  have "code connecting 0 \<noteq> []" by (simp add: connecting_def)
  then show ?thesis using transport_no_deadlock [OF connecting_reachable] by blast
qed

end
