(* ===== verification/Runner_Settings.thy ===== *)
theory Runner_Settings
  imports Paths
begin

text \<open>
  The settings of the test-runner service,
  \<^verbatim>\<open>src/helpers/test-runner-service/src/test_runner_service/settings.py\<close>. Reading the
  environment, coercing plain fields and parsing URLs are pydantic's; the before- and
  after-validators, the field constraints and their order are the code's. Secrets are plain
  strings.
\<close>

datatype auth_mode = DISABLED | LOCAL | KEYCLOAK | KEYCLOAK_UI_LOCAL_API

text \<open>What the code reads of an \<^verbatim>\<open>AnyHttpUrl\<close>; \<open>u_str\<close> is its text.\<close>

record url =
  u_str :: pystr
  u_scheme :: pystr
  u_username :: "pystr option"
  u_password :: "pystr option"
  u_host :: "pystr option"
  u_port :: "int option"
  u_path :: "pystr option"
  u_query :: "pystr option"
  u_fragment :: "pystr option"

record runner_settings =
  rs_state_directory :: ppath
  rs_framework_source :: ppath
  rs_framework_dockerfile :: ppath
  rs_inventory_file :: ppath
  rs_artifacts_directory :: ppath
  rs_pytest_log_path :: "ppath option"
  rs_junit_path :: "ppath option"
  rs_html_path :: "ppath option"
  rs_allure_results_path :: "ppath option"
  rs_env_file :: "ppath option"
  rs_known_hosts_file :: "ppath option"
  rs_docker_network :: "pystr option"
  rs_docker_devices :: "pystr list"
  rs_allowed_image_prefixes :: "pystr list"
  rs_operation_timeout_seconds :: int
  rs_log_poll_interval_seconds :: rat
  rs_auth_mode :: auth_mode
  rs_auth_username :: "pystr option"
  rs_auth_password :: "pystr option"
  rs_auth_session_secret :: "pystr option"
  rs_auth_api_token :: "pystr option"
  rs_auth_session_ttl_seconds :: int
  rs_auth_cookie_secure :: bool
  rs_public_url :: "url option"
  rs_oidc_issuer :: "url option"
  rs_oidc_client_id :: "pystr option"
  rs_oidc_client_secret :: "pystr option"
  rs_oidc_audience :: "pystr option"
  rs_oidc_viewer_role :: pystr
  rs_oidc_operator_role :: pystr
  rs_oidc_jwks_cache_seconds :: int
  rs_oidc_clock_skew_seconds :: int
  rs_allure_enabled :: bool
  rs_allure_publisher_image :: pystr
  rs_allure_access_token :: "pystr option"
  rs_allure_public_url :: "url option"
  rs_allure_repository :: pystr
  rs_reportportal_enabled :: bool
  rs_reportportal_endpoint :: "url option"
  rs_reportportal_public_url :: "url option"
  rs_reportportal_project :: pystr
  rs_reportportal_api_key :: "pystr option"

definition default_runner_settings :: runner_settings where
  "default_runner_settings = \<lparr>
     rs_state_directory = parse_path (lit ''/runtime/state''),
     rs_framework_source = parse_path (lit ''/opt/hardware-runner/framework''),
     rs_framework_dockerfile = parse_path (lit ''/opt/hardware-runner/framework/Dockerfile''),
     rs_inventory_file = parse_path (lit ''/opt/hardware-runner/inventory/stands.yaml''),
     rs_artifacts_directory = parse_path (lit ''/opt/hardware-runner/artifacts''),
     rs_pytest_log_path = Some (parse_path (lit ''pytest.log'')),
     rs_junit_path = Some (parse_path (lit ''reports/junit.xml'')),
     rs_html_path = Some (parse_path (lit ''reports/report.html'')),
     rs_allure_results_path = Some (parse_path (lit ''allure-results'')),
     rs_env_file = None, rs_known_hosts_file = None, rs_docker_network = None,
     rs_docker_devices = [], rs_allowed_image_prefixes = [lit ''sha256:''],
     rs_operation_timeout_seconds = 3600, rs_log_poll_interval_seconds = 1 / 4,
     rs_auth_mode = DISABLED, rs_auth_username = None, rs_auth_password = None,
     rs_auth_session_secret = None, rs_auth_api_token = None,
     rs_auth_session_ttl_seconds = 604800, rs_auth_cookie_secure = False,
     rs_public_url = None, rs_oidc_issuer = None, rs_oidc_client_id = None,
     rs_oidc_client_secret = None, rs_oidc_audience = None,
     rs_oidc_viewer_role = lit ''hardware-test-runner.viewer'',
     rs_oidc_operator_role = lit ''hardware-test-runner.operator'',
     rs_oidc_jwks_cache_seconds = 3600, rs_oidc_clock_skew_seconds = 30,
     rs_allure_enabled = False, rs_allure_publisher_image = lit ''local/allure-publisher:3.17.0'',
     rs_allure_access_token = None, rs_allure_public_url = None,
     rs_allure_repository = lit ''pytest-hardware-template'',
     rs_reportportal_enabled = False, rs_reportportal_endpoint = None,
     rs_reportportal_public_url = None, rs_reportportal_project = [],
     rs_reportportal_api_key = None\<rparr>"

section \<open>Fields\<close>

text \<open>The values the before-validators see as text; \<^const>\<open>None\<close> is a field that is not set.\<close>

record raw_settings =
  rw_pytest_log :: "pystr option"
  rw_junit :: "pystr option"
  rw_html :: "pystr option"
  rw_allure_results :: "pystr option"
  rw_docker_devices :: "pystr option"
  rw_image_prefixes :: "pystr option"
  rw_public_url :: "pystr option"
  rw_oidc_issuer :: "pystr option"
  rw_allure_public_url :: "pystr option"
  rw_rp_endpoint :: "pystr option"
  rw_rp_public_url :: "pystr option"

definition report_path :: "ppath option \<Rightarrow> pystr option \<Rightarrow> ppath option" where
  \<comment> \<open>\<^verbatim>\<open>empty_report_path_is_disabled\<close>, of the field's default\<close>
  "report_path preset raw =
     (case raw of None \<Rightarrow> preset | Some s \<Rightarrow> if s = [] then None else Some (parse_path s))"

definition validate_report_path :: "ppath option \<Rightarrow> exn list" where
  "validate_report_path value =
     (case value of
        None \<Rightarrow> []
      | Some p \<Rightarrow>
          if is_absolute p \<or> dotdot \<in> set (p_parts p) \<or> p = PPath [] []
          then [raise_txt PyValueError
            ''report paths must be relative descendants of the session directory'']
          else [])"

definition parse_comma_separated_tuple :: "pystr list \<Rightarrow> pystr option \<Rightarrow> pystr list" where
  "parse_comma_separated_tuple preset raw =
     (case raw of None \<Rightarrow> preset
      | Some s \<Rightarrow> filter (\<lambda>item. item \<noteq> []) (map strip (split_on 44 s)))"

definition optional_url :: "(pystr \<Rightarrow> exn + url) \<Rightarrow> pystr option \<Rightarrow> exn + url option" where
  \<comment> \<open>the \<^verbatim>\<open>empty_..._is_unset\<close> validators before pydantic's own parsing\<close>
  "optional_url parse raw =
     (case raw of None \<Rightarrow> Inr None
      | Some s \<Rightarrow> if s = [] then Inr None else try_bind (parse s) (\<lambda>u. Inr (Some u)))"

definition given :: "pystr option \<Rightarrow> bool" where
  \<comment> \<open>the truth value of an optional string\<close>
  "given v \<longleftrightarrow> (case v of None \<Rightarrow> False | Some s \<Rightarrow> s \<noteq> [])"

definition plain_url :: "url \<Rightarrow> bool" where
  "plain_url u \<longleftrightarrow> \<not> (given (u_username u) \<or> given (u_password u) \<or> given (u_query u) \<or> given (u_fragment u))"

definition url_errors :: "(url \<Rightarrow> bool) \<Rightarrow> string \<Rightarrow> exn + url option \<Rightarrow> exn list" where
  "url_errors ok m v =
     (case v of Inl e \<Rightarrow> [e] | Inr None \<Rightarrow> []
      | Inr (Some u) \<Rightarrow> if ok u then [] else [raise_txt PyValueError m])"

definition validate_public_url :: "exn + url option \<Rightarrow> exn list" where
  "validate_public_url v =
     url_errors plain_url ''public URL must not contain credentials, query, or fragment'' v"

definition validate_oidc_issuer :: "exn + url option \<Rightarrow> exn list" where
  "validate_oidc_issuer v =
     url_errors (\<lambda>u. u_scheme u = lit ''https'' \<and> plain_url u)
       ''OIDC issuer must be HTTPS without credentials, query, or fragment'' v"

definition validate_reportportal_url :: "exn + url option \<Rightarrow> exn list" where
  "validate_reportportal_url v =
     url_errors plain_url ''ReportPortal URLs must not contain credentials, query, or fragment'' v"

definition repository_ok :: "pystr \<Rightarrow> bool" where
  \<comment> \<open>\<^verbatim>\<open>^[A-Za-z0-9][A-Za-z0-9._-]*$\<close>\<close>
  "repository_ok s =
     (case s of [] \<Rightarrow> False
      | c # cs \<Rightarrow> is_alnum_cp c \<and> list_all (\<lambda>x. is_alnum_cp x \<or> char_class ''._-'' x) cs)"

definition project_ok :: "pystr \<Rightarrow> bool" where
  \<comment> \<open>\<^verbatim>\<open>^[a-z0-9_-]*$\<close>\<close>
  "project_ok s = list_all (\<lambda>x. is_digit_cp x \<or> is_lower_cp x \<or> char_class ''_-'' x) s"

section \<open>After-validators\<close>

definition has_secret_value :: "pystr option \<Rightarrow> bool" where
  "has_secret_value v = given v"

definition missing_of :: "(string \<times> bool) list \<Rightarrow> pystr list" where
  "missing_of required = map (\<lambda>(name, present). lit name) (filter (\<lambda>(name, present). \<not> present) required)"

definition requires :: "string \<Rightarrow> pystr list \<Rightarrow> exn" where
  "requires m names = Exn PyValueError [Txt (lit m), Txt (join (lit '', '') names)]"

definition validate_authentication_settings :: "runner_settings \<Rightarrow> exn + unit" where
  "validate_authentication_settings s =
     (case rs_auth_mode s of
        DISABLED \<Rightarrow> Inr ()
      | LOCAL \<Rightarrow>
          let missing = missing_of
            [(''TEST_RUNNER_AUTH_USERNAME'', has_secret_value (rs_auth_username s)),
             (''TEST_RUNNER_AUTH_PASSWORD'', has_secret_value (rs_auth_password s)),
             (''TEST_RUNNER_AUTH_SESSION_SECRET'', has_secret_value (rs_auth_session_secret s))]
          in if missing \<noteq> [] then Inl (requires ''local authentication requires: '' missing) else Inr ()
      | mode \<Rightarrow>
          let missing = missing_of
            [(''TEST_RUNNER_PUBLIC_URL'', rs_public_url s \<noteq> None),
             (''TEST_RUNNER_OIDC_ISSUER'', rs_oidc_issuer s \<noteq> None),
             (''TEST_RUNNER_OIDC_CLIENT_ID'', has_secret_value (rs_oidc_client_id s)),
             (''TEST_RUNNER_OIDC_CLIENT_SECRET'', has_secret_value (rs_oidc_client_secret s)),
             (''TEST_RUNNER_OIDC_AUDIENCE'', has_secret_value (rs_oidc_audience s)),
             (''TEST_RUNNER_AUTH_SESSION_SECRET'', has_secret_value (rs_auth_session_secret s))]
          in if missing \<noteq> [] then Inl (requires ''Keycloak authentication requires: '' missing)
             else if mode = KEYCLOAK \<and> has_secret_value (rs_auth_api_token s)
             then Inl (raise_txt PyValueError
               ''TEST_RUNNER_AUTH_API_TOKEN is only supported by local or hybrid authentication'')
             else if mode = KEYCLOAK_UI_LOCAL_API \<and> \<not> has_secret_value (rs_auth_api_token s)
             then Inl (raise_txt PyValueError ''hybrid authentication requires: TEST_RUNNER_AUTH_API_TOKEN'')
             else Inr ())"

definition validate_allure_settings :: "runner_settings \<Rightarrow> exn + unit" where
  "validate_allure_settings s =
     (let missing = missing_of
        [(''TEST_RUNNER_ALLURE_ACCESS_TOKEN'', has_secret_value (rs_allure_access_token s)),
         (''TEST_RUNNER_ALLURE_RESULTS_PATH'', rs_allure_results_path s \<noteq> None)]
      in if rs_allure_enabled s \<and> missing \<noteq> []
         then Inl (requires ''Allure publishing requires: '' missing) else Inr ())"

definition validate_reportportal_settings :: "runner_settings \<Rightarrow> exn + unit" where
  "validate_reportportal_settings s =
     (let missing = missing_of
        [(''TEST_RUNNER_REPORTPORTAL_ENDPOINT'', rs_reportportal_endpoint s \<noteq> None),
         (''TEST_RUNNER_REPORTPORTAL_PUBLIC_URL'', rs_reportportal_public_url s \<noteq> None),
         (''TEST_RUNNER_REPORTPORTAL_PROJECT'', rs_reportportal_project s \<noteq> []),
         (''TEST_RUNNER_REPORTPORTAL_API_KEY'', given (rs_reportportal_api_key s))]
      in if rs_reportportal_enabled s \<and> missing \<noteq> []
         then Inl (requires ''ReportPortal requires: '' missing) else Inr ())"

section \<open>The model\<close>

text \<open>\<open>s\<close> holds the plain fields, already coerced.\<close>

definition settings_of ::
  "(pystr \<Rightarrow> exn + url) \<Rightarrow> raw_settings \<Rightarrow> runner_settings \<Rightarrow> runner_settings" where
  "settings_of parse raw s =
     (let url = (\<lambda>r. case optional_url parse r of Inr u \<Rightarrow> u | Inl e \<Rightarrow> None) in
      s\<lparr>rs_pytest_log_path := report_path (Some (parse_path (lit ''pytest.log''))) (rw_pytest_log raw),
        rs_junit_path := report_path (Some (parse_path (lit ''reports/junit.xml''))) (rw_junit raw),
        rs_html_path := report_path (Some (parse_path (lit ''reports/report.html''))) (rw_html raw),
        rs_allure_results_path := report_path (Some (parse_path (lit ''allure-results''))) (rw_allure_results raw),
        rs_docker_devices := parse_comma_separated_tuple [] (rw_docker_devices raw),
        rs_allowed_image_prefixes := parse_comma_separated_tuple [lit ''sha256:''] (rw_image_prefixes raw),
        rs_public_url := url (rw_public_url raw), rs_oidc_issuer := url (rw_oidc_issuer raw),
        rs_allure_public_url := url (rw_allure_public_url raw),
        rs_reportportal_endpoint := url (rw_rp_endpoint raw),
        rs_reportportal_public_url := url (rw_rp_public_url raw)\<rparr>)"

definition runner_field_errors ::
  "(pystr \<Rightarrow> exn + url) \<Rightarrow> raw_settings \<Rightarrow> runner_settings \<Rightarrow> exn list" where
  "runner_field_errors parse raw s =
     validate_report_path (rs_pytest_log_path s) @ validate_report_path (rs_junit_path s) @
     validate_report_path (rs_html_path s) @ validate_report_path (rs_allure_results_path s) @
     constraint (0 < rs_operation_timeout_seconds s) ''operation_timeout_seconds'' @
     constraint (0 < rs_log_poll_interval_seconds s) ''log_poll_interval_seconds'' @
     constraint (0 < rs_auth_session_ttl_seconds s) ''auth_session_ttl_seconds'' @
     validate_public_url (optional_url parse (rw_public_url raw)) @
     validate_oidc_issuer (optional_url parse (rw_oidc_issuer raw)) @
     constraint (0 < rs_oidc_jwks_cache_seconds s) ''oidc_jwks_cache_seconds'' @
     constraint (0 \<le> rs_oidc_clock_skew_seconds s) ''oidc_clock_skew_seconds'' @
     url_errors (\<lambda>_. True) ''allure_public_url'' (optional_url parse (rw_allure_public_url raw)) @
     constraint (repository_ok (rs_allure_repository s)) ''allure_repository'' @
     validate_reportportal_url (optional_url parse (rw_rp_endpoint raw)) @
     validate_reportportal_url (optional_url parse (rw_rp_public_url raw)) @
     constraint (project_ok (rs_reportportal_project s)) ''reportportal_project''"

definition runner_settings_model ::
  "(pystr \<Rightarrow> exn + url) \<Rightarrow> raw_settings \<Rightarrow> runner_settings \<Rightarrow> exn + runner_settings" where
  "runner_settings_model parse raw plain =
     (let s = settings_of parse raw plain in
      try_bind (checked (runner_field_errors parse raw s) s) (\<lambda>s.
      case try_bind (validate_authentication_settings s) (\<lambda>_.
           try_bind (validate_allure_settings s) (\<lambda>_. validate_reportportal_settings s)) of
        Inl e \<Rightarrow> Inl (Exn ValidationError [Cause e])
      | Inr _ \<Rightarrow> Inr s))"

section \<open>What validated settings guarantee\<close>

definition report_paths :: "runner_settings \<Rightarrow> ppath set" where
  "report_paths s = {p. Some p \<in> {rs_pytest_log_path s, rs_junit_path s, rs_html_path s, rs_allure_results_path s}}"

definition inside_run :: "ppath \<Rightarrow> bool" where
  \<comment> \<open>a relative path to something strictly below, without a step back\<close>
  "inside_run p \<longleftrightarrow> p_root p = [] \<and> p_parts p \<noteq> [] \<and> dotdot \<notin> set (p_parts p)"

lemma validate_report_path_ok:
  "validate_report_path v = [] \<longleftrightarrow> (\<forall>p. v = Some p \<longrightarrow> inside_run p)"
  by (cases v) (auto simp: validate_report_path_def inside_run_def is_absolute_def split: if_splits ppath.splits
      intro: ppath.expand)

lemma missing_of_Nil: "missing_of l = [] \<longleftrightarrow> (\<forall>(n, b) \<in> set l. b)"
  by (auto simp: missing_of_def filter_empty_conv)

lemma authentication_settings_ok:
  "validate_authentication_settings s = Inr () \<longleftrightarrow>
     (case rs_auth_mode s of
        DISABLED \<Rightarrow> True
      | LOCAL \<Rightarrow> given (rs_auth_username s) \<and> given (rs_auth_password s) \<and> given (rs_auth_session_secret s)
      | mode \<Rightarrow> rs_public_url s \<noteq> None \<and> rs_oidc_issuer s \<noteq> None \<and> given (rs_oidc_client_id s) \<and>
          given (rs_oidc_client_secret s) \<and> given (rs_oidc_audience s) \<and> given (rs_auth_session_secret s) \<and>
          (given (rs_auth_api_token s) \<longleftrightarrow> mode = KEYCLOAK_UI_LOCAL_API))"
  by (cases "rs_auth_mode s")
    (auto simp: validate_authentication_settings_def has_secret_value_def missing_of_Nil Let_def)

lemma model_steps:
  assumes "runner_settings_model parse raw plain = Inr s"
  shows "runner_field_errors parse raw s = [] \<and> validate_authentication_settings s = Inr () \<and>
    validate_allure_settings s = Inr () \<and> validate_reportportal_settings s = Inr ()"
  using assms
  by (auto simp: runner_settings_model_def Let_def result_simps split: sum.splits)

text \<open>
  What the service runs on is usable: in validated settings every report path names
  something strictly below a run's directory, a mode with logins has all its secrets and
  client data, publishing to Allure or ReportPortal has its tokens and addresses, and the
  ReportPortal project and the Allure repository are plain names.
\<close>

lemma validated_settings_usable:
  assumes "runner_settings_model parse raw plain = Inr s"
  shows "(\<forall>p \<in> report_paths s. inside_run p)
    \<and> (rs_auth_mode s = DISABLED \<or> given (rs_auth_session_secret s))
    \<and> (rs_auth_mode s = LOCAL \<longrightarrow> given (rs_auth_username s) \<and> given (rs_auth_password s))
    \<and> (rs_auth_mode s \<in> {KEYCLOAK, KEYCLOAK_UI_LOCAL_API} \<longrightarrow>
         rs_public_url s \<noteq> None \<and> rs_oidc_issuer s \<noteq> None \<and> given (rs_oidc_client_id s) \<and>
         given (rs_oidc_client_secret s) \<and> given (rs_oidc_audience s) \<and>
         (given (rs_auth_api_token s) \<longleftrightarrow> rs_auth_mode s = KEYCLOAK_UI_LOCAL_API))
    \<and> (rs_allure_enabled s \<longrightarrow> given (rs_allure_access_token s) \<and> rs_allure_results_path s \<noteq> None)
    \<and> (rs_reportportal_enabled s \<longrightarrow> rs_reportportal_endpoint s \<noteq> None \<and>
         rs_reportportal_public_url s \<noteq> None \<and> rs_reportportal_project s \<noteq> [] \<and>
         given (rs_reportportal_api_key s))
    \<and> repository_ok (rs_allure_repository s) \<and> project_ok (rs_reportportal_project s)"
proof (intro conjI)
  note steps = model_steps [OF assms]
  then have paths: "validate_report_path v = []"
    if "v \<in> {rs_pytest_log_path s, rs_junit_path s, rs_html_path s, rs_allure_results_path s}" for v
    using that by (auto simp: runner_field_errors_def)
  show "\<forall>p \<in> report_paths s. inside_run p"
    using paths by (auto simp: report_paths_def validate_report_path_ok)
  note auth = authentication_settings_ok [of s]
  show "rs_auth_mode s = DISABLED \<or> given (rs_auth_session_secret s)"
    "rs_auth_mode s = LOCAL \<longrightarrow> given (rs_auth_username s) \<and> given (rs_auth_password s)"
    "rs_auth_mode s \<in> {KEYCLOAK, KEYCLOAK_UI_LOCAL_API} \<longrightarrow>
         rs_public_url s \<noteq> None \<and> rs_oidc_issuer s \<noteq> None \<and> given (rs_oidc_client_id s) \<and>
         given (rs_oidc_client_secret s) \<and> given (rs_oidc_audience s) \<and>
         (given (rs_auth_api_token s) \<longleftrightarrow> rs_auth_mode s = KEYCLOAK_UI_LOCAL_API)"
    using steps auth by (cases "rs_auth_mode s"; simp)+
  show "rs_allure_enabled s \<longrightarrow> given (rs_allure_access_token s) \<and> rs_allure_results_path s \<noteq> None"
    using steps by (auto simp: validate_allure_settings_def has_secret_value_def missing_of_Nil Let_def split: if_splits)
  show "rs_reportportal_enabled s \<longrightarrow> rs_reportportal_endpoint s \<noteq> None \<and>
         rs_reportportal_public_url s \<noteq> None \<and> rs_reportportal_project s \<noteq> [] \<and>
         given (rs_reportportal_api_key s)"
    using steps by (auto simp: validate_reportportal_settings_def missing_of_Nil Let_def split: if_splits)
  show "repository_ok (rs_allure_repository s)" "project_ok (rs_reportportal_project s)"
    using steps by (auto simp: runner_field_errors_def)
qed

definition local_settings :: runner_settings where
  "local_settings = default_runner_settings\<lparr>rs_auth_mode := LOCAL, rs_auth_username := Some (lit ''op''),
     rs_auth_password := Some (lit ''pw''), rs_auth_session_secret := Some (lit ''key'')\<rparr>"

definition no_raw_settings :: raw_settings where
  "no_raw_settings = \<lparr>rw_pytest_log = None, rw_junit = None, rw_html = None, rw_allure_results = None,
     rw_docker_devices = None, rw_image_prefixes = None, rw_public_url = None, rw_oidc_issuer = None,
     rw_allure_public_url = None, rw_rp_endpoint = None, rw_rp_public_url = None\<rparr>"

lemma default_paths_ok:
  "inside_run (parse_path (lit ''pytest.log''))" "inside_run (parse_path (lit ''reports/junit.xml''))"
  "inside_run (parse_path (lit ''reports/report.html''))" "inside_run (parse_path (lit ''allure-results''))"
  by code_simp+

lemma validated_settings_usable_witness:
  "\<exists>s. runner_settings_model (\<lambda>_. Inl (raise_txt PyValueError ''url'')) no_raw_settings local_settings = Inr s \<and>
     given (rs_auth_session_secret s)"
proof -
  have repo: "repository_ok (lit ''pytest-hardware-template'')" by code_simp
  obtain s where s: "runner_settings_model (\<lambda>_. Inl (raise_txt PyValueError ''url'')) no_raw_settings local_settings
      = Inr s" "rs_auth_mode s = LOCAL"
    using default_paths_ok repo
    by (simp add: runner_settings_model_def settings_of_def no_raw_settings_def local_settings_def
        default_runner_settings_def runner_field_errors_def report_path_def optional_url_def
        validate_report_path_ok validate_public_url_def validate_oidc_issuer_def validate_reportportal_url_def
        url_errors_def project_ok_def validate_authentication_settings_def validate_allure_settings_def
        validate_reportportal_settings_def has_secret_value_def given_def missing_of_def checked_def Let_def)
  then show ?thesis using validated_settings_usable [OF s(1)] by (metis auth_mode.distinct(1))
qed

end
