(* ===== verification/Docker_Commands.thy ===== *)
theory Docker_Commands
  imports Runner_Settings
begin

text \<open>
  The argument vectors of the test-runner service,
  \<^verbatim>\<open>docker_commands.py\<close> of \<^verbatim>\<open>src/helpers/test-runner-service/src/test_runner_service\<close>, and the
  name checks of the requests they are built from (\<^verbatim>\<open>models.py\<close>). The vectors are run
  without a shell.
\<close>

section \<open>Request fields\<close>

definition first_then :: "(nat \<Rightarrow> bool) \<Rightarrow> (nat \<Rightarrow> bool) \<Rightarrow> pystr \<Rightarrow> bool" where
  "first_then p q s = (case s of [] \<Rightarrow> False | c # cs \<Rightarrow> p c \<and> list_all q cs)"

definition stand_name_ok :: "pystr \<Rightarrow> bool" where
  \<comment> \<open>\<^verbatim>\<open>NAME_PATTERN\<close>, \<^verbatim>\<open>max_length=128\<close>\<close>
  "stand_name_ok s \<longleftrightarrow> first_then is_alnum_cp (\<lambda>c. is_alnum_cp c \<or> char_class ''_.-'' c) s \<and> length s \<le> 128"

definition scenario_field_ok :: "pystr \<Rightarrow> bool" where
  \<comment> \<open>\<^verbatim>\<open>SCENARIO_PATTERN\<close>, \<^verbatim>\<open>max_length=128\<close>\<close>
  "scenario_field_ok s \<longleftrightarrow> first_then is_alnum_cp (\<lambda>c. is_alnum_cp c \<or> char_class ''_-'' c) s \<and> length s \<le> 128"

definition reference_field_ok :: "pystr \<Rightarrow> bool" where
  "reference_field_ok s \<longleftrightarrow> 1 \<le> length s \<and> length s \<le> 512"

definition image_pattern :: "pystr \<Rightarrow> bool" where
  \<comment> \<open>\<^verbatim>\<open>IMAGE_REFERENCE_PATTERN.fullmatch\<close>\<close>
  "image_pattern s = first_then is_alnum_cp (\<lambda>c. is_alnum_cp c \<or> char_class ''._/:@+-'' c) s"

definition validate_remote_image :: "runner_settings \<Rightarrow> pystr \<Rightarrow> exn + unit" where
  "validate_remote_image s reference =
     (if \<not> image_pattern reference
      then Inl (raise_txt InvalidImageReferenceError ''invalid image reference'')
      else if \<not> list_ex (\<lambda>p. prefix p reference) (rs_allowed_image_prefixes s)
      then Inl (raise_txt InvalidImageReferenceError ''image reference is not allowed'')
      else Inr ())"

section \<open>Images\<close>

definition local_build_reference :: "pystr \<Rightarrow> pystr" where
  "local_build_reference operation_id = lit ''local/hardware-tests:'' @ operation_id"

definition build_image :: "runner_settings \<Rightarrow> pystr \<Rightarrow> pystr list" where
  "build_image s operation_id =
     (let tag = lit ''local/hardware-tests:'' @ operation_id in
      [lit ''docker'', lit ''build'', lit ''--file'', path_str (rs_framework_dockerfile s),
       lit ''--tag'', tag] @
      (if rs_allure_enabled s then [lit ''--build-arg'', lit ''INSTALL_ALLURE=true''] else []) @
      (if rs_reportportal_enabled s then [lit ''--build-arg'', lit ''INSTALL_REPORTPORTAL=true''] else []) @
      [path_str (rs_framework_source s)])"

definition pull_image :: "runner_settings \<Rightarrow> pystr \<Rightarrow> exn + pystr list" where
  "pull_image s reference =
     try_bind (validate_remote_image s reference) (\<lambda>_. Inr [lit ''docker'', lit ''pull'', reference])"

definition inspect_image :: "pystr \<Rightarrow> pystr list" where
  "inspect_image reference =
     [lit ''docker'', lit ''image'', lit ''inspect'', lit ''--format'', lit ''{{.Id}}'', reference]"

section \<open>Test runs\<close>

definition run_container_name :: "pystr \<Rightarrow> pystr" where
  "run_container_name operation_id = lit ''hardware-test-run-'' @ operation_id"

definition docker_run_options :: "runner_settings \<Rightarrow> pystr \<Rightarrow> pystr list" where
  \<comment> \<open>\<^verbatim>\<open>docker run\<close> with its options, up to the image\<close>
  "docker_run_options s operation_id =
     [lit ''docker'', lit ''run'', lit ''--rm'', lit ''--name'', run_container_name operation_id,
      lit ''--label'', lit ''test-runner.operation-id='' @ operation_id,
      lit ''--pull'', lit ''never'', lit ''--env'', lit ''AGENT_NO_ANALYTICS=1'',
      lit ''--volume'', path_str (path_parent (rs_inventory_file s)) @ lit '':/runtime/inventory:ro'',
      lit ''--volume'', path_str (rs_artifacts_directory s) @ lit '':/app/artifacts''] @
     (case rs_env_file s of None \<Rightarrow> [] | Some f \<Rightarrow> [lit ''--env-file'', path_str f]) @
     (case rs_known_hosts_file s of None \<Rightarrow> []
      | Some f \<Rightarrow> [lit ''--volume'', path_str f @ lit '':/root/.ssh/known_hosts:ro'']) @
     (case rs_docker_network s of None \<Rightarrow> [] | Some n \<Rightarrow> [lit ''--network'', n]) @
     concat (map (\<lambda>d. [lit ''--device'', d]) (rs_docker_devices s)) @
     (if rs_reportportal_enabled s then [lit ''--env'', lit ''RP_API_KEY''] else [])"

definition pytest_arguments :: "runner_settings \<Rightarrow> pystr \<Rightarrow> pystr \<Rightarrow> pystr \<Rightarrow> pystr list" where
  "pytest_arguments s run_id stand scenario =
     [lit ''uv'', lit ''run'', lit ''pytest'', lit ''tests/hardware'', lit ''--run-id'', run_id,
      lit ''--artifacts-root'', lit ''/app/artifacts'', lit ''--scenario'', scenario,
      lit ''--inventory'', lit ''/runtime/inventory/'' @ path_name (rs_inventory_file s),
      lit ''--stand'', stand]"

definition url_text :: "url option \<Rightarrow> pystr" where
  "url_text u = (case u of None \<Rightarrow> lit ''None'' | Some v \<Rightarrow> u_str v)"

definition reportportal_arguments ::
  "runner_settings \<Rightarrow> pystr \<Rightarrow> pystr \<Rightarrow> pystr \<Rightarrow> pystr \<Rightarrow> pystr list" where
  "reportportal_arguments s operation_id img stand scenario =
     [lit ''--reportportal'', lit ''--rp-endpoint'', url_text (rs_reportportal_endpoint s),
      lit ''--rp-project'', rs_reportportal_project s, lit ''--rp-launch'', operation_id,
      lit ''--rp-launch-description'',
      lit ''stand='' @ stand @ lit ''; scenario='' @ scenario @ lit ''; image='' @ img,
      lit ''--mute-logger'', lit ''pytest_reportportal.service'',
      lit ''-o'', lit ''rp_log_level=INFO'', lit ''-o'', lit ''rp_client_type=SYNC'',
      lit ''-o'', lit ''rp_connect_timeout=5'', lit ''-o'', lit ''rp_read_timeout=10'',
      lit ''-o'', lit ''rp_api_retries=0'', lit ''-o'',
      lit ''rp_launch_attributes=stand:'' @ stand @ lit '' scenario:'' @ scenario @
        lit '' operation:'' @ operation_id]"

definition run_tests_command ::
  "runner_settings \<Rightarrow> pystr \<Rightarrow> pystr \<Rightarrow> pystr \<Rightarrow> pystr \<Rightarrow> pystr \<Rightarrow> exn + pystr list" where
  "run_tests_command s operation_id run_id img stand scenario =
     try_bind (validate_remote_image s img) (\<lambda>_.
     let arguments = docker_run_options s operation_id @ [img] @ pytest_arguments s run_id stand scenario in
     try_bind
       (if rs_allure_enabled s then
          case rs_allure_results_path s of
            None \<Rightarrow> Inl (raise_txt PyRuntimeError ''Allure results path is unavailable'')
          | Some p \<Rightarrow> Inr [lit ''--alluredir'',
              path_str (path_join (path_join (parse_path (lit ''/app/artifacts'')) (parse_path run_id)) p)]
        else Inr [])
       (\<lambda>allure.
       Inr (arguments @ allure @
         (if rs_reportportal_enabled s then reportportal_arguments s operation_id img stand scenario else []))))"

section \<open>Publishing\<close>

definition publisher_container_name :: "pystr \<Rightarrow> pystr" where
  "publisher_container_name operation_id = lit ''allure-publish-'' @ operation_id"

definition publish_allure_command :: "runner_settings \<Rightarrow> pystr \<Rightarrow> ppath \<Rightarrow> exn + pystr list" where
  "publish_allure_command s operation_id run_directory =
     (case rs_allure_results_path s of
        None \<Rightarrow> Inl (raise_txt PyRuntimeError ''Allure results path is unavailable'')
      | Some results_path \<Rightarrow>
          let repository_directory = lit ''/workspace/'' @ rs_allure_repository s in
          Inr [lit ''docker'', lit ''run'', lit ''--rm'', lit ''--name'', publisher_container_name operation_id,
            lit ''--env'', lit ''ALLURE_ACCESS_TOKEN'', lit ''--env'', lit ''GIT_CONFIG_COUNT=1'',
            lit ''--env'', lit ''GIT_CONFIG_KEY_0=safe.directory'',
            lit ''--env'', lit ''GIT_CONFIG_VALUE_0='' @ repository_directory,
            lit ''--volume'', path_str (rs_framework_source s) @ lit '':'' @ repository_directory @ lit '':ro'',
            lit ''--volume'', path_str (path_join run_directory results_path) @ lit '':/results:ro'',
            lit ''--workdir'', repository_directory, rs_allure_publisher_image s,
            lit ''generate'', lit ''/results'', lit ''--config'', lit ''/opt/allure/allurerc.mjs''])"

definition stop_container :: "pystr \<Rightarrow> pystr list" where
  "stop_container operation_id = [lit ''docker'', lit ''stop'', run_container_name operation_id]"

definition validate_required_paths :: "(ppath \<Rightarrow> bool) \<Rightarrow> runner_settings \<Rightarrow> exn + unit" where
  \<comment> \<open>of which paths exist\<close>
  "validate_required_paths exists s =
     (let required = [(''framework source'', rs_framework_source s),
        (''framework Dockerfile'', rs_framework_dockerfile s), (''inventory file'', rs_inventory_file s),
        (''artifacts directory'', rs_artifacts_directory s)];
          missing = map (\<lambda>(name, path). lit name @ lit '': '' @ path_str path)
            (filter (\<lambda>(name, path). \<not> exists path) required)
      in if missing \<noteq> []
         then Inl (Exn PyRuntimeError [Txt (lit ''required runtime paths do not exist: ''),
           Txt (join (lit '', '') missing)])
         else Inr ())"

section \<open>How docker reads a vector\<close>

text \<open>
  The command line of \<^verbatim>\<open>docker run\<close>: options, then the image, then the command of the
  container. Of the options used here only \<^verbatim>\<open>--rm\<close> takes no value; the first word that does not
  begin with a dash is the image.
\<close>

definition dashed :: "pystr \<Rightarrow> bool" where
  "dashed w \<longleftrightarrow> prefix [45] w"

fun docker_reads :: "pystr list \<Rightarrow> (pystr \<times> pystr) list \<times> (pystr \<times> pystr list) option" where
  "docker_reads [] = ([], None)"
| "docker_reads [w] =
     (if w = lit ''--rm'' then ([(w, [])], None) else if dashed w then ([], None) else ([], Some (w, [])))"
| "docker_reads (w # v # ws) =
     (if w = lit ''--rm'' then (let (os, r) = docker_reads (v # ws) in ((w, []) # os, r))
      else if dashed w then (let (os, r) = docker_reads ws in ((w, v) # os, r))
      else ([], Some (w, v # ws)))"

lemma docker_reads_option:
  "dashed w \<Longrightarrow> w \<noteq> lit ''--rm'' \<Longrightarrow>
     docker_reads (w # v # ws) = (let (os, r) = docker_reads ws in ((w, v) # os, r))"
  by simp

fun option_words :: "(pystr \<times> pystr) list \<Rightarrow> pystr list" where
  "option_words [] = []"
| "option_words ((w, v) # os) = w # v # option_words os"

lemma option_words_append: "option_words (a @ b) = option_words a @ option_words b"
  by (induction a rule: option_words.induct) auto

lemma docker_reads_options:
  assumes "\<forall>(w, v) \<in> set os. dashed w \<and> w \<noteq> lit ''--rm''" and "\<not> dashed img" "img \<noteq> lit ''--rm''"
  shows "docker_reads (option_words os @ img # command) = (os, Some (img, command))"
  using assms(1)
proof (induction os rule: option_words.induct)
  case 1
  show ?case using assms(2,3) by (cases command) auto
qed auto

definition run_options :: "runner_settings \<Rightarrow> pystr \<Rightarrow> (pystr \<times> pystr) list" where
  "run_options s operation_id =
     [(lit ''--name'', run_container_name operation_id),
      (lit ''--label'', lit ''test-runner.operation-id='' @ operation_id),
      (lit ''--pull'', lit ''never''), (lit ''--env'', lit ''AGENT_NO_ANALYTICS=1''),
      (lit ''--volume'', path_str (path_parent (rs_inventory_file s)) @ lit '':/runtime/inventory:ro''),
      (lit ''--volume'', path_str (rs_artifacts_directory s) @ lit '':/app/artifacts'')] @
     (case rs_env_file s of None \<Rightarrow> [] | Some f \<Rightarrow> [(lit ''--env-file'', path_str f)]) @
     (case rs_known_hosts_file s of None \<Rightarrow> []
      | Some f \<Rightarrow> [(lit ''--volume'', path_str f @ lit '':/root/.ssh/known_hosts:ro'')]) @
     (case rs_docker_network s of None \<Rightarrow> [] | Some n \<Rightarrow> [(lit ''--network'', n)]) @
     map (\<lambda>d. (lit ''--device'', d)) (rs_docker_devices s) @
     (if rs_reportportal_enabled s then [(lit ''--env'', lit ''RP_API_KEY'')] else [])"

lemma option_words_devices: "option_words (map (\<lambda>d. (x, d)) ds) = concat (map (\<lambda>d. [x, d]) ds)"
  by (induction ds) auto

lemma docker_run_options_words:
  "docker_run_options s operation_id =
     [lit ''docker'', lit ''run'', lit ''--rm''] @ option_words (run_options s operation_id)"
  by (simp add: docker_run_options_def run_options_def option_words_append option_words_devices
      split: option.split)

lemma run_options_dashed: "\<forall>(w, v) \<in> set (run_options s operation_id). dashed w \<and> w \<noteq> lit ''--rm''"
  by (auto simp: run_options_def dashed_def lit_Cons split: option.splits if_splits)

lemma image_not_dashed: "image_pattern img \<Longrightarrow> \<not> dashed img \<and> img \<noteq> lit ''--rm''"
  by (auto simp: image_pattern_def first_then_def dashed_def lit_Cons is_alnum_cp_def is_digit_cp_def
      is_upper_cp_def is_lower_cp_def split: list.splits)

lemma docker_reads_rm:
  "ws \<noteq> [] \<Longrightarrow> docker_reads (lit ''--rm'' # ws) = (let (os, r) = docker_reads ws in ((lit ''--rm'', []) # os, r))"
  by (cases ws) auto

text \<open>
  C18. Nothing a client sends can add or change an option of \<^verbatim>\<open>docker run\<close>: a run is only built
  for an image of an allowed prefix, and docker reads the vector as exactly the options the
  settings fix - the container's name and label from the operation id among them - then that
  image, then a command that runs pytest and passes stand and scenario as values.
\<close>

theorem run_tests_reads:
  assumes "run_tests_command s operation_id run_id img stand scenario = Inr command"
  shows "list_ex (\<lambda>p. prefix p img) (rs_allowed_image_prefixes s) \<and>
    (\<exists>rest. command = [lit ''docker'', lit ''run''] @ rest \<and>
      (\<exists>more'. docker_reads rest =
        ((lit ''--rm'', []) # run_options s operation_id,
         Some (img, pytest_arguments s run_id stand scenario @ more'))))"
proof -
  from assms have valid: "image_pattern img" "list_ex (\<lambda>p. prefix p img) (rs_allowed_image_prefixes s)"
    and "\<exists>more'. command = docker_run_options s operation_id @ [img] @ pytest_arguments s run_id stand scenario @ more'"
    by (auto simp: run_tests_command_def validate_remote_image_def Let_def result_simps
        split: if_splits option.splits)
  then obtain more' where command: "command = [lit ''docker'', lit ''run''] @ lit ''--rm'' #
      option_words (run_options s operation_id) @ img # pytest_arguments s run_id stand scenario @ more'"
    by (auto simp: docker_run_options_words)
  show ?thesis
    using valid(2) docker_reads_options [OF run_options_dashed] image_not_dashed [OF valid(1)]
    by (auto simp: command docker_reads_rm)
qed

theorem run_tests_reads_witness:
  "\<exists>command. run_tests_command default_runner_settings (lit ''run-1'') (lit ''run-1'') (lit ''sha256:0'')
      (lit ''stand'') (lit ''smoke'') = Inr command \<and>
    list_ex (\<lambda>p. prefix p (lit ''sha256:0'')) (rs_allowed_image_prefixes default_runner_settings)"
proof -
  have "image_pattern (lit ''sha256:0'')" by code_simp
  moreover have "prefix (lit ''sha256:'') (lit ''sha256:0'')" by (simp add: lit_Cons)
  ultimately obtain command where "run_tests_command default_runner_settings (lit ''run-1'') (lit ''run-1'')
      (lit ''sha256:0'') (lit ''stand'') (lit ''smoke'') = Inr command"
    by (simp add: run_tests_command_def validate_remote_image_def default_runner_settings_def Let_def)
  with run_tests_reads [OF this] show ?thesis by blast
qed

end
