(* ===== verification/Artifacts.thy ===== *)
theory Artifacts
  imports Runner_Settings
begin

text \<open>
  The artifacts of test runs, \<^verbatim>\<open>artifacts.py\<close> of
  \<^verbatim>\<open>src/helpers/test-runner-service/src/test_runner_service\<close>. The file system is a snapshot:
  a record of what the paths name. \<^verbatim>\<open>fs_resolve\<close> follows symbolic links and removes \<^verbatim>\<open>..\<close>; the
  XML parser and \<^verbatim>\<open>int\<close> of a string are parameters.
\<close>

record file_system =
  fs_resolve :: "ppath \<Rightarrow> ppath"
  fs_is_file :: "ppath \<Rightarrow> bool"
  fs_is_dir :: "ppath \<Rightarrow> bool"
  fs_size :: "ppath \<Rightarrow> exn + int"
  fs_mtime :: "ppath \<Rightarrow> exn + int"
  fs_iterdir :: "ppath \<Rightarrow> exn + ppath list"

section \<open>Single runs\<close>

definition configured_artifacts :: "runner_settings \<Rightarrow> (pystr, ppath) dict" where
  "configured_artifacts s =
     concat (map (\<lambda>(name, path). case path of None \<Rightarrow> [] | Some p \<Rightarrow> [(lit name, p)])
       [(''pytest.log'', rs_pytest_log_path s), (''junit.xml'', rs_junit_path s), (''report.html'', rs_html_path s)])"

definition resolve_report_path :: "file_system \<Rightarrow> ppath \<Rightarrow> ppath \<Rightarrow> exn + ppath" where
  "resolve_report_path fs run_directory relative_path =
     (let root' = fs_resolve fs run_directory;
          path = fs_resolve fs (path_join root' relative_path)
      in if \<not> is_relative_to path root' \<or> path = root'
         then Inl (raise_txt PyValueError ''report path escapes the session directory'')
         else Inr path)"

definition resolve_artifact :: "file_system \<Rightarrow> ppath \<Rightarrow> runner_settings \<Rightarrow> pystr \<Rightarrow> exn + ppath option" where
  "resolve_artifact fs run_directory s name =
     (case map_of (configured_artifacts s) name of
        None \<Rightarrow> Inr None
      | Some relative_path \<Rightarrow>
          try_bind (resolve_report_path fs run_directory relative_path) (\<lambda>path.
            Inr (if fs_is_file fs path then Some path else None)))"

definition resolve_run_directory :: "file_system \<Rightarrow> ppath \<Rightarrow> pystr \<Rightarrow> ppath option" where
  "resolve_run_directory fs artifacts_directory run_id =
     (let root' = fs_resolve fs artifacts_directory;
          path = fs_resolve fs (path_join root' (parse_path run_id))
      in if path_parent path = root' \<and> fs_is_dir fs path then Some path else None)"

record artifact_item =
  ai_name :: pystr
  ai_size :: int
  ai_download_url :: pystr

definition list_artifact ::
  "file_system \<Rightarrow> ppath \<Rightarrow> pystr \<Rightarrow> pystr \<times> ppath \<Rightarrow> exn + artifact_item list" where
  \<comment> \<open>the body of the loop of \<^verbatim>\<open>list_artifacts\<close>\<close>
  "list_artifact fs run_directory url_prefix entry =
     (case entry of (name, relative_path) \<Rightarrow>
        try_bind (resolve_report_path fs run_directory relative_path) (\<lambda>path.
          if fs_is_file fs path then
            try_bind (fs_size fs path) (\<lambda>size'.
              Inr [\<lparr>ai_name = name, ai_size = size', ai_download_url = url_prefix @ lit ''/'' @ name\<rparr>])
          else Inr []))"

definition list_artifacts ::
  "file_system \<Rightarrow> ppath \<Rightarrow> runner_settings \<Rightarrow> pystr \<Rightarrow> exn + artifact_item list" where
  "list_artifacts fs run_directory s url_prefix =
     try_bind (try_map (list_artifact fs run_directory url_prefix) (configured_artifacts s))
       (\<lambda>items. Inr (concat items))"

section \<open>All runs\<close>

record artifact_run =
  ar_run_id :: pystr
  ar_modified_at :: int
  ar_items :: "artifact_item list"

definition artifact_run_of ::
  "file_system \<Rightarrow> runner_settings \<Rightarrow> ppath \<Rightarrow> ppath \<Rightarrow> exn + artifact_run list" where
  \<comment> \<open>the body of the loop of \<^verbatim>\<open>list_artifact_runs\<close>\<close>
  "artifact_run_of fs s root' path =
     (if \<not> fs_is_dir fs path \<or> path_parent (fs_resolve fs path) \<noteq> root' then Inr []
      else
        try_bind (list_artifacts fs path s (lit ''/v1/artifact-runs/'' @ path_name path)) (\<lambda>items.
        if items = [] then Inr []
        else
          try_bind (fs_mtime fs path) (\<lambda>t.
            Inr [\<lparr>ar_run_id = path_name path, ar_modified_at = t, ar_items = items\<rparr>])))"

definition list_artifact_runs :: "file_system \<Rightarrow> runner_settings \<Rightarrow> exn + artifact_run list" where
  "list_artifact_runs fs s =
     (let root' = fs_resolve fs (rs_artifacts_directory s) in
      try_bind (fs_iterdir fs (rs_artifacts_directory s)) (\<lambda>paths.
      try_bind (try_map (artifact_run_of fs s root') paths) (\<lambda>runs.
        Inr (sort_key (\<lambda>r. - ar_modified_at r) (concat runs)))))"

section \<open>JUnit\<close>

datatype xml = Element (x_tag: pystr) (x_attrib: "(pystr, pystr) dict") (x_children: "xml list")

record test_summary =
  tsm_total :: int
  tsm_passed :: int
  tsm_failed :: int
  tsm_errors :: int
  tsm_skipped :: int

definition suite_count :: "(pystr \<Rightarrow> exn + int) \<Rightarrow> string \<Rightarrow> xml \<Rightarrow> exn + int" where
  "suite_count to_int attribute suite =
     (case map_of (x_attrib suite) (lit attribute) of None \<Rightarrow> Inr 0 | Some v \<Rightarrow> to_int v)"

definition suites_total :: "(pystr \<Rightarrow> exn + int) \<Rightarrow> string \<Rightarrow> xml list \<Rightarrow> exn + int" where
  "suites_total to_int attribute suites =
     try_bind (try_map (suite_count to_int attribute) suites) (\<lambda>ns. Inr (sum_list ns))"

definition read_junit_summary :: "(pystr \<Rightarrow> exn + int) \<Rightarrow> xml \<Rightarrow> exn + test_summary" where
  \<comment> \<open>of the root of the parsed file\<close>
  "read_junit_summary to_int root' =
     (let suites = (if x_tag root' = lit ''testsuite'' then [root']
                    else filter (\<lambda>c. x_tag c = lit ''testsuite'') (x_children root')) in
      try_bind (suites_total to_int ''tests'' suites) (\<lambda>total.
      try_bind (suites_total to_int ''failures'' suites) (\<lambda>failures.
      try_bind (suites_total to_int ''errors'' suites) (\<lambda>errors.
      try_bind (suites_total to_int ''skipped'' suites) (\<lambda>skipped.
        Inr \<lparr>tsm_total = total, tsm_passed = max (total - failures - errors - skipped) 0,
          tsm_failed = failures, tsm_errors = errors, tsm_skipped = skipped\<rparr>)))))"

section \<open>Containment\<close>

definition below :: "ppath \<Rightarrow> ppath \<Rightarrow> bool" where
  "below p q \<longleftrightarrow> is_relative_to p q \<and> p \<noteq> q"

lemma resolve_report_path_below:
  "resolve_report_path fs d r = Inr p \<Longrightarrow> below p (fs_resolve fs d)"
  by (auto simp: resolve_report_path_def below_def Let_def split: if_splits)

lemma path_join_name: "path_join d (PPath [] [c]) \<noteq> d" "path_name (path_join d (PPath [] [c])) = c"
  by (cases d; simp add: path_join_def path_name_def)+

text \<open>
  What a name of an artifact leads to is a file strictly below the resolved directory of its
  run, and the name is one of the three known ones.
\<close>

lemma resolve_artifact_contained:
  assumes art: "resolve_artifact fs d s name = Inr (Some p)" and "fs_resolve fs d = d"
  shows "fs_is_file fs p \<and> below p d \<and> name \<in> {lit ''pytest.log'', lit ''junit.xml'', lit ''report.html''} \<and>
    (\<exists>relative_path. map_of (configured_artifacts s) name = Some relative_path \<and>
      p = fs_resolve fs (path_join d relative_path))"
proof -
  from art have "name \<in> set (map fst (configured_artifacts s))"
    using map_of_eq_None_iff [of "configured_artifacts s" name]
    by (auto simp: resolve_artifact_def split: option.splits)
  then have "name \<in> {lit ''pytest.log'', lit ''junit.xml'', lit ''report.html''}"
    by (auto simp: configured_artifacts_def split: option.splits)
  moreover from art obtain relative_path where rel: "map_of (configured_artifacts s) name = Some relative_path"
    "resolve_report_path fs d relative_path = Inr p" "fs_is_file fs p"
    by (auto simp: resolve_artifact_def result_simps split: option.splits if_splits)
  moreover from rel(2) assms(2) have "p = fs_resolve fs (path_join d relative_path)"
    by (auto simp: resolve_report_path_def Let_def split: if_splits)
  moreover from resolve_report_path_below [OF rel(2)] assms(2) have "below p d" by simp
  ultimately show ?thesis by simp
qed

text \<open>Where the run is named by the client, its directory is an immediate child of the root.\<close>

lemma resolve_run_directory_child:
  assumes "\<And>p. fs_resolve fs (fs_resolve fs p) = fs_resolve fs p"
    and "resolve_run_directory fs directory run_id = Some d"
  shows "path_parent d = fs_resolve fs directory \<and> fs_resolve fs d = d \<and> fs_is_dir fs d"
  using assms by (auto simp: resolve_run_directory_def Let_def split: if_splits)

lemma below_relative: "below p d \<Longrightarrow> is_relative_to d q \<Longrightarrow> below p q"
  unfolding below_def is_relative_to_def
  by (metis ppath.expand prefix_order.antisym prefix_order.trans)

lemma path_parent_relative: "is_relative_to d (path_parent d)"
  by (cases d) (simp add: is_relative_to_def path_parent_def prefixeq_butlast)

definition flat_files :: file_system where
  "flat_files = \<lparr>fs_resolve = id, fs_is_file = (\<lambda>p. path_name p = lit ''pytest.log''),
     fs_is_dir = (\<lambda>p. path_name p = lit ''run-1''), fs_size = (\<lambda>p. Inr 5), fs_mtime = (\<lambda>p. Inr 0),
     fs_iterdir = (\<lambda>p. Inr [])\<rparr>"

lemma flat_files_served:
  obtains d p where
    "resolve_run_directory flat_files (rs_artifacts_directory default_runner_settings) (lit ''run-1'') = Some d"
    "resolve_artifact flat_files d default_runner_settings (lit ''pytest.log'') = Inr (Some p)"
proof -
  let ?a = "rs_artifacts_directory default_runner_settings"
  have parse: "parse_path (lit ''run-1'') = PPath [] [lit ''run-1'']"
    "parse_path (lit ''pytest.log'') = PPath [] [lit ''pytest.log'']" by code_simp+
  obtain d where d: "resolve_run_directory flat_files ?a (lit ''run-1'') = Some d"
    "d = path_join ?a (PPath [] [lit ''run-1''])"
    by (simp add: resolve_run_directory_def flat_files_def parse path_parent_join_name)
      (simp add: path_join_def path_name_def)
  obtain p where "resolve_artifact flat_files d default_runner_settings (lit ''pytest.log'') = Inr (Some p)"
    by (simp add: resolve_artifact_def configured_artifacts_def default_runner_settings_def
        resolve_report_path_def flat_files_def parse Let_def path_join_name path_join_relative)
  with d(1) that show thesis by blast
qed

text \<open>
  A JUnit summary adds up: with counts that do not exceed the total, every test is counted
  once, as passed, failed, in error or skipped; the number of passed tests is never negative.
\<close>

lemma junit_summary_adds_up:
  assumes "read_junit_summary to_int root' = Inr t"
  shows "0 \<le> tsm_passed t \<and>
    (tsm_failed t + tsm_errors t + tsm_skipped t \<le> tsm_total t \<longrightarrow>
      tsm_passed t + tsm_failed t + tsm_errors t + tsm_skipped t = tsm_total t)"
  using assms by (auto simp: read_junit_summary_def Let_def result_simps)

lemma junit_summary_adds_up_witness:
  "\<exists>t. read_junit_summary (\<lambda>v. Inr 3) (Element (lit ''testsuite'') [(lit ''tests'', [51])] []) = Inr t \<and>
    0 \<le> tsm_passed t"
proof -
  obtain t where t: "read_junit_summary (\<lambda>v. Inr 3) (Element (lit ''testsuite'') [(lit ''tests'', [51])] []) = Inr t"
    by (simp add: read_junit_summary_def suites_total_def suite_count_def)
  with junit_summary_adds_up [OF t] show ?thesis by blast
qed

end
