(* ===== verification/Runner_State.thy ===== *)
theory Runner_State
  imports Artifacts Effects
begin

text \<open>
  The state of the test-runner service: the models of \<^verbatim>\<open>models.py\<close>, the state file of
  \<^verbatim>\<open>state.py\<close> and the capture of process output of \<^verbatim>\<open>processes.py\<close>, all in
  \<^verbatim>\<open>src/helpers/test-runner-service/src/test_runner_service\<close>. Times are numbers; that the
  JSON written to the state file reads back as the same model is pydantic's.
\<close>

datatype operation_type = BUILD_IMAGE | PULL_IMAGE | RUN_TESTS

datatype operation_status =
    BUILDING | PULLING | RUNNING | SUCCEEDED | PASSED | FAILED | CANCELLED | TIMED_OUT
  | INFRASTRUCTURE_ERROR | INTERRUPTED

definition is_terminal :: "operation_status \<Rightarrow> bool" where
  "is_terminal s \<longleftrightarrow> s \<in> {SUCCEEDED, PASSED, FAILED, CANCELLED, TIMED_OUT, INFRASTRUCTURE_ERROR, INTERRUPTED}"

datatype report_status = REPORT_PUBLISHED | REPORT_FAILED

datatype reportportal_status = RP_FINISHED | RP_INCOMPLETE | RP_UNAVAILABLE

record operation_state =
  op_schema_version :: int
  op_id :: pystr
  op_run_id :: "pystr option"
  op_type :: operation_type
  op_status :: operation_status
  op_created_at :: int
  op_started_at :: int
  op_finished_at :: "int option"
  op_image_reference :: "pystr option"
  op_image_digest :: "pystr option"
  op_stand :: "pystr option"
  op_scenario :: "pystr option"
  op_container_name :: "pystr option"
  op_exit_code :: "int option"
  op_artifact_directory :: "pystr option"
  op_summary :: "test_summary option"
  op_junit_message :: "pystr option"
  op_report_status :: "report_status option"
  op_report_url :: "pystr option"
  op_report_message :: "pystr option"
  op_rp_status :: "reportportal_status option"
  op_rp_url :: "pystr option"
  op_rp_message :: "pystr option"
  op_message :: "piece list option"

text \<open>\<^verbatim>\<open>OperationState.started\<close> without its optional arguments, which callers set afterwards.\<close>

definition started :: "int \<Rightarrow> pystr \<Rightarrow> operation_type \<Rightarrow> operation_status \<Rightarrow> operation_state" where
  "started now operation_id type' status = \<lparr>
     op_schema_version = 1, op_id = operation_id, op_run_id = None, op_type = type', op_status = status,
     op_created_at = now, op_started_at = now, op_finished_at = None, op_image_reference = None,
     op_image_digest = None, op_stand = None, op_scenario = None, op_container_name = None,
     op_exit_code = None, op_artifact_directory = None, op_summary = None, op_junit_message = None,
     op_report_status = None, op_report_url = None, op_report_message = None, op_rp_status = None,
     op_rp_url = None, op_rp_message = None, op_message = None\<rparr>"

text \<open>The further fields \<^verbatim>\<open>model_copy(update=...)\<close> sets when an operation ends.\<close>

datatype state_update =
    SetArtifactDirectory "pystr option" | SetSummary "test_summary option"
  | SetJunitMessage "pystr option" | SetReportStatus report_status | SetReportUrl "pystr option"
  | SetReportMessage pystr | SetRpStatus reportportal_status | SetRpUrl pystr | SetRpMessage pystr
  | SetMessage "piece list" | SetImageReference pystr | SetImageDigest pystr

fun apply_update :: "state_update \<Rightarrow> operation_state \<Rightarrow> operation_state" where
  "apply_update (SetArtifactDirectory d) s = s\<lparr>op_artifact_directory := d\<rparr>"
| "apply_update (SetSummary x) s = s\<lparr>op_summary := x\<rparr>"
| "apply_update (SetJunitMessage m) s = s\<lparr>op_junit_message := m\<rparr>"
| "apply_update (SetReportStatus x) s = s\<lparr>op_report_status := Some x\<rparr>"
| "apply_update (SetReportUrl u) s = s\<lparr>op_report_url := u\<rparr>"
| "apply_update (SetReportMessage m) s = s\<lparr>op_report_message := Some m\<rparr>"
| "apply_update (SetRpStatus x) s = s\<lparr>op_rp_status := Some x\<rparr>"
| "apply_update (SetRpUrl u) s = s\<lparr>op_rp_url := Some u\<rparr>"
| "apply_update (SetRpMessage m) s = s\<lparr>op_rp_message := Some m\<rparr>"
| "apply_update (SetMessage m) s = s\<lparr>op_message := Some m\<rparr>"
| "apply_update (SetImageReference r) s = s\<lparr>op_image_reference := Some r\<rparr>"
| "apply_update (SetImageDigest d) s = s\<lparr>op_image_digest := Some d\<rparr>"

definition apply_updates :: "state_update list \<Rightarrow> operation_state \<Rightarrow> operation_state" where
  "apply_updates us s = fold apply_update us s"

lemma apply_updates_keep [simp]:
  "op_id (apply_updates us s) = op_id s" "op_status (apply_updates us s) = op_status s"
  "op_finished_at (apply_updates us s) = op_finished_at s"
  "op_container_name (apply_updates us s) = op_container_name s"
  "op_exit_code (apply_updates us s) = op_exit_code s"
  "op_type (apply_updates us s) = op_type s" "op_run_id (apply_updates us s) = op_run_id s"
proof -
  have one: "op_id (apply_update u s) = op_id s \<and> op_status (apply_update u s) = op_status s \<and>
      op_finished_at (apply_update u s) = op_finished_at s \<and>
      op_container_name (apply_update u s) = op_container_name s \<and>
      op_exit_code (apply_update u s) = op_exit_code s \<and> op_type (apply_update u s) = op_type s \<and>
      op_run_id (apply_update u s) = op_run_id s" for u s
    by (cases u) simp_all
  have "op_id (fold apply_update us s) = op_id s \<and> op_status (fold apply_update us s) = op_status s \<and>
      op_finished_at (fold apply_update us s) = op_finished_at s \<and>
      op_container_name (fold apply_update us s) = op_container_name s \<and>
      op_exit_code (fold apply_update us s) = op_exit_code s \<and> op_type (fold apply_update us s) = op_type s \<and>
      op_run_id (fold apply_update us s) = op_run_id s"
    using one by (induction us arbitrary: s) simp_all
  then show "op_id (apply_updates us s) = op_id s" "op_status (apply_updates us s) = op_status s"
    "op_finished_at (apply_updates us s) = op_finished_at s"
    "op_container_name (apply_updates us s) = op_container_name s"
    "op_exit_code (apply_updates us s) = op_exit_code s"
    "op_type (apply_updates us s) = op_type s" "op_run_id (apply_updates us s) = op_run_id s"
    by (simp_all add: apply_updates_def)
qed

section \<open>The state file\<close>

text \<open>After a restart an operation that was active is marked interrupted; the result is what is
  written to the file.\<close>

definition mark_interrupted :: "operation_state option \<Rightarrow> operation_state option" where
  "mark_interrupted current =
     (case current of
        None \<Rightarrow> None
      | Some s \<Rightarrow>
          if is_terminal (op_status s) then Some s
          else Some (s\<lparr>op_status := INTERRUPTED,
            op_message := Some [Txt (lit ''The service restarted while the operation was active'')]\<rparr>))"

lemma mark_interrupted_terminal:
  "mark_interrupted c = Some s \<Longrightarrow> is_terminal (op_status s)"
  by (auto simp: mark_interrupted_def is_terminal_def split: option.splits if_splits)

section \<open>Captured output\<close>

definition MAX_CAPTURED_OUTPUT :: nat where
  "MAX_CAPTURED_OUTPUT = 65536"

record process_result =
  pr_exit_code :: int
  pr_output :: pystr

definition captured :: "pystr \<Rightarrow> pystr \<Rightarrow> pystr" where
  \<comment> \<open>\<^verbatim>\<open>f"{output}{text}"[-MAX_CAPTURED_OUTPUT:]\<close>\<close>
  "captured output text' =
     (let s = output @ text' in drop (length s - MAX_CAPTURED_OUTPUT) s)"

definition capture_lines :: "pystr list \<Rightarrow> pystr" where
  \<comment> \<open>the loop of \<^verbatim>\<open>run\<close>, of the decoded lines\<close>
  "capture_lines ls = foldl captured [] ls"

text \<open>
  Keeping the tail line by line equals keeping the tail of everything: the output a process
  result carries is exactly the last 65536 characters of all its output.
\<close>

lemma capture_lines_tail:
  "capture_lines ls = drop (length (concat ls) - MAX_CAPTURED_OUTPUT) (concat ls)"
proof (induction ls rule: rev_induct)
  case (snoc l ls)
  then show ?case
    by (cases "length (concat ls) \<le> MAX_CAPTURED_OUTPUT")
      (simp_all add: capture_lines_def captured_def Let_def add.commute)
qed (simp add: capture_lines_def)

text \<open>\<^verbatim>\<open>output.strip().splitlines()[-1]\<close> of an output that is not blank.\<close>

definition is_line_break :: "nat \<Rightarrow> bool" where
  "is_line_break c \<longleftrightarrow> (10 \<le> c \<and> c \<le> 13) \<or> (28 \<le> c \<and> c \<le> 30) \<or> c = 133 \<or> c = 8232 \<or> c = 8233"

definition last_line :: "pystr \<Rightarrow> pystr" where
  "last_line s = rev (takeWhile (\<lambda>c. \<not> is_line_break c) (rev (strip s)))"

section \<open>The URL of a published report\<close>

definition url_at :: "pystr \<Rightarrow> pystr option" where
  \<comment> \<open>a match of \<^verbatim>\<open>https?://[^\s]+\<close> at the start\<close>
  "url_at s =
     (let n = (if prefix (lit ''http://'') s then 7 else if prefix (lit ''https://'') s then 8 else 0);
          body = takeWhile (\<lambda>c. \<not> is_space c) (drop n s)
      in if n = 0 \<or> body = [] then None else Some (take n s @ body))"

lemma url_at_length: "url_at s = Some u \<Longrightarrow> u \<noteq> [] \<and> prefix u s"
proof -
  assume u: "url_at s = Some u"
  define n :: nat where "n = (if prefix (lit ''http://'') s then 7 else if prefix (lit ''https://'') s then 8 else 0)"
  have "u = take n s @ takeWhile (\<lambda>c. \<not> is_space c) (drop n s)" and "takeWhile (\<lambda>c. \<not> is_space c) (drop n s) \<noteq> []"
    using u unfolding url_at_def Let_def n_def [symmetric] by (auto split: if_splits)
  then show ?thesis
    by (metis append_is_Nil_conv append_take_drop_id prefixI prefix_def same_append_eq takeWhile_dropWhile_id append.assoc)
qed

function find_urls :: "pystr \<Rightarrow> pystr list" where
  "find_urls s =
     (case s of [] \<Rightarrow> []
      | c # cs \<Rightarrow>
          (case url_at s of None \<Rightarrow> find_urls cs | Some u \<Rightarrow> u # find_urls (drop (length u) s)))"
  by pat_completeness auto
termination
  by (relation "measure length") (auto dest: url_at_length)

declare find_urls.simps [simp del]

definition published_report_url :: "pystr \<Rightarrow> pystr option" where
  "published_report_url output =
     (let urls = find_urls output in
      if urls = [] then None
      else Some (rstrip_by (\<lambda>c. c \<in> set (lit ''.,;)'' @ [34, 93, 39])) (last urls)))"

end
