(* ===== verification/Reportportal.thy ===== *)
theory Reportportal
  imports Runner_State
begin

text \<open>
  Looking up the ReportPortal launch of an operation,
  \<^verbatim>\<open>src/helpers/test-runner-service/src/test_runner_service/reportportal.py\<close>. The HTTP client,
  \<^verbatim>\<open>urlencode\<close> and pydantic's parsing of the answer are parameters.
\<close>

record launch =
  la_id :: int
  la_name :: pystr
  la_status :: pystr

record 'w http =
  ht_request :: "bool \<Rightarrow> pystr \<Rightarrow> int option \<Rightarrow> pystr \<Rightarrow> pystr \<Rightarrow> ('w, unit) io"
    \<comment> \<open>GET: over TLS?, host, port, path, bearer token\<close>
  ht_response :: "('w, int \<times> bytes) io"       \<comment> \<open>status and the first 65537 bytes of the body\<close>
  ht_close :: "('w, unit) io"
  ht_urlencode :: "(pystr \<times> pystr) list \<Rightarrow> pystr"
  ht_launch_page :: "bytes \<Rightarrow> exn + launch list"

definition rstrip_slash :: "pystr \<Rightarrow> pystr" where
  "rstrip_slash s = rstrip_by (\<lambda>c. c = 47) s"

definition launches_url :: "runner_settings \<Rightarrow> pystr option" where
  "launches_url s =
     (case rs_reportportal_public_url s of
        Some u \<Rightarrow>
          if rs_reportportal_enabled s
          then Some (rstrip_slash (u_str u) @ lit ''/ui/#'' @ rs_reportportal_project s @ lit ''/launches/all'')
          else None
      | None \<Rightarrow> None)"

definition find_launch :: "'w http \<Rightarrow> runner_settings \<Rightarrow> pystr \<Rightarrow> ('w, launch option) io" where
  "find_launch ht s operation_id =
     (let failed = raising (raise_txt PyValueError ''ReportPortal connection is not configured'') in
      case (rs_reportportal_endpoint s, rs_reportportal_api_key s) of
        (Some endpoint, Some token) \<Rightarrow>
          (case u_host endpoint of
             None \<Rightarrow> failed
           | Some host \<Rightarrow>
               let query = ht_urlencode ht [(lit ''filter.eq.name'', operation_id), (lit ''page.size'', [50])];
                   prefix' = rstrip_slash (case u_path endpoint of None \<Rightarrow> [] | Some p \<Rightarrow> p);
                   path = prefix' @ lit ''/api/v1/'' @ rs_reportportal_project s @ lit ''/launch?'' @ query
               in try_finally
                 (io_then (ht_request ht (u_scheme endpoint = lit ''https'') host (u_port endpoint) path token)
                 (io_bind (ht_response ht) (\<lambda>(status, body).
                  if status \<noteq> 200 then raising (raise_txt PyValueError ''ReportPortal lookup failed'')
                  else
                    io_bind (lifting (ht_launch_page ht body)) (\<lambda>content.
                    let matches = filter (\<lambda>l. la_name l = operation_id) content in
                    returning (case matches of [l] \<Rightarrow> Some l | _ \<Rightarrow> None)))))
                 (ht_close ht))
      | _ \<Rightarrow> failed)"

definition finished_statuses :: "pystr list" where
  "finished_statuses = [lit ''PASSED'', lit ''FAILED'', lit ''SKIPPED'', lit ''WARN'', lit ''INFO'']"

definition launch_updates :: "runner_settings \<Rightarrow> launch option \<Rightarrow> state_update list" where
  "launch_updates s found =
     (case found of
        None \<Rightarrow> [SetRpStatus RP_UNAVAILABLE,
          SetRpMessage (lit ''No ReportPortal launch was found for this operation'')]
      | Some l \<Rightarrow>
          let finished = la_status l \<in> set finished_statuses in
          [SetRpStatus (if finished then RP_FINISHED else RP_INCOMPLETE),
           SetRpUrl ((case launches_url s of None \<Rightarrow> lit ''None'' | Some u \<Rightarrow> u) @ lit ''/'' @ int_text (la_id l)),
           SetRpMessage (if finished
             then lit ''ReportPortal launch finished; delivery of every log is not verified''
             else lit ''ReportPortal launch is still running or was interrupted'')])"

definition read_reportportal_result ::
  "'w http \<Rightarrow> runner_settings \<Rightarrow> pystr \<Rightarrow> ('w, state_update list) io" where
  "read_reportportal_result ht s operation_id =
     (if \<not> rs_reportportal_enabled s then returning []
      else try_except
        (io_bind (find_launch ht s operation_id) (\<lambda>l. returning (launch_updates s l)))
        (\<lambda>e. returning [SetRpStatus RP_UNAVAILABLE,
           SetRpMessage (lit ''Could not read ReportPortal launch; check service access'')]))"

lemma reportportal_never_raises: "read_reportportal_result ht s i w \<noteq> Some (Inl e, w')"
  by (auto simp: read_reportportal_result_def try_except_Inl io_bind_Inl run_simps)

end
