(* ===== verification/Worker.thy ===== *)
theory Worker
  imports Docker_Commands Reportportal
begin

text \<open>
  The coordinator of the test-runner service,
  \<^verbatim>\<open>src/helpers/test-runner-service/src/test_runner_service/worker.py\<close>: it starts one operation
  at a time as a background task and records its outcome in the state file. The state is the
  coordinator's fields with the contents of the state file, beside a world of processes and
  files. A coroutine is interrupted only where it awaits, so an awaited operation may change
  the coordinator, as the other handlers would; the rest runs undisturbed.
\<close>

datatype task = NoTask | Active | Finished

record coordinator =
  co_task :: task
  co_cancel_requested :: bool
  co_current :: "operation_state option"        \<comment> \<open>the state file\<close>

type_synonym ('w, 'a) service_io = "('w \<times> coordinator, 'a) io"

record 'w service =
  sv_now :: "('w, int) io"
  sv_uuid4_hex :: "('w, pystr) io"
  sv_persist :: "operation_state \<Rightarrow> ('w, unit) io"    \<comment> \<open>writing the temporary file\<close>
  sv_reset_log :: "('w, unit) io"
  sv_files :: "('w, file_system) io"
  sv_junit :: "ppath \<Rightarrow> ('w, test_summary) io"
  sv_http :: "('w \<times> coordinator) http"
  sv_run :: "pystr list \<Rightarrow> (pystr \<times> pystr) list \<Rightarrow> ('w, process_result) service_io"
    \<comment> \<open>awaited: \<^verbatim>\<open>process_runner.run\<close> under the operation's timeout\<close>
  sv_cancel :: "pystr option \<Rightarrow> ('w, unit) service_io"  \<comment> \<open>awaited: \<^verbatim>\<open>process_runner.cancel\<close>\<close>

definition store_read :: "('w, operation_state option) service_io" where
  "store_read = inner (reading co_current)"

definition store_write :: "'w service \<Rightarrow> operation_state \<Rightarrow> ('w, unit) service_io" where
  "store_write sv s =
     io_then (outer (sv_persist sv s)) (inner (modifying (\<lambda>c. c\<lparr>co_current := Some s\<rparr>)))"

definition cancel_requested :: "('w, bool) service_io" where
  "cancel_requested = inner (reading co_cancel_requested)"

section \<open>The end of an operation\<close>

definition finished_state ::
  "operation_state \<Rightarrow> operation_status \<Rightarrow> int option \<Rightarrow> state_update list \<Rightarrow> int \<Rightarrow> operation_state" where
  "finished_state s status exit_code updates now =
     apply_updates updates (s\<lparr>op_status := status, op_finished_at := Some now, op_exit_code := exit_code,
       op_container_name := None\<rparr>)"

definition finish ::
  "'w service \<Rightarrow> operation_state \<Rightarrow> operation_status \<Rightarrow> int option \<Rightarrow> state_update list \<Rightarrow> ('w, unit) service_io" where
  "finish sv s status exit_code updates =
     io_bind (outer (sv_now sv)) (\<lambda>now. store_write sv (finished_state s status exit_code updates now))"

section \<open>Image operations\<close>

definition image_body ::
  "'w service \<Rightarrow> operation_state \<Rightarrow> pystr list \<Rightarrow> pystr \<Rightarrow> ('w, unit) service_io" where
  \<comment> \<open>the \<^verbatim>\<open>try\<close> block of \<^verbatim>\<open>_execute_image_operation\<close>\<close>
  "image_body sv s command reference =
     io_bind (sv_run sv command []) (\<lambda>result.
     io_bind cancel_requested (\<lambda>cancelled.
     if cancelled then finish sv s CANCELLED (Some (pr_exit_code result)) []
     else if pr_exit_code result \<noteq> 0 then finish sv s FAILED (Some (pr_exit_code result)) []
     else
       io_bind (sv_run sv (inspect_image reference) []) (\<lambda>inspect.
       if pr_exit_code inspect \<noteq> 0 \<or> strip (pr_output inspect) = []
       then finish sv s INFRASTRUCTURE_ERROR (Some (pr_exit_code inspect))
         [SetMessage [Txt (lit ''The prepared image could not be inspected'')]]
       else finish sv s SUCCEEDED (Some 0)
         [SetImageReference reference, SetImageDigest (last_line (pr_output inspect))])))"

definition execute_image_operation ::
  "'w service \<Rightarrow> operation_state \<Rightarrow> pystr list \<Rightarrow> pystr \<Rightarrow> ('w, unit) service_io" where
  "execute_image_operation sv s command reference =
     try_except (image_body sv s command reference) (\<lambda>e.
       if caught_by e PyTimeoutError
       then io_then (sv_cancel sv None)
         (finish sv s TIMED_OUT None [SetMessage [Txt (lit ''Image operation timed out'')]])
       else finish sv s INFRASTRUCTURE_ERROR None [SetMessage (exn_message e)])"

section \<open>Test runs\<close>

definition allocated_directory :: "'w service \<Rightarrow> ppath \<Rightarrow> ('w, pystr option) service_io" where
  "allocated_directory sv expected =
     io_bind (outer (sv_files sv)) (\<lambda>fs.
       returning (if fs_is_dir fs expected then Some (path_str expected) else None))"

definition read_summary ::
  "'w service \<Rightarrow> runner_settings \<Rightarrow> ppath \<Rightarrow> ('w, test_summary option \<times> pystr option) service_io" where
  "read_summary sv cfg run_directory =
     (case rs_junit_path cfg of
        None \<Rightarrow> returning (None, None)
      | Some junit_path \<Rightarrow>
          io_bind (outer (sv_files sv)) (\<lambda>fs.
          io_bind (lifting (resolve_report_path fs run_directory junit_path)) (\<lambda>junit_file.
          if \<not> fs_is_file fs junit_file
          then returning (None, Some (lit ''The configured JUnit report was not created''))
          else try_except
            (io_bind (outer (sv_junit sv junit_file)) (\<lambda>summary. returning (Some summary, None)))
            (\<lambda>e. returning (None, Some (lit ''The configured JUnit report could not be read''))))))"

definition publication_failed :: "string \<Rightarrow> state_update list" where
  "publication_failed m = [SetReportStatus REPORT_FAILED, SetReportMessage (lit m)]"

definition run_publisher ::
  "'w service \<Rightarrow> runner_settings \<Rightarrow> operation_state \<Rightarrow> ppath \<Rightarrow> pystr \<Rightarrow> ('w, state_update list) service_io" where
  \<comment> \<open>the end of \<^verbatim>\<open>_publish_allure\<close>, with its token\<close>
  "run_publisher sv cfg s run_directory token =
     io_bind (lifting (publish_allure_command cfg (op_id s) run_directory)) (\<lambda>command.
     io_bind
       (try_except
         (io_bind (sv_run sv command [(lit ''ALLURE_ACCESS_TOKEN'', token)]) (\<lambda>r. returning (Inr r)))
         (\<lambda>e. if caught_by e PyTimeoutError
              then io_then (sv_cancel sv (Some (publisher_container_name (op_id s))))
                (returning (Inl (publication_failed ''Allure publication timed out'')))
              else returning (Inl (publication_failed
                ''Allure publication failed; inspect the operation log''))))
       (\<lambda>outcome.
       returning (case outcome of
         Inl updates \<Rightarrow> updates
       | Inr result \<Rightarrow>
           if pr_exit_code result \<noteq> 0
           then publication_failed ''Allure publication failed; inspect the operation log''
           else [SetReportStatus REPORT_PUBLISHED, SetReportUrl (published_report_url (pr_output result))])))"

definition publish_allure ::
  "'w service \<Rightarrow> runner_settings \<Rightarrow> operation_state \<Rightarrow> ppath \<Rightarrow> ('w, state_update list) service_io" where
  "publish_allure sv cfg s run_directory =
     (case rs_allure_results_path cfg of
        None \<Rightarrow> returning (publication_failed ''Allure results are disabled'')
      | Some results_path \<Rightarrow>
          io_bind (outer (sv_files sv)) (\<lambda>fs.
          io_bind (lifting (resolve_report_path fs run_directory results_path)) (\<lambda>results_directory.
          if \<not> fs_is_dir fs results_directory
          then returning (publication_failed ''The test image did not create Allure results'')
          else
            io_then (store_write sv (s\<lparr>op_container_name := Some (publisher_container_name (op_id s))\<rparr>))
              (case rs_allure_access_token cfg of
                 None \<Rightarrow> returning (publication_failed ''Allure access token is unavailable'')
               | Some token \<Rightarrow> run_publisher sv cfg s run_directory token))))"

definition run_environment :: "runner_settings \<Rightarrow> (pystr \<times> pystr) list" where
  "run_environment cfg =
     (case rs_reportportal_api_key cfg of
        Some token \<Rightarrow> if rs_reportportal_enabled cfg then [(lit ''RP_API_KEY'', token)] else []
      | None \<Rightarrow> [])"

definition finish_run ::
  "'w service \<Rightarrow> operation_state \<Rightarrow> process_result \<Rightarrow> ppath option \<Rightarrow> test_summary option \<Rightarrow> pystr option
     \<Rightarrow> state_update list \<Rightarrow> ('w, unit) service_io" where
  \<comment> \<open>the end of the \<^verbatim>\<open>try\<close> block: the outcome is the exit code of pytest\<close>
  "finish_run sv s result run_directory summary junit_message updates =
     finish sv s (if pr_exit_code result = 0 then PASSED else FAILED) (Some (pr_exit_code result))
       ([SetArtifactDirectory (map_option path_str run_directory), SetSummary summary,
         SetJunitMessage junit_message] @ updates)"

definition report_run ::
  "'w service \<Rightarrow> runner_settings \<Rightarrow> operation_state \<Rightarrow> ppath \<Rightarrow> process_result \<Rightarrow> ('w, unit) service_io" where
  \<comment> \<open>the \<^verbatim>\<open>try\<close> block of \<^verbatim>\<open>_execute_test_run\<close> after pytest has ended\<close>
  "report_run sv cfg s expected' result =
     io_bind (read_reportportal_result (sv_http sv) cfg (op_id s)) (\<lambda>report_updates.
     io_bind cancel_requested (\<lambda>cancelled.
     if cancelled then
       io_bind (allocated_directory sv expected') (\<lambda>d.
       finish sv s CANCELLED (Some (pr_exit_code result)) ([SetArtifactDirectory d] @ report_updates))
     else
       io_bind (outer (sv_files sv)) (\<lambda>fs.
       if \<not> fs_is_dir fs expected' then finish_run sv s result None None None report_updates
       else
         io_bind (read_summary sv cfg expected') (\<lambda>(summary, junit_message).
         if \<not> rs_allure_enabled cfg
         then finish_run sv s result (Some expected') summary junit_message report_updates
         else
           io_bind (publish_allure sv cfg s expected') (\<lambda>published.
           io_bind cancel_requested (\<lambda>cancelled.
           if cancelled
           then finish sv s CANCELLED (Some (pr_exit_code result))
             ([SetArtifactDirectory (Some (path_str expected')), SetSummary summary] @ report_updates @ published)
           else finish_run sv s result (Some expected') summary junit_message
             (report_updates @ published)))))))"

definition run_body ::
  "'w service \<Rightarrow> runner_settings \<Rightarrow> operation_state \<Rightarrow> pystr list \<Rightarrow> ppath \<Rightarrow> ('w, unit) service_io" where
  "run_body sv cfg s command expected' =
     io_bind (sv_run sv command (run_environment cfg)) (report_run sv cfg s expected')"

definition execute_test_run ::
  "'w service \<Rightarrow> runner_settings \<Rightarrow> operation_state \<Rightarrow> pystr list \<Rightarrow> ('w, unit) service_io" where
  "execute_test_run sv cfg s command =
     (case op_run_id s of
        None \<Rightarrow> raising (raise_txt PyRuntimeError ''test operation has no pytest run identity'')
      | Some run_id \<Rightarrow>
          let expected = path_join (rs_artifacts_directory cfg) (parse_path run_id) in
          try_except (run_body sv cfg s command expected) (\<lambda>e.
            if caught_by e PyTimeoutError then
              io_then (sv_cancel sv (op_container_name s))
              (io_bind (read_reportportal_result (sv_http sv) cfg (op_id s)) (\<lambda>report_updates.
               io_bind (allocated_directory sv expected) (\<lambda>d.
               finish sv s TIMED_OUT None ([SetMessage [Txt (lit ''Hardware test run timed out'')],
                 SetArtifactDirectory d] @ report_updates))))
            else
              io_bind (allocated_directory sv expected) (\<lambda>d.
              finish sv s INFRASTRUCTURE_ERROR None [SetMessage (exn_message e), SetArtifactDirectory d])))"

section \<open>The handlers\<close>

record accepted =
  ac_id :: pystr
  ac_status :: operation_status

definition accepted_of :: "operation_state \<Rightarrow> accepted" where
  "accepted_of s = \<lparr>ac_id = op_id s, ac_status = op_status s\<rparr>"

definition start_task :: "'w service \<Rightarrow> operation_state \<Rightarrow> ('w, unit) service_io" where
  \<comment> \<open>\<^verbatim>\<open>_start\<close>, under the lock; the task it creates runs later\<close>
  "start_task sv s =
     io_bind store_read (\<lambda>current.
     io_bind (inner (reading co_task)) (\<lambda>task.
     if task = Active then
       (case current of
          None \<Rightarrow> raising (raise_txt PyRuntimeError ''active task has no state'')
        | Some c \<Rightarrow> raising (Exn RunnerBusyError [Txt (op_id c), Txt (lit ''another operation is already running'')]))
     else
       io_then (inner (modifying (\<lambda>c. c\<lparr>co_cancel_requested := False\<rparr>)))
       (io_then (outer (sv_reset_log sv))
       (io_then (store_write sv s)
         (inner (modifying (\<lambda>c. c\<lparr>co_task := Active\<rparr>)))))))"

definition new_id :: "'w service \<Rightarrow> string \<Rightarrow> ('w, pystr) service_io" where
  "new_id sv prefix' = io_bind (outer (sv_uuid4_hex sv)) (\<lambda>u. returning (lit prefix' @ [45] @ u))"

definition start_build :: "'w service \<Rightarrow> pystr \<Rightarrow> ('w, accepted) service_io" where
  "start_build sv revision =
     io_bind (new_id sv ''build'') (\<lambda>operation_id.
     io_bind (outer (sv_now sv)) (\<lambda>now.
     let s = (started now operation_id BUILD_IMAGE BUILDING)\<lparr>op_message :=
       Some [Txt (lit ''Building configured checkout revision ''), quoted revision]\<rparr>
     in io_then (start_task sv s) (returning (accepted_of s))))"

definition start_pull :: "'w service \<Rightarrow> runner_settings \<Rightarrow> pystr \<Rightarrow> ('w, accepted) service_io" where
  "start_pull sv cfg reference =
     io_bind (lifting (pull_image cfg reference)) (\<lambda>command.
     io_bind (new_id sv ''pull'') (\<lambda>operation_id.
     io_bind (outer (sv_now sv)) (\<lambda>now.
     let s = (started now operation_id PULL_IMAGE PULLING)\<lparr>op_image_reference := Some reference\<rparr>
     in io_then (start_task sv s) (returning (accepted_of s)))))"

definition start_run ::
  "'w service \<Rightarrow> runner_settings \<Rightarrow> pystr \<Rightarrow> pystr \<Rightarrow> pystr \<Rightarrow> ('w, accepted) service_io" where
  "start_run sv cfg img stand scenario =
     io_bind (new_id sv ''run'') (\<lambda>operation_id.
     io_bind (outer (sv_now sv)) (\<lambda>now.
     let s = (started now operation_id RUN_TESTS RUNNING)\<lparr>op_run_id := Some operation_id,
       op_image_reference := Some img, op_stand := Some stand, op_scenario := Some scenario,
       op_container_name := Some (run_container_name operation_id)\<rparr>
     in
       io_bind (lifting (run_tests_command cfg operation_id operation_id img stand scenario)) (\<lambda>command.
       io_then (start_task sv s) (returning (accepted_of s)))))"

definition cancel_operation :: "'w service \<Rightarrow> ('w, operation_state) service_io" where
  "cancel_operation sv =
     io_bind store_read (\<lambda>current.
     io_bind (inner (reading co_task)) (\<lambda>task.
     case current of
       None \<Rightarrow> raising (raise_txt NoActiveOperationError '''')
     | Some s \<Rightarrow>
         if is_terminal (op_status s) \<or> task = NoTask
         then raising (raise_txt NoActiveOperationError '''')
         else
           io_then (inner (modifying (\<lambda>c. c\<lparr>co_cancel_requested := True\<rparr>)))
           (io_then (sv_cancel sv (op_container_name s)) (returning s))))"

definition shutdown :: "'w service \<Rightarrow> ('w, unit) service_io" where
  \<comment> \<open>the task ends at its await by the cancellation, which no handler of its catches\<close>
  "shutdown sv =
     io_bind (inner (reading co_task)) (\<lambda>task.
     if task \<noteq> Active then returning ()
     else
       io_bind store_read (\<lambda>current.
       io_then (sv_cancel sv (case current of None \<Rightarrow> None | Some s \<Rightarrow> op_container_name s))
         (inner (modifying (\<lambda>c. c\<lparr>co_task := Finished\<rparr>)))))"

definition recover :: "'w service \<Rightarrow> ('w, operation_state option) service_io" where
  \<comment> \<open>\<^verbatim>\<open>StateStore.mark_interrupted\<close>: the file is written only when the state changes\<close>
  "recover sv =
     io_bind store_read (\<lambda>current.
     case mark_interrupted current of
       None \<Rightarrow> returning None
     | Some s \<Rightarrow>
         io_then (io_when (Some s \<noteq> current) (store_write sv s)) (returning (Some s)))"

section \<open>Every operation ends\<close>

text \<open>The state file holds the outcome of operation \<open>s\<close>.\<close>

definition ended :: "operation_state \<Rightarrow> coordinator \<Rightarrow> bool" where
  "ended s c \<longleftrightarrow> (\<exists>s'. co_current c = Some s' \<and> op_id s' = op_id s \<and> is_terminal (op_status s') \<and>
     op_finished_at s' \<noteq> None \<and> op_container_name s' = None)"

text \<open>The clock, the state file and the file system's answers do not raise; reading a report and the
  HTTP calls return, but may raise anything.\<close>

definition steady :: "'w service \<Rightarrow> bool" where
  "steady sv \<longleftrightarrow>
     io_raises (\<lambda>_. False) (sv_now sv) \<and> (\<forall>s. io_raises (\<lambda>_. False) (sv_persist sv s)) \<and>
     io_raises (\<lambda>_. False) (sv_files sv) \<and> (\<forall>p. io_raises (\<lambda>_. True) (sv_junit sv p)) \<and>
     (\<forall>t h p q k. io_raises (\<lambda>_. True) (ht_request (sv_http sv) t h p q k)) \<and>
     io_raises (\<lambda>_. True) (ht_response (sv_http sv)) \<and> io_raises (\<lambda>_. True) (ht_close (sv_http sv))"

text \<open>Moreover running a command returns, whatever it raises, and stopping one does not raise.
  \<open>Runner_Processes\<close> proves this of the process runner under its timeout.\<close>

definition dependable :: "'w service \<Rightarrow> bool" where
  "dependable sv \<longleftrightarrow> steady sv \<and> (\<forall>n. io_raises (\<lambda>_. False) (sv_cancel sv n)) \<and>
     (\<forall>c e. io_raises (\<lambda>_. True) (sv_run sv c e))"

definition ending :: "operation_state \<Rightarrow> exn + unit \<Rightarrow> 'w \<times> coordinator \<Rightarrow> bool" where
  "ending s r a \<longleftrightarrow> (\<forall>u. r = Inr u \<longrightarrow> ended s (snd a))"

lemma finish_ends:
  assumes "is_terminal status"
  shows "io_post P (finish sv s status code updates) (ending s)"
  using assms
  by (auto simp: io_post_def ending_def finish_def store_write_def finished_state_def ended_def
      io_cases run_simps elim!: allE)

text \<open>Whatever ran before the last \<open>finish\<close> of a body does not matter.\<close>

lemma post_bind_any:
  assumes "\<And>x. io_post (\<lambda>_. True) (f x) (ending s)"
  shows "io_post (\<lambda>_. True) (io_bind m f) (ending s)"
  using assms unfolding io_post_def
  by (auto simp: io_bind_def ending_def split: option.splits sum.splits)

lemma post_handler:
  assumes "io_post (\<lambda>_. True) m (ending s)" and "\<And>e. io_post (\<lambda>_. True) (h e) (ending s)"
  shows "io_post (\<lambda>_. True) (try_except m h) (ending s)"
  using assms unfolding io_post_def
  by (auto simp: try_except_def ending_def split: option.splits sum.splits)

lemma ending_raise: "io_post P (raising e) (ending s)"
  by (simp add: io_post_def ending_def run_simps)

lemma terminal_statuses [simp]:
  "is_terminal CANCELLED" "is_terminal FAILED" "is_terminal PASSED" "is_terminal SUCCEEDED"
  "is_terminal TIMED_OUT" "is_terminal INFRASTRUCTURE_ERROR"
  by (simp_all add: is_terminal_def)

lemma image_operation_ending:
  "io_post (\<lambda>_. True) (execute_image_operation sv s command reference) (ending s)"
  unfolding execute_image_operation_def image_body_def
  by (intro post_handler post_bind_any io_post_if finish_ends) simp_all

lemma test_run_ending: "io_post (\<lambda>_. True) (execute_test_run sv cfg s command) (ending s)"
  unfolding execute_test_run_def run_body_def report_run_def finish_run_def Let_def
  by (auto split: option.split prod.split intro!: post_handler post_bind_any finish_ends ending_raise)

lemma dependable_finish: "dependable sv \<Longrightarrow> io_raises K (finish sv s status code updates)"
  unfolding finish_def store_write_def dependable_def steady_def
  by (intro io_raises_intros) (auto elim: io_raises_weaken)

lemma dependable_ops:
  assumes "dependable sv"
  shows "io_raises K (outer (sv_files sv))" "io_raises K (sv_cancel sv n)"
    "io_raises (\<lambda>_. True) (sv_run sv c e)" "io_raises K cancel_requested"
    "io_raises K (allocated_directory sv p)" "io_raises K (store_write sv s)"
  using assms unfolding dependable_def steady_def cancel_requested_def allocated_directory_def store_write_def
  by (auto intro!: io_raises_intros elim: io_raises_weaken)

lemma io_raises_True: "io_raises K m \<Longrightarrow> io_raises (\<lambda>_. True) m"
  by (rule io_raises_weaken) simp_all

lemma dependable_image_body:
  "dependable sv \<Longrightarrow> io_raises (\<lambda>_. True) (image_body sv s command reference)"
  unfolding image_body_def by (intro io_raises_bind io_raises_if dependable_ops dependable_finish)

text \<open>A service on which every process succeeds with the output \<^verbatim>\<open>sha256:1\<close> and time stands still.\<close>

definition idle_service :: "'w service" where
  "idle_service = \<lparr>sv_now = returning 0, sv_uuid4_hex = returning [48], sv_persist = (\<lambda>s. returning ()),
     sv_reset_log = returning (),
     sv_files = returning \<lparr>fs_resolve = (\<lambda>p. p), fs_is_file = (\<lambda>p. False), fs_is_dir = (\<lambda>p. False),
       fs_size = (\<lambda>p. Inr 0), fs_mtime = (\<lambda>p. Inr 0), fs_iterdir = (\<lambda>p. Inr [])\<rparr>,
     sv_junit = (\<lambda>p. raising (raise_txt PyValueError ''no report'')),
     sv_http = \<lparr>ht_request = (\<lambda>t h p q k. returning ()), ht_response = returning (404, []),
       ht_close = returning (), ht_urlencode = (\<lambda>q. []), ht_launch_page = (\<lambda>b. Inr [])\<rparr>,
     sv_run = (\<lambda>c e. returning \<lparr>pr_exit_code = 0, pr_output = lit ''sha256:1''\<rparr>),
     sv_cancel = (\<lambda>n. returning ())\<rparr>"

definition idle_coordinator :: coordinator where
  "idle_coordinator = \<lparr>co_task = NoTask, co_cancel_requested = False, co_current = None\<rparr>"

definition sample_run :: operation_state where
  "sample_run = (started 0 (lit ''run-0'') RUN_TESTS RUNNING)\<lparr>op_run_id := Some (lit ''run-0'')\<rparr>"

lemma idle_dependable: "dependable idle_service"
  by (simp add: dependable_def steady_def idle_service_def io_raises_def run_simps)

lemmas sample_run_simps = idle_service_def idle_coordinator_def sample_run_def started_def
  execute_test_run_def run_body_def report_run_def finish_run_def finish_def finished_state_def
  store_write_def store_read_def cancel_requested_def read_reportportal_result_def
  default_runner_settings_def run_environment_def apply_updates_def io_bind_def try_except_def
  outer_def inner_def run_simps Let_def allocated_directory_def

text \<open>
  An image operation always ends: once its task runs, whatever the processes do or raise and
  whatever the other handlers do meanwhile, it returns with a final status in the state file,
  under the operation's id, with an end time and no container.
\<close>

lemma image_operation_ends:
  assumes "dependable sv"
  shows "\<exists>a'. execute_image_operation sv s command reference a = Some (Inr (), a') \<and> ended s (snd a')"
proof -
  have "io_raises (\<lambda>_. False) (execute_image_operation sv s command reference)"
    unfolding execute_image_operation_def
    by (rule io_raises_try_except [OF dependable_image_body [OF assms]])
      (intro io_raises_if io_raises_bind dependable_ops dependable_finish assms)
  then obtain r a' where run: "execute_image_operation sv s command reference a = Some (r, a')" "\<forall>e. r \<noteq> Inl e"
    using io_raisesD [where w = a] by blast
  with image_operation_ending [of sv s command reference] have "ending s r a'" by (auto dest: io_postD)
  with run show ?thesis by (cases r) (auto simp: ending_def)
qed

lemma image_operation_ends_witness:
  "\<exists>a'. execute_image_operation idle_service sample_run [lit ''docker''] (lit ''x'') ((), idle_coordinator)
     = Some (Inr (), a') \<and> ended sample_run (snd a')"
  by (rule image_operation_ends [OF idle_dependable])

lemma dependable_http:
  assumes "dependable sv" shows "io_raises K (read_reportportal_result (sv_http sv) cfg i)"
proof -
  have "io_raises (\<lambda>_. True) (find_launch (sv_http sv) cfg i)"
    using assms unfolding find_launch_def Let_def dependable_def steady_def
    by (auto split: option.split prod.split intro!: io_raises_finally io_raises_intros)
  then show ?thesis
    unfolding read_reportportal_result_def
    by (auto intro!: io_raises_if io_raises_simple io_raises_try_except [where L = "\<lambda>_. True"] io_raises_bind)
qed

lemma dependable_summary:
  "dependable sv \<Longrightarrow> io_raises (\<lambda>_. True) (read_summary sv cfg d)"
  unfolding read_summary_def
  by (auto split: option.split intro!: io_raises_intros dependable_ops(1)
      io_raises_try_except [where L = "\<lambda>_. True"] simp: dependable_def steady_def)

lemma dependable_publish:
  "dependable sv \<Longrightarrow> io_raises (\<lambda>_. True) (publish_allure sv cfg s d)"
  unfolding publish_allure_def run_publisher_def
  by (auto split: option.split intro!: io_raises_bind io_raises_simple io_raises_if dependable_ops
      io_raises_try_except [where L = "\<lambda>_. True"])

lemma dependable_run_body:
  "dependable sv \<Longrightarrow> io_raises (\<lambda>_. True) (run_body sv cfg s command expected')"
  unfolding run_body_def report_run_def finish_run_def
  by (auto split: prod.split intro!: io_raises_bind io_raises_if dependable_ops dependable_finish
      dependable_http dependable_summary dependable_publish)

text \<open>So does a test run: whatever its processes and ReportPortal answer or raise.\<close>

lemma test_run_ends:
  assumes "dependable sv" and "op_run_id s \<noteq> None"
  shows "\<exists>a'. execute_test_run sv cfg s command a = Some (Inr (), a') \<and> ended s (snd a')"
proof -
  obtain run_id where run_id: "op_run_id s = Some run_id" using assms(2) by auto
  have "io_raises (\<lambda>_. False) (execute_test_run sv cfg s command)"
    unfolding execute_test_run_def run_id option.case Let_def
    by (rule io_raises_try_except [OF dependable_run_body [OF assms(1)]])
      (intro io_raises_if io_raises_bind dependable_ops dependable_finish dependable_http assms(1))
  then obtain r a' where run: "execute_test_run sv cfg s command a = Some (r, a')" "\<forall>e. r \<noteq> Inl e"
    using io_raisesD [where w = a] by blast
  with test_run_ending [of sv cfg s command] have "ending s r a'" by (auto dest: io_postD)
  with run show ?thesis by (cases r) (auto simp: ending_def)
qed

lemma test_run_ends_witness:
  "\<exists>a'. execute_test_run idle_service default_runner_settings sample_run [lit ''docker''] ((), idle_coordinator)
     = Some (Inr (), a') \<and> ended sample_run (snd a')"
  by (rule test_run_ends [OF idle_dependable]) (simp add: sample_run_def)

section \<open>A pass is a pass\<close>

text \<open>A run is recorded as passed or failed only by what its pytest process reported, and only
  where no cancellation has been requested.\<close>

abbreviation free :: "'w \<times> coordinator \<Rightarrow> bool" where
  "free a \<equiv> \<not> co_cancel_requested (snd a)"

definition verdict ::
  "('w, process_result) service_io \<Rightarrow> 'w \<times> coordinator \<Rightarrow> operation_state \<Rightarrow> exn + unit \<Rightarrow> 'w \<times> coordinator \<Rightarrow> bool" where
  "verdict run a s r a' \<longleftrightarrow>
     (\<forall>u s'. r = Inr u \<longrightarrow> co_current (snd a') = Some s' \<longrightarrow> op_status s' \<in> {PASSED, FAILED} \<longrightarrow>
        (\<exists>result a1. run a = Some (Inr result, a1) \<and> op_exit_code s' = Some (pr_exit_code result) \<and>
          (op_status s' = PASSED \<longleftrightarrow> pr_exit_code result = 0)) \<and> free a')"

lemma verdict_bind_any:
  assumes "\<And>x. io_post (\<lambda>_. True) (f x) (verdict run a s)"
  shows "io_post P (io_bind m f) (verdict run a s)"
  using assms unfolding io_post_def
  by (auto simp: io_bind_def verdict_def split: option.splits sum.splits)

lemma verdict_bind_free:
  assumes "io_keeps free m" and "\<And>x. io_post free (f x) (verdict run a s)"
  shows "io_post free (io_bind m f) (verdict run a s)"
  unfolding io_post_def
proof (intro allI impI)
  fix w r w' assume w: "free w" and run: "io_bind m f w = Some (r, w')"
  show "verdict run a s r w'"
  proof (cases r)
    case (Inr y)
    with run obtain x w1 where w1: "m w = Some (Inr x, w1)" "f x w1 = Some (r, w')" by (auto simp: io_cases)
    from io_keepsD [OF assms(1) w1(1) w] io_postD [OF assms(2) w1(2)] show ?thesis by blast
  qed (simp add: verdict_def)
qed

lemma verdict_checked:
  assumes "io_post (\<lambda>_. True) m (verdict run a s)" and "io_post free n (verdict run a s)"
  shows "io_post P (io_bind cancel_requested (\<lambda>cancelled. if cancelled then m else n)) (verdict run a s)"
  using assms unfolding io_post_def
  by (auto simp: io_bind_def cancel_requested_def inner_def run_simps split: if_splits)

lemma verdict_finish:
  assumes "status \<in> {CANCELLED, TIMED_OUT, INFRASTRUCTURE_ERROR}"
  shows "io_post P (finish sv s status code updates) (verdict run a s)"
  using assms
  by (auto simp: io_post_def verdict_def finish_def store_write_def finished_state_def io_cases run_simps)

lemma verdict_finish_run:
  assumes "run a = Some (Inr result, a1)"
  shows "io_post free (finish_run sv s result d summary m updates) (verdict run a s)"
  using assms
  by (auto simp: io_post_def verdict_def finish_run_def finish_def store_write_def finished_state_def
      io_cases run_simps)

lemma verdict_handler:
  assumes "io_post P m (verdict run a s)" and "\<And>e. io_post (\<lambda>_. True) (h e) (verdict run a s)"
  shows "io_post P (try_except m h) (verdict run a s)"
  using assms unfolding io_post_def
  by (auto simp: try_except_def verdict_def split: option.splits sum.splits)

lemma verdict_first:
  assumes "\<And>result a1. run a = Some (Inr result, a1) \<Longrightarrow> io_post (\<lambda>_. True) (f result) (verdict run a s)"
  shows "io_post (\<lambda>x. x = a) (io_bind run f) (verdict run a s)"
  unfolding io_post_def
proof (intro allI impI)
  fix x r a' assume x: "x = a" and run: "io_bind run f x = Some (r, a')"
  show "verdict run a s r a'"
  proof (cases "run a")
    case None
    with run x show ?thesis by (simp add: run_bind)
  next
    case (Some q)
    then obtain y a1 where q: "run a = Some (y, a1)" by (cases q) auto
    show ?thesis
    proof (cases y)
      case (Inl e)
      with q run x show ?thesis by (auto simp: run_bind verdict_def)
    next
      case (Inr result)
      with q run x have "f result a1 = Some (r, a')" by (simp add: run_bind)
      with io_postD [OF assms [OF q [unfolded Inr]]] show ?thesis by simp
    qed
  qed
qed

lemma free_outer: "io_keeps free (outer m)"
  by (auto simp: io_keeps_def outer_Some)

lemma read_summary_free: "io_keeps free (read_summary sv cfg d)"
  unfolding read_summary_def
  by (auto split: option.split intro!: io_keeps_bind io_keeps_intros io_keeps_try_except free_outer)

lemma report_run_verdict:
  assumes "run a = Some (Inr result, a1)"
  shows "io_post (\<lambda>_. True) (report_run sv cfg s d result) (verdict run a s)"
  unfolding report_run_def
  by (auto split: prod.split intro!: verdict_bind_any [where m = "read_reportportal_result _ _ _"]
      verdict_bind_any [where m = "publish_allure _ _ _ _"] verdict_bind_any [where m = "allocated_directory _ _"]
      verdict_checked verdict_bind_free free_outer read_summary_free io_post_if verdict_finish
      verdict_finish_run [where run = run] assms)

lemma test_run_verdict:
  "io_post (\<lambda>x. x = a) (execute_test_run sv cfg s command)
     (verdict (sv_run sv command (run_environment cfg)) a s)"
proof (cases "op_run_id s")
  case None
  then show ?thesis by (simp add: execute_test_run_def io_post_def verdict_def run_simps)
next
  case (Some run_id)
  show ?thesis
    unfolding execute_test_run_def Some option.case Let_def run_body_def
    by (intro verdict_handler verdict_first report_run_verdict io_post_if verdict_bind_any verdict_finish)
      simp_all
qed

text \<open>
  C13. No run is reported as passed or failed but by pytest itself: if the state file shows one
  of the two after a test run, the pytest container ran to its end, its exit code is recorded,
  and the status is "passed" exactly when that code is 0.
\<close>

theorem no_false_verdict:
  assumes "execute_test_run sv cfg s command a = Some (Inr u, a')"
    and "co_current (snd a') = Some s'" and "op_status s' \<in> {PASSED, FAILED}"
  shows "\<exists>result a1. sv_run sv command (run_environment cfg) a = Some (Inr result, a1) \<and>
    op_exit_code s' = Some (pr_exit_code result) \<and> (op_status s' = PASSED \<longleftrightarrow> pr_exit_code result = 0)"
proof -
  have "verdict (sv_run sv command (run_environment cfg)) a s (Inr u) a'"
    using io_postD [OF test_run_verdict assms(1)] by simp
  then show ?thesis using assms(2,3) unfolding verdict_def by blast
qed

theorem no_false_verdict_witness:
  "\<exists>a' s'. execute_test_run idle_service default_runner_settings sample_run [lit ''docker''] ((), idle_coordinator)
       = Some (Inr (), a') \<and> co_current (snd a') = Some s' \<and> op_status s' = PASSED \<and>
     (\<exists>result a1. sv_run idle_service [lit ''docker''] [] ((), idle_coordinator) = Some (Inr result, a1) \<and>
       op_exit_code s' = Some (pr_exit_code result) \<and> pr_exit_code result = 0)"
proof -
  obtain a' s' where run: "execute_test_run idle_service default_runner_settings sample_run [lit ''docker'']
      ((), idle_coordinator) = Some (Inr (), a')" "co_current (snd a') = Some s'" "op_status s' = PASSED"
    by (simp add: sample_run_simps)
  from run(3) have "op_status s' \<in> {PASSED, FAILED}" by simp
  from no_false_verdict [OF run(1,2) this] run show ?thesis
    by (auto simp: run_environment_def default_runner_settings_def)
qed

section \<open>One operation at a time\<close>

text \<open>
  What the handlers and the task do to the coordinator, one undisturbed stretch at a time. A
  task that ends without recording an outcome does so by an exception out of its last
  \<open>finish\<close> or by cancellation at shutdown.
\<close>

inductive service_step :: "'w service \<Rightarrow> 'w \<times> coordinator \<Rightarrow> 'w \<times> coordinator \<Rightarrow> bool" for sv where
  starting: "\<not> is_terminal (op_status s) \<Longrightarrow> start_task sv s a = Some (r, a') \<Longrightarrow> service_step sv a a'"
| cancelling: "co_current c = Some s \<Longrightarrow> \<not> is_terminal (op_status s) \<Longrightarrow> co_task c \<noteq> NoTask
    \<Longrightarrow> service_step sv (w, c) (w', c\<lparr>co_cancel_requested := True\<rparr>)"
| publishing: "co_task c = Active \<Longrightarrow> co_current c = Some s
    \<Longrightarrow> store_write sv (s\<lparr>op_container_name := n\<rparr>) (w, c) = Some (r, a') \<Longrightarrow> service_step sv (w, c) a'"
| ending: "co_task c = Active \<Longrightarrow> co_current c = Some s \<Longrightarrow> is_terminal status
    \<Longrightarrow> finish sv s status code updates (w, c) = Some (Inr u, (w', c'))
    \<Longrightarrow> service_step sv (w, c) (w', c'\<lparr>co_task := Finished\<rparr>)"
| dying: "co_task c = Active \<Longrightarrow> service_step sv (w, c) (w', c\<lparr>co_task := Finished\<rparr>)"
| processes: "service_step sv (w, c) (w', c)"
| restarting: "service_step sv (w, c) (w', \<lparr>co_task = NoTask, co_cancel_requested = False,
    co_current = mark_interrupted (co_current c)\<rparr>)"

inductive service_reachable :: "'w service \<Rightarrow> 'w \<times> coordinator \<Rightarrow> bool" for sv where
  initial: "service_reachable sv (w, \<lparr>co_task = NoTask, co_cancel_requested = False, co_current = None\<rparr>)"
| moving: "service_reachable sv a \<Longrightarrow> service_step sv a a' \<Longrightarrow> service_reachable sv a'"

definition service_inv :: "coordinator \<Rightarrow> bool" where
  "service_inv c \<longleftrightarrow>
     (co_task c = Active \<longrightarrow> (\<exists>s. co_current c = Some s \<and> \<not> is_terminal (op_status s))) \<and>
     (co_task c = NoTask \<longrightarrow> (\<forall>s. co_current c = Some s \<longrightarrow> is_terminal (op_status s)))"

lemma store_write_result:
  "store_write sv s (w, c) = Some (r, (w', c')) \<Longrightarrow> c' = c \<or> c' = c\<lparr>co_current := Some s\<rparr>"
  by (cases r) (auto simp: store_write_def io_cases run_simps)

lemma start_task_result:
  assumes "start_task sv s (w, c) = Some (r, (w', c'))" and "co_task c \<noteq> Active"
  shows "(\<exists>u. r = Inr u) \<and> c' = \<lparr>co_task = Active, co_cancel_requested = False, co_current = Some s\<rparr> \<or>
    (\<exists>e. r = Inl e) \<and> co_task c' = co_task c \<and> co_current c' = co_current c"
  using assms
  by (cases r; cases c) (auto simp: start_task_def store_read_def store_write_def io_cases run_simps)

lemma start_task_busy:
  assumes "co_task c = Active" and "co_current c = Some s0"
  shows "start_task sv s (w, c) = Some (Inl (Exn RunnerBusyError [Txt (op_id s0),
    Txt (lit ''another operation is already running'')]), (w, c))"
  using assms by (simp add: start_task_def store_read_def io_bind_def inner_def run_simps)

lemma service_inv_step:
  assumes "service_step sv a a'" and "service_inv (snd a)" shows "service_inv (snd a')"
  using assms
proof cases
  case (starting s r)
  obtain w c w' c' where a: "a = (w, c)" "a' = (w', c')" by (cases a; cases a') auto
  show ?thesis
  proof (cases "co_task c = Active")
    case True
    with assms(2) a obtain s0 where "co_current c = Some s0" by (auto simp: service_inv_def)
    with start_task_busy [OF True this, of sv s w] starting a assms(2) show ?thesis by auto
  next
    case False
    with start_task_result [of sv s w c r w' c'] starting a assms(2) show ?thesis
      by (auto simp: service_inv_def)
  qed
next
  case (publishing c s n w r)
  then show ?thesis
    using assms(2) store_write_result [of sv "s\<lparr>op_container_name := n\<rparr>" w c r "fst a'" "snd a'"]
    by (auto simp: service_inv_def)
next
  case (ending c s status code updates w u w' c')
  then show ?thesis by (simp add: service_inv_def)
next
  case (restarting w c w')
  then show ?thesis by (auto simp: service_inv_def dest: mark_interrupted_terminal)
qed (auto simp: service_inv_def)

lemma service_inv_reachable: "service_reachable sv a \<Longrightarrow> service_inv (snd a)"
proof (induction rule: service_reachable.induct)
  case (initial w)
  then show ?case by (simp add: service_inv_def)
qed (rule service_inv_step)

text \<open>Stopping the service leaves no task, and starting it again no unfinished operation.\<close>

lemma shutdown_stops: "shutdown sv a = Some (Inr u, a') \<Longrightarrow> co_task (snd a') \<noteq> Active"
  by (cases a; cases a') (auto simp: shutdown_def io_cases run_simps split: if_splits)

lemma recover_cleans:
  assumes "recover sv (w, c) = Some (Inr q, (w', c'))"
  shows "c' = c\<lparr>co_current := mark_interrupted (co_current c)\<rparr> \<and> q = co_current c' \<and>
    (\<forall>s. co_current c' = Some s \<longrightarrow> is_terminal (op_status s))"
proof -
  have "c' = c\<lparr>co_current := mark_interrupted (co_current c)\<rparr> \<and> q = mark_interrupted (co_current c)"
    using assms
    by (cases "mark_interrupted (co_current c)")
      (auto simp: recover_def store_read_def store_write_def io_cases run_simps io_when_def mark_interrupted_def
        split: if_splits option.splits)
  then show ?thesis using mark_interrupted_terminal [of "co_current c"] by auto
qed

text \<open>
  C1. The service runs one operation at a time: in every state it can reach, starting an
  operation while a task is active changes nothing and is refused with \<^verbatim>\<open>RunnerBusyError\<close>, which
  names the operation that is running, and the active operation is one the state file shows
  as not ended; otherwise a start that returns has recorded the new operation and its task
  begins with no cancellation pending. After a restart no operation is left unfinished.
\<close>

theorem one_operation_at_a_time:
  assumes "service_reachable sv (w, c)"
  shows "(co_task c = Active \<longrightarrow> (\<exists>s0 m. co_current c = Some s0 \<and> \<not> is_terminal (op_status s0) \<and>
      start_task sv s (w, c) = Some (Inl (Exn RunnerBusyError (Txt (op_id s0) # m)), (w, c))))
    \<and> (co_task c \<noteq> Active \<longrightarrow> start_task sv s (w, c) = Some (Inr u, (w', c')) \<longrightarrow>
      co_current c' = Some s \<and> co_task c' = Active \<and> \<not> co_cancel_requested c')
    \<and> (co_task c = NoTask \<longrightarrow> (\<forall>s. co_current c = Some s \<longrightarrow> is_terminal (op_status s)))"
proof -
  from service_inv_reachable [OF assms] have inv: "service_inv c" by simp
  then show ?thesis
    using start_task_busy [of c _ sv s w] start_task_result [of sv s w c "Inr u" w' c']
    by (auto simp: service_inv_def)
qed

theorem one_operation_at_a_time_witness:
  "\<exists>a. start_task idle_service sample_run ((), idle_coordinator) = Some (Inr (), ((), a)) \<and>
     co_current a = Some sample_run \<and> co_task a = Active \<and>
     (\<exists>m. start_task idle_service sample_run ((), a)
        = Some (Inl (Exn RunnerBusyError (Txt (lit ''run-0'') # m)), ((), a)))"
proof -
  obtain a where run: "start_task idle_service sample_run ((), idle_coordinator) = Some (Inr (), ((), a))"
    by (simp add: start_task_def sample_run_simps)
  have reach: "service_reachable idle_service ((), idle_coordinator)"
    unfolding idle_coordinator_def by (rule service_reachable.initial)
  have new: "co_current a = Some sample_run \<and> co_task a = Active"
    using one_operation_at_a_time [OF reach] run by (simp add: idle_coordinator_def)
  have "service_reachable idle_service ((), a)"
    using reach by (rule service_reachable.moving)
      (rule service_step.starting [OF _ run], simp add: sample_run_def started_def is_terminal_def)
  from one_operation_at_a_time [OF this] new run show ?thesis
    by (simp add: sample_run_def started_def)
qed

end
