(* ===== verification/Oidc.thy ===== *)
theory Oidc
  imports Runner_Settings Effects Json
begin

text \<open>
  The OpenID Connect client of the test-runner service,
  \<^verbatim>\<open>src/helpers/test-runner-service/src/test_runner_service/oidc.py\<close>, with its default HTTP
  client: the discovery document and the key set with their caches, the requests to the
  provider, and the checks around \<^verbatim>\<open>jwt.decode\<close>. \<^verbatim>\<open>urlopen\<close>, \<^verbatim>\<open>urlencode\<close> and PyJWT are parameters.
  A request to the provider is awaited, so it may change the client as other requests would.
\<close>

type_synonym json_dict = "(pystr, json) dict"

record oidc_endpoints =
  ep_authorization :: pystr
  ep_token :: pystr
  ep_jwks :: pystr
  ep_end_session :: "pystr option"

record oidc_client =
  oc_endpoints :: "oidc_endpoints option"
  oc_jwks :: "json_dict option"
  oc_jwks_loaded_at :: rat

type_synonym ('w, 'a) oidc_io = "('w \<times> oidc_client, 'a) io"

record ('w, 'key) provider =
  pv_urlopen :: "pystr \<Rightarrow> bytes option \<Rightarrow> ('w, bytes) oidc_io"   \<comment> \<open>the body of the answer\<close>
  pv_wide :: "bytes \<Rightarrow> exn + pystr"
  pv_urlencode :: "(pystr \<times> pystr) list \<Rightarrow> pystr"
  pv_monotonic :: "('w, rat) io"
  pv_unverified_header :: "pystr \<Rightarrow> exn + json_dict"
  pv_from_dict :: "json_dict \<Rightarrow> exn + 'key"
  pv_decode :: "pystr \<Rightarrow> 'key \<Rightarrow> pystr \<Rightarrow> pystr \<Rightarrow> int \<Rightarrow> ('w, json_dict) io"
    \<comment> \<open>\<^verbatim>\<open>jwt.decode\<close>: token, key, audience, issuer, leeway; RS256, with the claims
      \<^verbatim>\<open>exp\<close>, \<^verbatim>\<open>iat\<close>, \<^verbatim>\<open>iss\<close>, \<^verbatim>\<open>aud\<close> and \<^verbatim>\<open>sub\<close> required\<close>

definition oidc_error :: "string \<Rightarrow> exn" where
  "oidc_error m = raise_txt OidcError m"

section \<open>The provider's documents\<close>

definition string_items :: "json option \<Rightarrow> pystr list" where
  \<comment> \<open>a set, as a list\<close>
  "string_items value =
     (case value of
        Some (JList items) \<Rightarrow> concat (map (\<lambda>i. case i of JStr s \<Rightarrow> [s] | _ \<Rightarrow> []) items)
      | _ \<Rightarrow> [])"

definition token_roles :: "json_dict \<Rightarrow> pystr \<Rightarrow> pystr set" where
  "token_roles claims client_id =
     (case map_of claims (lit ''realm_access'') of
        Some (JObj realm) \<Rightarrow> set (string_items (map_of realm (lit ''roles'')))
      | _ \<Rightarrow> {}) \<union>
     (case map_of claims (lit ''resource_access'') of
        Some (JObj resource) \<Rightarrow>
          (case map_of resource client_id of
             Some (JObj client) \<Rightarrow> set (string_items (map_of client (lit ''roles'')))
           | _ \<Rightarrow> {})
      | _ \<Rightarrow> {})"

fun find_key_in :: "json list \<Rightarrow> pystr \<Rightarrow> json_dict option" where
  "find_key_in [] kid = None"
| "find_key_in (JObj key # keys) kid =
     (if map_of key (lit ''kid'') = Some (JStr kid) then Some key else find_key_in keys kid)"
| "find_key_in (_ # keys) kid = find_key_in keys kid"

definition find_key :: "json_dict \<Rightarrow> pystr \<Rightarrow> json_dict option" where
  "find_key jwks kid =
     (case map_of jwks (lit ''keys'') of Some (JList keys) \<Rightarrow> find_key_in keys kid | _ \<Rightarrow> None)"

definition optional_endpoint :: "json_dict \<Rightarrow> string \<Rightarrow> exn + pystr option" where
  \<comment> \<open>\<^verbatim>\<open>_optional_url\<close>\<close>
  "optional_endpoint document name =
     (case map_of document (lit name) of
        None \<Rightarrow> Inr None
      | Some JNull \<Rightarrow> Inr None
      | Some (JStr s) \<Rightarrow>
          if prefix (lit ''https://'') s then Inr (Some s)
          else Inl (Exn OidcError [Txt (lit ''OIDC discovery contains an invalid ''), Txt (lit name)])
      | Some _ \<Rightarrow> Inl (Exn OidcError [Txt (lit ''OIDC discovery contains an invalid ''), Txt (lit name)]))"

definition required_endpoint :: "json_dict \<Rightarrow> string \<Rightarrow> exn + pystr" where
  "required_endpoint document name =
     try_bind (optional_endpoint document name) (\<lambda>v.
       case v of
         None \<Rightarrow> Inl (Exn OidcError [Txt (lit ''OIDC discovery is missing ''), Txt (lit name)])
       | Some s \<Rightarrow> Inr s)"

section \<open>Settings\<close>

definition not_validated :: exn where
  "not_validated = oidc_error ''OIDC settings were not validated''"

definition strip_slashes :: "pystr \<Rightarrow> pystr" where
  "strip_slashes s = rstrip_by (\<lambda>c. c = 47) s"

definition oidc_issuer_of :: "runner_settings \<Rightarrow> exn + pystr" where
  "oidc_issuer_of s = (case rs_oidc_issuer s of None \<Rightarrow> Inl not_validated | Some u \<Rightarrow> Inr (strip_slashes (u_str u)))"

definition oidc_client_id_of :: "runner_settings \<Rightarrow> exn + pystr" where
  "oidc_client_id_of s = (case rs_oidc_client_id s of None \<Rightarrow> Inl not_validated | Some i \<Rightarrow> Inr i)"

definition redirect_uri :: "runner_settings \<Rightarrow> exn + pystr" where
  "redirect_uri s = (case rs_public_url s of None \<Rightarrow> Inl not_validated
     | Some u \<Rightarrow> Inr (strip_slashes (u_str u) @ lit ''/auth/callback''))"

section \<open>Requests\<close>

definition provider_request ::
  "('w, 'key) provider \<Rightarrow> pystr \<Rightarrow> bytes option \<Rightarrow> ('w, json_dict) oidc_io" where
  \<comment> \<open>\<^verbatim>\<open>UrlLibJsonHttpClient._request\<close>\<close>
  "provider_request pv url body =
     io_bind
       (try_except
         (io_bind (pv_urlopen pv url body) (\<lambda>content. lifting (json_loads (pv_wide pv) content)))
         (\<lambda>e. if caught_by e PyOSError \<or> caught_by e PyTimeoutError \<or> caught_by e JSONDecodeError
              then raising (oidc_error ''the identity provider is unavailable'')
              else raising e))
       (\<lambda>value. case value of
          JObj d \<Rightarrow> returning d
        | _ \<Rightarrow> raising (oidc_error ''the identity provider returned an invalid response''))"

definition endpoints_of :: "pystr \<Rightarrow> json_dict \<Rightarrow> exn + oidc_endpoints" where
  "endpoints_of issuer document =
     (if map_of document (lit ''issuer'') \<noteq> Some (JStr issuer)
      then Inl (oidc_error ''the discovery issuer does not match the configured issuer'')
      else
        try_bind (required_endpoint document ''authorization_endpoint'') (\<lambda>authorization.
        try_bind (required_endpoint document ''token_endpoint'') (\<lambda>token.
        try_bind (required_endpoint document ''jwks_uri'') (\<lambda>jwks.
        try_bind (optional_endpoint document ''end_session_endpoint'') (\<lambda>end_session.
        Inr \<lparr>ep_authorization = authorization, ep_token = token, ep_jwks = jwks,
          ep_end_session = end_session\<rparr>)))))"

definition discover_endpoints :: "('w, 'key) provider \<Rightarrow> runner_settings \<Rightarrow> ('w, oidc_endpoints) oidc_io" where
  \<comment> \<open>\<^verbatim>\<open>_get_endpoints\<close> with nothing cached\<close>
  "discover_endpoints pv cfg =
     io_bind (lifting (oidc_issuer_of cfg)) (\<lambda>issuer.
     io_bind (provider_request pv (issuer @ lit ''/.well-known/openid-configuration'') None) (\<lambda>document.
     io_bind (lifting (endpoints_of issuer document)) (\<lambda>ep.
     io_then (inner (modifying (\<lambda>c. c\<lparr>oc_endpoints := Some ep\<rparr>))) (returning ep))))"

definition get_endpoints :: "('w, 'key) provider \<Rightarrow> runner_settings \<Rightarrow> ('w, oidc_endpoints) oidc_io" where
  "get_endpoints pv cfg =
     io_bind (inner (reading oc_endpoints)) (\<lambda>cached.
     case cached of Some ep \<Rightarrow> returning ep | None \<Rightarrow> discover_endpoints pv cfg)"

definition load_jwks :: "('w, 'key) provider \<Rightarrow> runner_settings \<Rightarrow> rat \<Rightarrow> ('w, json_dict) oidc_io" where
  \<comment> \<open>\<^verbatim>\<open>_get_jwks\<close> where the cache is not used\<close>
  "load_jwks pv cfg now =
     io_bind (get_endpoints pv cfg) (\<lambda>ep.
     io_bind (provider_request pv (ep_jwks ep) None) (\<lambda>jwks.
     io_then (inner (modifying (\<lambda>c. c\<lparr>oc_jwks := Some jwks\<rparr>)))
     (io_then (inner (modifying (\<lambda>c. c\<lparr>oc_jwks_loaded_at := now\<rparr>)))
       (returning jwks))))"

definition get_jwks :: "('w, 'key) provider \<Rightarrow> runner_settings \<Rightarrow> bool \<Rightarrow> ('w, json_dict) oidc_io" where
  "get_jwks pv cfg force =
     io_bind (outer (pv_monotonic pv)) (\<lambda>now.
     io_bind (inner (reading (\<lambda>c. (oc_jwks c, oc_jwks_loaded_at c)))) (\<lambda>(cached, loaded_at).
     case cached of
       None \<Rightarrow> load_jwks pv cfg now
     | Some jwks \<Rightarrow>
         if force \<or> now - loaded_at \<ge> of_int (rs_oidc_jwks_cache_seconds cfg) then load_jwks pv cfg now
         else returning jwks))"

definition signing_key :: "('w, 'key) provider \<Rightarrow> runner_settings \<Rightarrow> pystr \<Rightarrow> ('w, 'key) oidc_io" where
  \<comment> \<open>\<^verbatim>\<open>_key\<close>\<close>
  "signing_key pv cfg kid =
     io_bind (get_jwks pv cfg False) (\<lambda>jwks.
     io_bind (case find_key jwks kid of
         Some key \<Rightarrow> returning (Some key)
       | None \<Rightarrow> io_bind (get_jwks pv cfg True) (\<lambda>jwks. returning (find_key jwks kid))) (\<lambda>key.
     case key of
       None \<Rightarrow> raising (oidc_error ''the token signing key is unknown'')
     | Some k \<Rightarrow>
         try_except (lifting (pv_from_dict pv k)) (\<lambda>e.
           if caught_by e PyJWTError then raising (oidc_error ''the token signing key is invalid'')
           else raising e)))"

section \<open>Tokens\<close>

definition verify_body ::
  "('w, 'key) provider \<Rightarrow> runner_settings \<Rightarrow> pystr \<Rightarrow> pystr \<Rightarrow> ('w, json_dict) oidc_io" where
  \<comment> \<open>the \<^verbatim>\<open>try\<close> block of \<^verbatim>\<open>_verify\<close>\<close>
  "verify_body pv cfg token audience =
     io_bind (lifting (pv_unverified_header pv token)) (\<lambda>header.
     case (map_of header (lit ''alg''), map_of header (lit ''kid'')) of
       (Some (JStr alg), Some (JStr kid)) \<Rightarrow>
         if alg \<noteq> lit ''RS256'' then raising (oidc_error ''the token header is invalid'')
         else
           io_bind (signing_key pv cfg kid) (\<lambda>key.
           io_bind (lifting (oidc_issuer_of cfg)) (\<lambda>issuer.
           outer (pv_decode pv token key audience issuer (rs_oidc_clock_skew_seconds cfg))))
     | _ \<Rightarrow> raising (oidc_error ''the token header is invalid''))"

definition verify_token ::
  "('w, 'key) provider \<Rightarrow> runner_settings \<Rightarrow> pystr \<Rightarrow> pystr \<Rightarrow> ('w, json_dict) oidc_io" where
  "verify_token pv cfg token audience =
     try_except (verify_body pv cfg token audience) (\<lambda>e.
       if caught_by e OidcError then raising e
       else if caught_by e PyJWTError then raising (oidc_error ''the token is invalid'')
       else raising e)"

definition verify_id_token ::
  "('w, 'key) provider \<Rightarrow> runner_settings \<Rightarrow> pystr \<Rightarrow> pystr \<Rightarrow> ('w, json_dict) oidc_io" where
  "verify_id_token pv cfg token nonce =
     io_bind (lifting (oidc_client_id_of cfg)) (\<lambda>client_id.
     io_bind (verify_token pv cfg token client_id) (\<lambda>claims.
     if map_of claims (lit ''nonce'') \<noteq> Some (JStr nonce)
     then raising (oidc_error ''the ID token nonce is invalid'')
     else returning claims))"

definition verify_access_token ::
  "('w, 'key) provider \<Rightarrow> runner_settings \<Rightarrow> pystr \<Rightarrow> ('w, json_dict) oidc_io" where
  "verify_access_token pv cfg token =
     (case rs_oidc_audience cfg of
        None \<Rightarrow> raising not_validated
      | Some audience \<Rightarrow> verify_token pv cfg token audience)"

section \<open>Redirects and the code exchange\<close>

definition authorization_url ::
  "('w, 'key) provider \<Rightarrow> runner_settings \<Rightarrow> pystr \<Rightarrow> pystr \<Rightarrow> pystr \<Rightarrow> ('w, pystr) oidc_io" where
  "authorization_url pv cfg state nonce challenge =
     io_bind (get_endpoints pv cfg) (\<lambda>ep.
     io_bind (lifting (oidc_client_id_of cfg)) (\<lambda>client_id.
     io_bind (lifting (redirect_uri cfg)) (\<lambda>uri.
     returning (ep_authorization ep @ lit ''?'' @ pv_urlencode pv
       [(lit ''client_id'', client_id), (lit ''redirect_uri'', uri), (lit ''response_type'', lit ''code''),
        (lit ''scope'', lit ''openid profile''), (lit ''state'', state), (lit ''nonce'', nonce),
        (lit ''code_challenge'', challenge), (lit ''code_challenge_method'', lit ''S256'')]))))"

definition post_form ::
  "('w, 'key) provider \<Rightarrow> pystr \<Rightarrow> (pystr \<times> pystr) list \<Rightarrow> ('w, json_dict) oidc_io" where
  "post_form pv url data =
     io_bind (lifting (utf8_encode (pv_urlencode pv data))) (\<lambda>body. provider_request pv url (Some body))"

definition exchange_code ::
  "('w, 'key) provider \<Rightarrow> runner_settings \<Rightarrow> pystr \<Rightarrow> pystr \<Rightarrow> ('w, json_dict) oidc_io" where
  "exchange_code pv cfg code verifier =
     io_bind (get_endpoints pv cfg) (\<lambda>ep.
     case rs_oidc_client_secret cfg of
       None \<Rightarrow> raising not_validated
     | Some secret \<Rightarrow>
         io_bind (lifting (redirect_uri cfg)) (\<lambda>uri.
         io_bind (lifting (oidc_client_id_of cfg)) (\<lambda>client_id.
         io_bind (post_form pv (ep_token ep)
           [(lit ''grant_type'', lit ''authorization_code''), (lit ''code'', code), (lit ''redirect_uri'', uri),
            (lit ''client_id'', client_id), (lit ''client_secret'', secret), (lit ''code_verifier'', verifier)])
           (\<lambda>response.
           case map_of response (lit ''id_token'') of
             Some (JStr t) \<Rightarrow> returning response
           | _ \<Rightarrow> raising (oidc_error ''the identity provider did not return an ID token'')))))"

definition logout_url :: "('w, 'key) provider \<Rightarrow> runner_settings \<Rightarrow> pystr \<Rightarrow> ('w, pystr) oidc_io" where
  "logout_url pv cfg post_logout =
     io_bind (get_endpoints pv cfg) (\<lambda>ep.
     case ep_end_session ep of
       None \<Rightarrow> returning post_logout
     | Some endpoint \<Rightarrow>
         io_bind (lifting (oidc_client_id_of cfg)) (\<lambda>client_id.
         returning (endpoint @ lit ''?'' @ pv_urlencode pv
           [(lit ''client_id'', client_id), (lit ''post_logout_redirect_uri'', post_logout)])))"

section \<open>Keys come from the provider\<close>

definition https :: "pystr \<Rightarrow> bool" where
  "https u \<longleftrightarrow> prefix (lit ''https://'') u"

text \<open>What the client caches: endpoints over TLS, and a key set of which \<open>served\<close> holds.\<close>

definition oidc_inv :: "(json_dict \<Rightarrow> bool) \<Rightarrow> oidc_client \<Rightarrow> bool" where
  "oidc_inv served c \<longleftrightarrow>
     (\<forall>ep. oc_endpoints c = Some ep \<longrightarrow> https (ep_authorization ep) \<and> https (ep_token ep) \<and> https (ep_jwks ep)
       \<and> (\<forall>e. ep_end_session ep = Some e \<longrightarrow> https e)) \<and>
     (\<forall>j. oc_jwks c = Some j \<longrightarrow> served j)"

text \<open>\<open>served\<close> covers every JSON object the provider answers with over TLS, and other requests
  keep the client's invariant meanwhile.\<close>

definition provider_serves :: "(json_dict \<Rightarrow> bool) \<Rightarrow> ('w, 'key) provider \<Rightarrow> bool" where
  "provider_serves served pv \<longleftrightarrow> (\<forall>url body. https url \<longrightarrow>
     io_post (\<lambda>a. oidc_inv served (snd a)) (pv_urlopen pv url body)
       (\<lambda>r a. oidc_inv served (snd a) \<and>
         (\<forall>content d. r = Inr content \<longrightarrow> json_loads (pv_wide pv) content = Inr (JObj d) \<longrightarrow> served d)))"

text \<open>\<open>keeping\<close> is the shape of every lemma below: the invariant is kept, and a value
  satisfies \<open>P\<close>.\<close>

definition keeping ::
  "(json_dict \<Rightarrow> bool) \<Rightarrow> ('w, 'a) oidc_io \<Rightarrow> ('a \<Rightarrow> bool) \<Rightarrow> bool" where
  "keeping served m P \<longleftrightarrow>
     io_post (\<lambda>a. oidc_inv served (snd a)) m (\<lambda>r a. oidc_inv served (snd a) \<and> (\<forall>x. r = Inr x \<longrightarrow> P x))"

lemma keeping_bind:
  assumes "keeping served m P" and "\<And>x. P x \<Longrightarrow> keeping served (f x) Q"
  shows "keeping served (io_bind m f) Q"
  unfolding keeping_def
proof (rule io_post_bind [OF assms(1) [unfolded keeping_def]])
  fix x
  show "io_post (\<lambda>a. oidc_inv served (snd a) \<and> (\<forall>y. Inr x = Inr y \<longrightarrow> P y)) (f x)
      (\<lambda>r a. oidc_inv served (snd a) \<and> (\<forall>x. r = Inr x \<longrightarrow> Q x))"
    using assms(2) [of x] unfolding keeping_def io_post_def by blast
qed simp

lemma keeping_try:
  assumes "keeping served m P" and "\<And>e. keeping served (h e) P"
  shows "keeping served (try_except m h) P"
  unfolding keeping_def io_post_def
proof (intro allI impI)
  fix a r a' assume a: "oidc_inv served (snd a)" and run: "try_except m h a = Some (r, a')"
  then obtain y b where m: "m a = Some (y, b)" by (auto simp: try_except_def split: option.splits)
  with assms(1) a have b: "oidc_inv served (snd b)" "\<forall>x. y = Inr x \<longrightarrow> P x"
    unfolding keeping_def io_post_def by blast+
  show "oidc_inv served (snd a') \<and> (\<forall>x. r = Inr x \<longrightarrow> P x)"
  proof (cases y)
    case (Inl e)
    with m run have "h e b = Some (r, a')" by (simp add: run_try_except)
    with assms(2) [of e] b(1) show ?thesis unfolding keeping_def io_post_def by blast
  next
    case (Inr x)
    with m run b show ?thesis by (auto simp: run_try_except)
  qed
qed

lemma keeping_simple:
  "P x \<Longrightarrow> keeping served (returning x) P"
  "keeping served (raising e) P"
  "(\<And>x. r = Inr x \<Longrightarrow> P x) \<Longrightarrow> keeping served (lifting r) P"
  "keeping served (outer m) (\<lambda>_. True)"
  by (auto simp: keeping_def io_post_def io_cases run_simps)

lemma keeping_if:
  "(b \<Longrightarrow> keeping served m P) \<Longrightarrow> (\<not> b \<Longrightarrow> keeping served n P) \<Longrightarrow> keeping served (if b then m else n) P"
  by simp

lemma keeping_request:
  assumes "provider_serves served pv" and "https url"
  shows "keeping served (provider_request pv url body) served"
  unfolding provider_request_def
proof (rule keeping_bind [where P = "\<lambda>v. \<forall>d. v = JObj d \<longrightarrow> served d"])
  have "keeping served (io_bind (pv_urlopen pv url body) (\<lambda>content. lifting (json_loads (pv_wide pv) content)))
      (\<lambda>v. \<forall>d. v = JObj d \<longrightarrow> served d)"
    using assms unfolding provider_serves_def
    by (intro keeping_bind [where P = "\<lambda>c. \<forall>d. json_loads (pv_wide pv) c = Inr (JObj d) \<longrightarrow> served d"])
      (auto simp: keeping_def io_post_def run_simps)
  then show "keeping served (try_except (io_bind (pv_urlopen pv url body)
      (\<lambda>content. lifting (json_loads (pv_wide pv) content)))
      (\<lambda>e. if caught_by e PyOSError \<or> caught_by e PyTimeoutError \<or> caught_by e JSONDecodeError
           then raising (oidc_error ''the identity provider is unavailable'') else raising e))
      (\<lambda>v. \<forall>d. v = JObj d \<longrightarrow> served d)"
    by (rule keeping_try) (simp add: keeping_simple)
qed (auto split: json.split intro: keeping_simple)

definition issuer_https :: "runner_settings \<Rightarrow> bool" where
  "issuer_https cfg \<longleftrightarrow> (\<forall>i. oidc_issuer_of cfg = Inr i \<longrightarrow> https i)"

lemma https_append: "https u \<Longrightarrow> https (u @ v)"
  by (simp add: https_def)

lemma optional_endpoint_https: "optional_endpoint d n = Inr (Some u) \<Longrightarrow> https u"
  by (auto simp: optional_endpoint_def https_def split: option.splits json.splits if_splits)

lemma required_endpoint_https: "required_endpoint d n = Inr u \<Longrightarrow> https u"
  by (auto simp: required_endpoint_def result_simps split: option.splits dest: optional_endpoint_https)

lemma endpoints_of_https:
  assumes "endpoints_of issuer d = Inr ep"
  shows "https (ep_authorization ep) \<and> https (ep_token ep) \<and> https (ep_jwks ep) \<and>
    (\<forall>e. ep_end_session ep = Some e \<longrightarrow> https e)"
  using assms
  by (auto simp: endpoints_of_def result_simps split: if_splits
      dest: required_endpoint_https optional_endpoint_https)

lemma keeping_read:
  assumes "\<And>c. oidc_inv served c \<Longrightarrow> P (g c)"
  shows "keeping served (inner (reading g)) P"
  using assms by (auto simp: keeping_def io_post_def io_cases run_simps)

lemma keeping_write:
  assumes "\<And>c. oidc_inv served c \<Longrightarrow> oidc_inv served (g c)"
  shows "keeping served (inner (modifying g)) (\<lambda>_. True)"
  using assms by (auto simp: keeping_def io_post_def io_cases run_simps)

lemma keeping_get_endpoints:
  assumes "provider_serves served pv" and "issuer_https cfg"
  shows "keeping served (get_endpoints pv cfg) (\<lambda>ep. https (ep_jwks ep))"
  unfolding get_endpoints_def
proof (rule keeping_bind [where P = "\<lambda>c. \<forall>ep. c = Some ep \<longrightarrow> https (ep_jwks ep)"])
  show "keeping served (inner (reading oc_endpoints)) (\<lambda>c. \<forall>ep. c = Some ep \<longrightarrow> https (ep_jwks ep))"
    by (rule keeping_read) (simp add: oidc_inv_def)
next
  fix cached :: "oidc_endpoints option" assume cached: "\<forall>ep. cached = Some ep \<longrightarrow> https (ep_jwks ep)"
  have "keeping served (discover_endpoints pv cfg) (\<lambda>ep. https (ep_jwks ep))"
    unfolding discover_endpoints_def
  proof (rule keeping_bind [where P = https])
    show "keeping served (lifting (oidc_issuer_of cfg)) https"
      using assms(2) by (auto simp: issuer_https_def intro: keeping_simple)
  next
    fix issuer assume "https issuer"
    show "keeping served (io_bind (provider_request pv (issuer @ lit ''/.well-known/openid-configuration'') None)
        (\<lambda>document. io_bind (lifting (endpoints_of issuer document)) (\<lambda>ep.
          io_then (inner (modifying (\<lambda>c. c\<lparr>oc_endpoints := Some ep\<rparr>))) (returning ep))))
        (\<lambda>ep. https (ep_jwks ep))"
      by (rule keeping_bind [OF keeping_request [OF assms(1) https_append [OF \<open>https issuer\<close>]]],
          rule keeping_bind [OF keeping_simple(3) [where P = "\<lambda>ep. oidc_inv served
            \<lparr>oc_endpoints = Some ep, oc_jwks = None, oc_jwks_loaded_at = 0\<rparr>"]],
          simp add: endpoints_of_https oidc_inv_def,
          rule keeping_bind [OF keeping_write])
        (auto simp: oidc_inv_def intro: keeping_simple)
  qed
  with cached show "keeping served (case cached of Some ep \<Rightarrow> returning ep | None \<Rightarrow> discover_endpoints pv cfg)
      (\<lambda>ep. https (ep_jwks ep))"
    by (cases cached) (auto intro: keeping_simple)
qed

lemma keeping_get_jwks:
  assumes "provider_serves served pv" and "issuer_https cfg"
  shows "keeping served (get_jwks pv cfg force) served"
proof -
  have load: "keeping served (load_jwks pv cfg now) served" for now
    unfolding load_jwks_def
    by (rule keeping_bind [OF keeping_get_endpoints [OF assms]],
        rule keeping_bind [OF keeping_request [OF assms(1)]], assumption,
        rule keeping_bind [OF keeping_write], simp add: oidc_inv_def,
        rule keeping_bind [OF keeping_write], simp add: oidc_inv_def)
      (simp add: keeping_simple)
  show ?thesis
    unfolding get_jwks_def
  proof (rule keeping_bind [OF keeping_simple(4)])
    fix now
    show "keeping served (io_bind (inner (reading (\<lambda>c. (oc_jwks c, oc_jwks_loaded_at c)))) (\<lambda>(cached, loaded_at).
        case cached of None \<Rightarrow> load_jwks pv cfg now
        | Some jwks \<Rightarrow> if force \<or> now - loaded_at \<ge> of_int (rs_oidc_jwks_cache_seconds cfg)
            then load_jwks pv cfg now else returning jwks)) served"
    proof (rule keeping_bind [where P = "\<lambda>q. \<forall>j. fst q = Some j \<longrightarrow> served j"])
      fix q :: "json_dict option \<times> rat" assume "\<forall>j. fst q = Some j \<longrightarrow> served j"
      then show "keeping served (case q of (cached, loaded_at) \<Rightarrow> case cached of None \<Rightarrow> load_jwks pv cfg now
        | Some jwks \<Rightarrow> if force \<or> now - loaded_at \<ge> of_int (rs_oidc_jwks_cache_seconds cfg)
            then load_jwks pv cfg now else returning jwks) served"
        by (cases q) (auto split: option.split intro: load keeping_simple)
    qed (rule keeping_read, simp add: oidc_inv_def)
  qed
qed

lemma find_key_kid: "find_key jwks kid = Some k \<Longrightarrow> map_of k (lit ''kid'') = Some (JStr kid)"
proof -
  have "find_key_in keys kid = Some k \<Longrightarrow> map_of k (lit ''kid'') = Some (JStr kid)" for keys
    by (induction keys kid rule: find_key_in.induct) (auto split: if_splits)
  then show "find_key jwks kid = Some k \<Longrightarrow> map_of k (lit ''kid'') = Some (JStr kid)"
    by (auto simp: find_key_def split: option.splits json.splits)
qed

text \<open>A key is the provider's: under its id, from a key set it served.\<close>

definition key_served ::
  "(json_dict \<Rightarrow> bool) \<Rightarrow> ('w, 'key) provider \<Rightarrow> pystr \<Rightarrow> 'key \<Rightarrow> bool" where
  "key_served served pv kid key \<longleftrightarrow>
     (\<exists>jwks k. served jwks \<and> find_key jwks kid = Some k \<and> map_of k (lit ''kid'') = Some (JStr kid) \<and>
       pv_from_dict pv k = Inr key)"

lemma keeping_signing_key:
  assumes "provider_serves served pv" and "issuer_https cfg"
  shows "keeping served (signing_key pv cfg kid) (key_served served pv kid)"
proof -
  note jwks = keeping_get_jwks [OF assms]
  have build: "keeping served (try_except (lifting (pv_from_dict pv k)) (\<lambda>e.
      if caught_by e PyJWTError then raising (oidc_error ''the token signing key is invalid'') else raising e))
      (key_served served pv kid)" if "served j" "find_key j kid = Some k" for j k
    using that by (intro keeping_try keeping_if keeping_simple) (auto simp: key_served_def dest: find_key_kid)
  show ?thesis
    unfolding signing_key_def
  proof (rule keeping_bind [OF jwks])
    fix jwks' assume served: "served jwks'"
    let ?P = "\<lambda>q. \<forall>k. q = Some k \<longrightarrow> (\<exists>j. served j \<and> find_key j kid = Some k)"
    show "keeping served (io_bind (case find_key jwks' kid of Some key \<Rightarrow> returning (Some key)
        | None \<Rightarrow> io_bind (get_jwks pv cfg True) (\<lambda>jwks. returning (find_key jwks kid))) (\<lambda>key.
        case key of None \<Rightarrow> raising (oidc_error ''the token signing key is unknown'')
        | Some k \<Rightarrow> try_except (lifting (pv_from_dict pv k)) (\<lambda>e.
            if caught_by e PyJWTError then raising (oidc_error ''the token signing key is invalid'')
            else raising e))) (key_served served pv kid)"
    proof (rule keeping_bind [where P = ?P])
      show "keeping served (case find_key jwks' kid of Some key \<Rightarrow> returning (Some key)
          | None \<Rightarrow> io_bind (get_jwks pv cfg True) (\<lambda>jwks. returning (find_key jwks kid))) ?P"
        using served by (auto split: option.split intro!: keeping_bind [OF jwks] keeping_simple)
    qed (auto split: option.split intro: keeping_simple build)
  qed
qed

lemma keeping_outer:
  assumes "\<And>w x w'. m w = Some (Inr x, w') \<Longrightarrow> P x"
  shows "keeping served (outer m) P"
  using assms by (auto simp: keeping_def io_post_def io_cases)

text \<open>What \<^verbatim>\<open>jwt.decode\<close> accepted, and how it was called.\<close>

definition token_checked ::
  "(json_dict \<Rightarrow> bool) \<Rightarrow> ('w, 'key) provider \<Rightarrow> runner_settings \<Rightarrow> pystr \<Rightarrow> pystr \<Rightarrow> json_dict \<Rightarrow> bool" where
  "token_checked served pv cfg token audience claims \<longleftrightarrow>
     (\<exists>header kid key issuer w w'. pv_unverified_header pv token = Inr header \<and>
        map_of header (lit ''alg'') = Some (JStr (lit ''RS256'')) \<and>
        map_of header (lit ''kid'') = Some (JStr kid) \<and> key_served served pv kid key \<and>
        oidc_issuer_of cfg = Inr issuer \<and>
        pv_decode pv token key audience issuer (rs_oidc_clock_skew_seconds cfg) w = Some (Inr claims, w'))"

lemma keeping_verify_token:
  assumes "provider_serves served pv" and "issuer_https cfg"
  shows "keeping served (verify_token pv cfg token audience) (token_checked served pv cfg token audience)"
  unfolding verify_token_def
proof (rule keeping_try)
  show "keeping served (verify_body pv cfg token audience) (token_checked served pv cfg token audience)"
    unfolding verify_body_def
  proof (rule keeping_bind [where P = "\<lambda>h. pv_unverified_header pv token = Inr h"])
    fix header assume header: "pv_unverified_header pv token = Inr header"
    have "keeping served (io_bind (signing_key pv cfg kid) (\<lambda>key.
           io_bind (lifting (oidc_issuer_of cfg)) (\<lambda>issuer.
           outer (pv_decode pv token key audience issuer (rs_oidc_clock_skew_seconds cfg)))))
        (token_checked served pv cfg token audience)"
      if "map_of header (lit ''alg'') = Some (JStr (lit ''RS256''))" "map_of header (lit ''kid'') = Some (JStr kid)"
      for kid
    proof (rule keeping_bind [OF keeping_signing_key [OF assms]])
      fix key assume "key_served served pv kid key"
      with header that show "keeping served (io_bind (lifting (oidc_issuer_of cfg)) (\<lambda>issuer.
           outer (pv_decode pv token key audience issuer (rs_oidc_clock_skew_seconds cfg))))
        (token_checked served pv cfg token audience)"
        by (intro keeping_bind [OF keeping_simple(3) [where P = "\<lambda>i. oidc_issuer_of cfg = Inr i"]] keeping_outer)
          (auto simp: token_checked_def)
    qed
    then show "keeping served (case (map_of header (lit ''alg''), map_of header (lit ''kid'')) of
       (Some (JStr alg), Some (JStr kid)) \<Rightarrow>
         if alg \<noteq> lit ''RS256'' then raising (oidc_error ''the token header is invalid'')
         else
           io_bind (signing_key pv cfg kid) (\<lambda>key.
           io_bind (lifting (oidc_issuer_of cfg)) (\<lambda>issuer.
           outer (pv_decode pv token key audience issuer (rs_oidc_clock_skew_seconds cfg))))
     | _ \<Rightarrow> raising (oidc_error ''the token header is invalid''))
      (token_checked served pv cfg token audience)"
      by (auto split: option.split json.split intro: keeping_simple)
  qed (simp add: keeping_simple)
qed (simp add: keeping_simple)

text \<open>
  C20. A token counts only if the provider signed it: when \<^verbatim>\<open>_verify\<close> returns claims, the token's
  header names RS256 and a key id, and \<^verbatim>\<open>jwt.decode\<close> accepted the token for the expected audience
  and the configured issuer, with a key of that id from a key set the provider served over TLS -
  cached, fetched or fetched again for an unknown id, whatever other requests do meanwhile. The
  client's caches keep holding only what the provider served.
\<close>

theorem verified_token_checked:
  assumes "provider_serves served pv" and "issuer_https cfg" and "oidc_inv served (snd a)"
    and "verify_token pv cfg token audience a = Some (Inr claims, a')"
  shows "token_checked served pv cfg token audience claims \<and> oidc_inv served (snd a')"
  using io_postD [OF keeping_verify_token [OF assms(1,2), unfolded keeping_def] assms(4,3)] by auto

definition fresh_client :: oidc_client where
  "fresh_client = \<lparr>oc_endpoints = None, oc_jwks = None, oc_jwks_loaded_at = 0\<rparr>"

text \<open>A client that has already loaded a key set with one key, and a library that accepts its tokens.\<close>

definition sample_jwks :: json_dict where
  "sample_jwks = [(lit ''keys'', JList [JObj [(lit ''kid'', JStr (lit ''k''))]])]"

definition sample_client :: oidc_client where
  "sample_client = fresh_client\<lparr>oc_jwks := Some sample_jwks\<rparr>"

definition sample_provider :: "(unit, unit) provider" where
  "sample_provider = \<lparr>pv_urlopen = (\<lambda>u b. raising (raise_txt PyOSError ''down'')),
     pv_wide = (\<lambda>b. Inl (raise_txt UnicodeDecodeError ''wide'')), pv_urlencode = (\<lambda>q. []),
     pv_monotonic = returning 1,
     pv_unverified_header = (\<lambda>t. Inr [(lit ''alg'', JStr (lit ''RS256'')), (lit ''kid'', JStr (lit ''k''))]),
     pv_from_dict = (\<lambda>d. Inr ()), pv_decode = (\<lambda>t k a i l. returning [(lit ''sub'', JStr (lit ''user''))])\<rparr>"

definition sample_oidc_settings :: runner_settings where
  "sample_oidc_settings = default_runner_settings\<lparr>rs_oidc_issuer := Some \<lparr>u_str = lit ''https://idp/'',
     u_scheme = lit ''https'', u_username = None, u_password = None, u_host = None, u_port = None,
     u_path = None, u_query = None, u_fragment = None\<rparr>\<rparr>"

lemma sample_oidc:
  "provider_serves (\<lambda>d. d = sample_jwks) sample_provider" "issuer_https sample_oidc_settings"
  "oidc_inv (\<lambda>d. d = sample_jwks) sample_client"
proof -
  show "provider_serves (\<lambda>d. d = sample_jwks) sample_provider"
    by (simp add: provider_serves_def sample_provider_def io_post_def run_simps)
  have "strip_slashes (lit ''https://idp/'') = lit ''https://idp''" by code_simp
  moreover have "https (lit ''https://idp'')" unfolding https_def by code_simp
  ultimately show "issuer_https sample_oidc_settings"
    by (simp add: issuer_https_def oidc_issuer_of_def sample_oidc_settings_def)
  show "oidc_inv (\<lambda>d. d = sample_jwks) sample_client"
    by (simp add: oidc_inv_def sample_client_def fresh_client_def)
qed

theorem verified_token_checked_witness:
  "\<exists>claims a'. verify_token sample_provider sample_oidc_settings [1] [2] ((), sample_client) = Some (Inr claims, a') \<and>
     token_checked (\<lambda>d. d = sample_jwks) sample_provider sample_oidc_settings [1] [2] claims"
proof -
  obtain claims a' where run:
    "verify_token sample_provider sample_oidc_settings [1] [2] ((), sample_client) = Some (Inr claims, a')"
    by (simp add: verify_token_def verify_body_def signing_key_def get_jwks_def sample_provider_def
        sample_oidc_settings_def sample_client_def fresh_client_def sample_jwks_def default_runner_settings_def
        find_key_def oidc_issuer_of_def io_bind_def try_except_def outer_def inner_def run_simps)
  have "oidc_inv (\<lambda>d. d = sample_jwks) (snd ((), sample_client))" by (simp add: sample_oidc)
  from verified_token_checked [OF sample_oidc(1,2) this run] run show ?thesis by blast
qed

end
