(* ===== verification/Session.thy ===== *)
theory Session
  imports Oidc Base64 Json_Roundtrip
begin

text \<open>
  The signed cookies of the test-runner service, part of
  \<^verbatim>\<open>src/helpers/test-runner-service/src/test_runner_service/auth.py\<close>: principals, signatures,
  the encoding of a payload and the checks that accept one. HMAC-SHA-256, the clock and Python's
  \<^verbatim>\<open>int\<close> and \<^verbatim>\<open>str\<close> of foreign JSON values are parameters.
\<close>

record principal =
  pn_subject :: pystr
  pn_username :: "pystr option"
  pn_roles :: "pystr list"
  pn_method :: pystr
  pn_expires_at :: "int option"

record 'w auth_env =
  ae_time :: "('w, int) io"                          \<comment> \<open>\<^verbatim>\<open>int(time.time())\<close>\<close>
  ae_hmac :: "bytes \<Rightarrow> bytes \<Rightarrow> bytes"               \<comment> \<open>key and message\<close>
  ae_sha256 :: "bytes \<Rightarrow> bytes"
  ae_token_urlsafe :: "nat \<Rightarrow> ('w, pystr) io"
  ae_wide :: "bytes \<Rightarrow> exn + pystr"
  ae_int :: "json \<Rightarrow> exn + int"                      \<comment> \<open>of a float or a string\<close>
  ae_str :: "json \<Rightarrow> pystr"                          \<comment> \<open>of what is not a string\<close>

definition SESSION_COOKIE :: pystr where
  "SESSION_COOKIE = lit ''test_runner_session''"

definition OIDC_TRANSACTION_COOKIE :: pystr where
  "OIDC_TRANSACTION_COOKIE = lit ''test_runner_oidc_transaction''"

section \<open>Signatures\<close>

definition compare_digest :: "pystr \<Rightarrow> pystr \<Rightarrow> exn + bool" where
  \<comment> \<open>\<^verbatim>\<open>hmac.compare_digest\<close> of two strings\<close>
  "compare_digest a b =
     (if ascii a \<and> ascii b then Inr (a = b)
      else Inl (raise_txt PyTypeError ''comparing strings with non-ASCII characters is not supported''))"

definition hexdigest :: "bytes \<Rightarrow> pystr" where
  "hexdigest d = concat (map (\<lambda>b. [hex_digit (unat b div 16), hex_digit (unat b mod 16)]) d)"

definition auth_not_validated :: exn where
  "auth_not_validated = raise_txt PyRuntimeError ''authentication settings were not validated''"

definition signature :: "'w auth_env \<Rightarrow> runner_settings \<Rightarrow> pystr \<Rightarrow> exn + pystr" where
  "signature env cfg payload =
     (case rs_auth_session_secret cfg of
        None \<Rightarrow> Inl auth_not_validated
      | Some secret \<Rightarrow>
          try_bind (utf8_encode secret) (\<lambda>key.
          try_bind (utf8_encode payload) (\<lambda>m. Inr (hexdigest (ae_hmac env key m)))))"

definition base64url_decode :: "pystr \<Rightarrow> exn + bytes" where
  "base64url_decode value = urlsafe_b64decode (repadded value)"

section \<open>Encoding\<close>

fun sort_keys :: "json \<Rightarrow> json" where
  "sort_keys (JObj kvs) = JObj (sort_key fst (map (\<lambda>(k, v). (k, sort_keys v)) kvs))"
| "sort_keys (JList vs) = JList (map sort_keys vs)"
| "sort_keys v = v"

definition signed_body :: "int \<Rightarrow> json_dict \<Rightarrow> json_dict" where
  \<comment> \<open>\<^verbatim>\<open>{"iat": int(time.time()), **payload}\<close>\<close>
  "signed_body now payload = dict_update [(lit ''iat'', JInt now)] payload"

definition encode_signed :: "'w auth_env \<Rightarrow> runner_settings \<Rightarrow> json_dict \<Rightarrow> ('w, pystr) io" where
  "encode_signed env cfg payload =
     io_bind (ae_time env) (\<lambda>now.
     io_bind (lifting (utf8_encode (json_dumps (sort_keys (JObj (signed_body now payload)))))) (\<lambda>b.
     let encoded = unpadded b in
     io_bind (lifting (signature env cfg encoded)) (\<lambda>s. returning (encoded @ [46] @ s))))"

section \<open>Decoding\<close>

definition optional_int :: "json option \<Rightarrow> exn + int option" where
  "optional_int value =
     (case value of
        None \<Rightarrow> Inr None
      | Some JNull \<Rightarrow> Inr None
      | Some (JInt i) \<Rightarrow> Inr (Some i)
      | Some _ \<Rightarrow> Inl (raise_txt PyValueError ''expected an integer''))"

definition json_item :: "json \<Rightarrow> string \<Rightarrow> exn + json" where
  \<comment> \<open>\<^verbatim>\<open>payload[key]\<close> of any JSON value\<close>
  "json_item payload key =
     (case payload of
        JObj kvs \<Rightarrow> (case map_of kvs (lit key) of None \<Rightarrow> Inl (raise_txt PyKeyError key) | Some v \<Rightarrow> Inr v)
      | _ \<Rightarrow> Inl (raise_txt PyTypeError ''string index''))"

definition json_to_int :: "'w auth_env \<Rightarrow> json \<Rightarrow> exn + int" where
  "json_to_int env v =
     (case v of
        JInt i \<Rightarrow> Inr i
      | JBool b \<Rightarrow> Inr (if b then 1 else 0)
      | JFloat t \<Rightarrow> ae_int env v
      | JStr s \<Rightarrow> ae_int env v
      | _ \<Rightarrow> Inl (raise_txt PyTypeError ''int() argument''))"

definition signed_payload :: "'w auth_env \<Rightarrow> pystr \<Rightarrow> exn + json \<times> int" where
  \<comment> \<open>the first \<^verbatim>\<open>try\<close> block of \<^verbatim>\<open>_decode_signed\<close>\<close>
  "signed_payload env encoded =
     try_bind (base64url_decode encoded) (\<lambda>b.
     try_bind (json_loads (ae_wide env) b) (\<lambda>payload.
     try_bind (json_item payload ''iat'') (\<lambda>iat.
     try_bind (json_to_int env iat) (\<lambda>issued_at. Inr (payload, issued_at)))))"

definition unexpired :: "'w auth_env \<Rightarrow> json_dict \<Rightarrow> ('w, json_dict option) io" where
  \<comment> \<open>the second \<^verbatim>\<open>try\<close> block of \<^verbatim>\<open>_decode_signed\<close>\<close>
  "unexpired env kvs =
     (case optional_int (map_of kvs (lit ''expires_at'')) of
        Inl e \<Rightarrow> returning None
      | Inr None \<Rightarrow> returning (Some kvs)
      | Inr (Some expires_at) \<Rightarrow>
          io_bind (ae_time env) (\<lambda>now. returning (if now > expires_at then None else Some kvs)))"

definition accept_payload :: "'w auth_env \<Rightarrow> pystr \<Rightarrow> int \<Rightarrow> ('w, json_dict option) io" where
  \<comment> \<open>\<^verbatim>\<open>_decode_signed\<close> after the signature has been checked\<close>
  "accept_payload env encoded max_age =
     (case signed_payload env encoded of
        Inl e \<Rightarrow>
          if caught_by e PyKeyError \<or> caught_by e PyTypeError \<or> caught_by e PyValueError
            \<or> caught_by e JSONDecodeError
          then returning None else raising e
      | Inr (payload, issued_at) \<Rightarrow>
          io_bind (ae_time env) (\<lambda>now.
          let age = now - issued_at in
          case payload of
            JObj kvs \<Rightarrow> if 0 \<le> age \<and> age \<le> max_age then unexpired env kvs else returning None
          | _ \<Rightarrow> returning None))"

definition decode_signed ::
  "'w auth_env \<Rightarrow> runner_settings \<Rightarrow> pystr option \<Rightarrow> int \<Rightarrow> ('w, json_dict option) io" where
  "decode_signed env cfg value max_age =
     (case value of
        None \<Rightarrow> returning None
      | Some v \<Rightarrow>
          let (encoded, separator, sig) = partition_on 46 v in
          if \<not> separator then returning None
          else
            io_bind (lifting (signature env cfg encoded)) (\<lambda>right.
            io_bind (lifting (compare_digest sig right)) (\<lambda>same.
            if \<not> same then returning None else accept_payload env encoded max_age)))"

section \<open>Sessions\<close>

definition py_text :: "'w auth_env \<Rightarrow> json \<Rightarrow> pystr" where
  "py_text env v = (case v of JStr s \<Rightarrow> s | _ \<Rightarrow> ae_str env v)"

definition optional_text :: "'w auth_env \<Rightarrow> json option \<Rightarrow> pystr option" where
  "optional_text env v = (case v of None \<Rightarrow> None | Some JNull \<Rightarrow> None | Some x \<Rightarrow> Some (py_text env x))"

definition session_principal :: "'w auth_env \<Rightarrow> json_dict \<Rightarrow> principal option" where
  \<comment> \<open>the \<^verbatim>\<open>try\<close> block of \<^verbatim>\<open>_decode_session\<close>; its exceptions give \<^verbatim>\<open>None\<close>\<close>
  "session_principal env payload =
     (case (map_of payload (lit ''roles''), map_of payload (lit ''subject''), map_of payload (lit ''method''),
        optional_int (map_of payload (lit ''expires_at''))) of
        (Some (JList roles), Some subject, Some m, Inr expires_at) \<Rightarrow>
          Some \<lparr>pn_subject = py_text env subject, pn_username = optional_text env (map_of payload (lit ''username'')),
            pn_roles = string_items (Some (JList roles)), pn_method = py_text env m,
            pn_expires_at = expires_at\<rparr>
      | _ \<Rightarrow> None)"

definition decode_session :: "'w auth_env \<Rightarrow> runner_settings \<Rightarrow> pystr \<Rightarrow> ('w, principal option) io" where
  "decode_session env cfg value =
     io_bind (decode_signed env cfg (Some value) (rs_auth_session_ttl_seconds cfg)) (\<lambda>payload.
     returning (case payload of None \<Rightarrow> None | Some kvs \<Rightarrow> session_principal env kvs))"

definition principal_dict :: "principal \<Rightarrow> json_dict" where
  \<comment> \<open>\<^verbatim>\<open>asdict(principal)\<close>\<close>
  "principal_dict p =
     [(lit ''subject'', JStr (pn_subject p)),
      (lit ''username'', case pn_username p of None \<Rightarrow> JNull | Some u \<Rightarrow> JStr u),
      (lit ''roles'', JList (map JStr (pn_roles p))), (lit ''method'', JStr (pn_method p)),
      (lit ''expires_at'', case pn_expires_at p of None \<Rightarrow> JNull | Some e \<Rightarrow> JInt e)]"

fun cookie_in :: "pystr \<Rightarrow> pystr list \<Rightarrow> pystr option" where
  "cookie_in name [] = None"
| "cookie_in name (item # items) =
     (case partition_on 61 (strip item) of
        (key, separator, value) \<Rightarrow> if separator \<and> key = name then Some value else cookie_in name items)"

definition cookie_value :: "pystr \<Rightarrow> pystr \<Rightarrow> pystr option" where
  "cookie_value header name = cookie_in name (split_on 59 header)"

section \<open>What is signed reads back\<close>

lemma sort_keys_flat:
  assumes "\<forall>(k, v) \<in> set kvs. sort_keys v = v"
  shows "sort_keys (JObj kvs) = JObj (sort_key fst kvs)"
proof -
  have "map (\<lambda>(k, v). (k, sort_keys v)) kvs = kvs" using assms by (auto intro: map_idI)
  then show ?thesis by simp
qed

lemma map_of_sorted:
  assumes "dict_ok kvs" shows "map_of (sort_key fst kvs) = map_of kvs" "dict_ok (sort_key fst kvs)"
proof -
  show ok: "dict_ok (sort_key fst kvs)"
    using assms by (simp add: dict_ok_def distinct_map)
  then show "map_of (sort_key fst kvs) = map_of kvs"
    using assms by (simp add: dict_ok_def map_of_inject_set)
qed

lemma scalar_lit [simp]: "list_all scalar_value (lit s)"
proof (induction s)
  case (Cons c s)
  have "scalar_value (chr c)"
    using nat_of_char_less_256 [of c] unfolding scalar_value_def by linarith
  with Cons show ?case by (simp add: lit_Cons)
qed simp

definition signable :: "json_dict \<Rightarrow> bool" where
  \<comment> \<open>a payload as the service makes them: JSON can carry it, and it has no time of its own\<close>
  "signable payload \<longleftrightarrow> json_ok (JObj payload) \<and> (\<forall>(k, v) \<in> set payload. sort_keys v = v) \<and>
     lit ''iat'' \<notin> set (map fst payload)"

lemma signed_body_cons:
  "signable payload \<Longrightarrow> signed_body now payload = (lit ''iat'', JInt now) # payload"
  unfolding signed_body_def signable_def json_ok.simps
  by (subst dict_update_disjoint) (auto simp: dict_ok_def)

lemma json_loads_dumps_bytes:
  assumes "json_ok v" and "utf8_encode (json_dumps v) = Inr b"
  shows "json_loads wide b = Inr v"
proof -
  have "ascii (json_dumps v)" using json_dumps_printable [OF assms(1)] by (fastforce simp: ascii_def)
  with assms(2) have "b = map byte (json_dumps v @ [])" by (simp add: encode_ascii)
  then show ?thesis using json_loads_dumps [OF assms(1), of "[]"] by simp
qed

lemma hexdigest_range: "c \<in> set (hexdigest d) \<Longrightarrow> 48 \<le> c \<and> c \<le> 102 \<and> c \<noteq> 59"
proof -
  assume "c \<in> set (hexdigest d)"
  then obtain b :: "8 word" where "c = hex_digit (unat b div 16) \<or> c = hex_digit (unat b mod 16)"
    unfolding hexdigest_def by auto
  moreover have "unat b div 16 < 16" using unat_byte_bound [of "[b]"] by simp
  moreover have "unat b mod 16 < 16" by simp
  ultimately show ?thesis by (auto simp: hex_digit_def split: if_splits)
qed

lemma signature_digest: "signature env cfg m = Inr s \<Longrightarrow> \<exists>d. s = hexdigest d"
  by (auto simp: signature_def result_simps split: option.splits)

text \<open>The fields of an encoded payload.\<close>

lemma encode_signed_shape:
  assumes "encode_signed env cfg payload w = Some (Inr v, w')"
  obtains issued b s where "ae_time env w = Some (Inr issued, w')"
    "utf8_encode (json_dumps (sort_keys (JObj (signed_body issued payload)))) = Inr b"
    "signature env cfg (unpadded b) = Inr s" "v = unpadded b @ [46] @ s"
  using assms unfolding encode_signed_def
  by (auto simp: io_bind_Inr run_simps Let_def)

lemma sorted_body:
  assumes "signable payload" and "printable_code issued"
  shows "\<exists>kvs. sort_keys (JObj (signed_body issued payload)) = JObj kvs \<and> json_ok (JObj kvs) \<and>
    map_of kvs = map_of ((lit ''iat'', JInt issued) # payload)"
proof -
  let ?body = "(lit ''iat'', JInt issued) # payload"
  let ?kvs = "sort_key fst ?body"
  have flat: "\<forall>(k, v) \<in> set ?body. sort_keys v = v" using assms(1) by (auto simp: signable_def)
  have ok: "dict_ok ?body" using assms(1) by (auto simp: signable_def dict_ok_def)
  have "sort_keys (JObj (signed_body issued payload)) = JObj ?kvs"
    unfolding signed_body_cons [OF assms(1)] by (rule sort_keys_flat [OF flat])
  moreover have "list_all scalar_value (lit ''iat'')" by (rule scalar_lit)
  moreover have "\<forall>(k, v) \<in> set payload. list_all scalar_value k \<and> json_ok v"
    using assms(1) unfolding signable_def json_ok.simps by blast
  ultimately have "\<forall>(k, v) \<in> set ?body. list_all scalar_value k \<and> json_ok v"
    using assms(2) by (simp only: list.set ball_simps prod.case json_ok.simps simp_thms)
  with map_of_sorted(2) [OF ok] have "json_ok (JObj ?kvs)"
    unfolding json_ok.simps set_sort by blast
  with \<open>sort_keys (JObj (signed_body issued payload)) = JObj ?kvs\<close> map_of_sorted(1) [OF ok] show ?thesis
    by blast
qed

lemma signed_payload_encoded:
  assumes "signable payload" and "printable_code issued"
    and "utf8_encode (json_dumps (sort_keys (JObj (signed_body issued payload)))) = Inr b"
  shows "\<exists>kvs. signed_payload env (unpadded b) = Inr (JObj kvs, issued) \<and>
    map_of kvs = map_of ((lit ''iat'', JInt issued) # payload)"
proof -
  obtain kvs where kvs: "sort_keys (JObj (signed_body issued payload)) = JObj kvs" "json_ok (JObj kvs)"
    "map_of kvs = map_of ((lit ''iat'', JInt issued) # payload)"
    using sorted_body [OF assms(1,2)] by blast
  from json_loads_dumps_bytes [OF kvs(2) assms(3) [unfolded kvs(1)]]
  have "signed_payload env (unpadded b) = Inr (JObj kvs, issued)"
    by (simp add: signed_payload_def base64url_decode_def urlsafe_b64decode_unpadded json_item_def
        kvs(3) json_to_int_def)
  with kvs(3) show ?thesis by blast
qed

lemma encode_signed_returns:
  assumes "signable payload" and "printable_code issued" and "ae_time env w = Some (Inr issued, w1)"
    and "rs_auth_session_secret cfg = Some secret" and "utf8_encode secret = Inr key"
  shows "\<exists>v. encode_signed env cfg payload w = Some (Inr v, w1)"
proof -
  obtain kvs where kvs: "sort_keys (JObj (signed_body issued payload)) = JObj kvs" "json_ok (JObj kvs)"
    using sorted_body [OF assms(1,2)] by blast
  have "ascii (json_dumps (JObj kvs))" using json_dumps_printable [OF kvs(2)] by (fastforce simp: ascii_def)
  then obtain b where b: "utf8_encode (json_dumps (JObj kvs)) = Inr b" using encode_ascii by blast
  have "c < 128" if "c \<in> set (unpadded b)" for c using unpadded_range [OF that] by linarith
  then have "ascii (unpadded b)" by (simp add: ascii_def)
  then show ?thesis
    using assms(3-5) b
    by (simp add: encode_signed_def kvs(1) io_bind_def run_simps signature_def encode_ascii Let_def
        del: sort_keys.simps json_dumps.simps)
qed

lemma signed_value_plain:
  assumes "encode_signed env cfg payload w = Some (Inr v, w')" and "c \<in> set v"
  shows "c < 128 \<and> c \<noteq> 59 \<and> \<not> is_space c"
proof -
  obtain b s where v: "signature env cfg (unpadded b) = Inr s" "v = unpadded b @ [46] @ s"
    by (rule encode_signed_shape [OF assms(1)])
  obtain d where "s = hexdigest d" using signature_digest [OF v(1)] by blast
  with assms(2) v(2) consider "c \<in> set (unpadded b)" | "c = 46" | "c \<in> set (hexdigest d)" by auto
  then have "43 \<le> c \<and> c \<le> 122 \<and> c \<noteq> 59"
    by cases (use unpadded_range hexdigest_range in \<open>force+\<close>)
  then show ?thesis by (auto simp: is_space_def)
qed

text \<open>A signed value is accepted in its time and refused afterwards.\<close>

lemma decode_signed_encoded:
  assumes "signable payload" and "printable_code issued" and "ae_time env w = Some (Inr issued, w1)"
    and "encode_signed env cfg payload w = Some (Inr v, w2)" and "ae_time env a = Some (Inr now, a1)"
  shows "\<exists>kvs. map_of kvs = map_of ((lit ''iat'', JInt issued) # payload) \<and>
    decode_signed env cfg (Some v) max_age a =
      (if issued \<le> now \<and> now - issued \<le> max_age then unexpired env kvs a1 else Some (Inr None, a1))"
proof -
  obtain b s where b: "utf8_encode (json_dumps (sort_keys (JObj (signed_body issued payload)))) = Inr b"
    "signature env cfg (unpadded b) = Inr s" "v = unpadded b @ [46] @ s"
    using assms(3) encode_signed_shape [OF assms(4)] by (metis Pair_inject option.inject sum.inject(2))
  obtain kvs where kvs: "signed_payload env (unpadded b) = Inr (JObj kvs, issued)"
    "map_of kvs = map_of ((lit ''iat'', JInt issued) # payload)"
    using signed_payload_encoded [OF assms(1,2) b(1)] by blast
  have "46 \<notin> set (unpadded b)" using unpadded_range by blast
  then have parts: "partition_on 46 v = (unpadded b, True, s)" by (simp add: b(3) partition_on_append)
  obtain d where "s = hexdigest d" using signature_digest [OF b(2)] by blast
  then have "ascii s" using hexdigest_range unfolding ascii_def by force
  then have "decode_signed env cfg (Some v) max_age a = accept_payload env (unpadded b) max_age a"
    by (simp add: decode_signed_def parts b(2) compare_digest_def io_bind_def run_simps)
  also have "\<dots> = (if issued \<le> now \<and> now - issued \<le> max_age then unexpired env kvs a1 else Some (Inr None, a1))"
    by (simp add: accept_payload_def kvs(1) io_bind_def assms(5) run_simps Let_def)
  finally show ?thesis using kvs(2) by blast
qed

definition principal_ok :: "principal \<Rightarrow> bool" where
  \<comment> \<open>text without surrogates, and an expiry Python can print\<close>
  "principal_ok p \<longleftrightarrow> list_all scalar_value (pn_subject p) \<and>
     (\<forall>u. pn_username p = Some u \<longrightarrow> list_all scalar_value u) \<and>
     (\<forall>r \<in> set (pn_roles p). list_all scalar_value r) \<and> list_all scalar_value (pn_method p) \<and>
     (\<forall>e. pn_expires_at p = Some e \<longrightarrow> printable_code e)"

lemma sort_keys_string_list: "sort_keys (JList (map JStr ss)) = JList (map JStr ss)"
  by (simp add: comp_def)

lemma principal_signable: "principal_ok p \<Longrightarrow> signable (principal_dict p)"
  unfolding signable_def principal_dict_def principal_ok_def dict_ok_def json_ok.simps
  by (auto simp: sort_keys_string_list split: option.split simp del: sort_keys.simps(2))

lemma string_items_map: "string_items (Some (JList (map JStr ss))) = ss"
  by (simp add: string_items_def comp_def)

lemma session_principal_dict:
  assumes "map_of kvs = map_of ((lit ''iat'', JInt issued) # principal_dict p)"
  shows "session_principal env kvs = Some p"
    and "optional_int (map_of kvs (lit ''expires_at'')) = Inr (pn_expires_at p)"
proof -
  show expires: "optional_int (map_of kvs (lit ''expires_at'')) = Inr (pn_expires_at p)"
    unfolding assms by (simp add: principal_dict_def optional_int_def split: option.split)
  show "session_principal env kvs = Some p"
    unfolding session_principal_def expires unfolding assms
    by (cases p) (auto simp: principal_dict_def string_items_map py_text_def optional_text_def split: option.split)
qed

text \<open>A \<^verbatim>\<open>Cookie\<close> header as a browser sends it.\<close>

definition cookie_header :: "(pystr \<times> pystr) list \<Rightarrow> pystr" where
  "cookie_header cookies = join (lit ''; '') (map (\<lambda>(k, v). k @ [61] @ v) cookies)"

definition cookies_ok :: "(pystr \<times> pystr) list \<Rightarrow> bool" where
  "cookies_ok cookies \<longleftrightarrow>
     (\<forall>(k, v) \<in> set cookies. 61 \<notin> set k \<and> (\<forall>c \<in> set (k @ v). c \<noteq> 59 \<and> \<not> is_space c))"

lemma strip_no_space: "\<forall>c \<in> set s. \<not> is_space c \<Longrightarrow> strip s = s" "\<forall>c \<in> set s. \<not> is_space c \<Longrightarrow> strip (32 # s) = s"
proof -
  assume s: "\<forall>c \<in> set s. \<not> is_space c"
  then have "dropWhile is_space s = s" "dropWhile is_space (rev s) = rev s"
    by (cases s, simp_all) (cases s rule: rev_cases, simp_all)
  moreover have "is_space 32" by (simp add: is_space_def)
  ultimately show "strip s = s" "strip (32 # s) = s"
    by (simp_all add: strip_def rstrip_by_def lstrip_by_def)
qed

lemma split_join_semicolon:
  assumes "\<forall>i \<in> set (i0 # items). 59 \<notin> set i"
  shows "split_on 59 (join (lit ''; '') (i0 # items)) = i0 # map (Cons 32) items"
proof -
  have sep: "lit ''; '' = [59, 32]" by (simp add: lit_Cons)
  show ?thesis
    using assms unfolding sep
  proof (induction items arbitrary: i0)
    case (Cons i items)
    have "split_on 59 (i0 @ 59 # 32 # join [59, 32] (i # items)) =
        i0 # split_on 59 (32 # join [59, 32] (i # items))"
      using Cons.prems by (simp add: split_on_append_sep)
    also have "split_on 59 (32 # join [59, 32] (i # items)) = (32 # i) # map (Cons 32) items"
      using Cons by simp
    finally show ?case by simp
  qed (simp add: split_on_no_sep_eq)
qed

lemma cookie_in_items:
  assumes "cookies_ok cookies" and "\<forall>i \<in> set (zip items cookies). \<exists>k v. snd i = (k, v) \<and> strip (fst i) = k @ [61] @ v"
    and "length items = length cookies"
  shows "cookie_in name items = map_of cookies name"
  using assms
proof (induction items arbitrary: cookies)
  case (Cons i items)
  then obtain k v cs where c: "cookies = (k, v) # cs" by (cases cookies) auto
  with Cons.prems have "strip i = k @ 61 # v" "61 \<notin> set k" by (auto simp: cookies_ok_def)
  then have "partition_on 61 (strip i) = (k, True, v)" by (simp add: partition_on_append)
  moreover have "cookie_in name items = map_of cs name"
    using Cons.prems c by (intro Cons.IH) (auto simp: cookies_ok_def)
  ultimately show ?case by (simp add: c)
qed simp

lemma cookie_value_header:
  assumes "cookies_ok cookies" and "map_of cookies name = Some v"
  shows "cookie_value (cookie_header cookies) name = Some v"
proof -
  let ?item = "\<lambda>(k, v). k @ [61 :: nat] @ v"
  obtain c cs where c: "cookies = c # cs" using assms(2) by (cases cookies) auto
  have plain: "\<forall>x \<in> set (?item q). x \<noteq> 59 \<and> \<not> is_space x" if "q \<in> set cookies" for q
    using assms(1) that by (fastforce simp: cookies_ok_def is_space_def)
  have "split_on 59 (cookie_header cookies) = ?item c # map (Cons 32) (map ?item cs)"
    unfolding cookie_header_def c list.map
    by (rule split_join_semicolon) (use plain c in fastforce)
  moreover have "cookie_in name (?item c # map (Cons 32) (map ?item cs)) = map_of cookies name"
    using assms(1)
  proof (rule cookie_in_items)
    show "\<forall>i \<in> set (zip (?item c # map (Cons 32) (map ?item cs)) cookies).
        \<exists>k v. snd i = (k, v) \<and> strip (fst i) = k @ [61] @ v"
    proof
      fix i assume "i \<in> set (zip (?item c # map (Cons 32) (map ?item cs)) cookies)"
      then have "i = (?item c, c) \<or> (\<exists>q \<in> set cs. i = (32 # ?item q, q))"
        unfolding c by (auto simp: zip_map1 zip_same_conv_map)
      then obtain q where "q \<in> set cookies" "snd i = q" "fst i = ?item q \<or> fst i = 32 # ?item q"
        using c by fastforce
      with strip_no_space [of "?item q"] plain [of q]
      show "\<exists>k v. snd i = (k, v) \<and> strip (fst i) = k @ [61] @ v" by (cases q) auto
    qed
  qed (simp add: c)
  ultimately show ?thesis using assms(2) by (simp add: cookie_value_def)
qed

lemma decode_session_encoded:
  assumes "principal_ok p" and "printable_code issued" and "ae_time env w = Some (Inr issued, w1)"
    and "encode_signed env cfg (principal_dict p) w = Some (Inr v, w2)" and "ae_time env a = Some (Inr now, a1)"
  shows "\<exists>kvs. decode_session env cfg v a =
      (if issued \<le> now \<and> now - issued \<le> rs_auth_session_ttl_seconds cfg
       then io_bind (unexpired env kvs) (\<lambda>q. returning (case q of None \<Rightarrow> None | Some _ \<Rightarrow> Some p)) a1
       else Some (Inr None, a1)) \<and>
    optional_int (map_of kvs (lit ''expires_at'')) = Inr (pn_expires_at p)"
proof -
  obtain kvs where kvs: "map_of kvs = map_of ((lit ''iat'', JInt issued) # principal_dict p)"
    "decode_signed env cfg (Some v) (rs_auth_session_ttl_seconds cfg) a =
      (if issued \<le> now \<and> now - issued \<le> rs_auth_session_ttl_seconds cfg then unexpired env kvs a1
       else Some (Inr None, a1))"
    using decode_signed_encoded [OF principal_signable [OF assms(1)] assms(2-5)] by blast
  have "decode_session env cfg v a =
      (if issued \<le> now \<and> now - issued \<le> rs_auth_session_ttl_seconds cfg
       then io_bind (unexpired env kvs) (\<lambda>q. returning (case q of None \<Rightarrow> None | Some _ \<Rightarrow> Some p)) a1
       else Some (Inr None, a1))"
    unfolding decode_session_def unexpired_def session_principal_dict(2) [OF kvs(1)]
    using session_principal_dict(1) [OF kvs(1), of env]
    by (simp add: io_bind_def kvs(2) unexpired_def session_principal_dict(2) [OF kvs(1)] run_simps
        split: option.split sum.split)
  with session_principal_dict(2) [OF kvs(1)] show ?thesis by blast
qed

lemma session_in_time:
  assumes "principal_ok p" and "printable_code issued" and "ae_time env w = Some (Inr issued, w1)"
    and "encode_signed env cfg (principal_dict p) w = Some (Inr v, w2)" and "ae_time env a = Some (Inr now, a1)"
    and "issued \<le> now" and "now - issued \<le> rs_auth_session_ttl_seconds cfg" and "pn_expires_at p = None"
  shows "decode_session env cfg v a = Some (Inr (Some p), a1)"
  using decode_session_encoded [OF assms(1-5)] assms(6-8)
  by (auto simp: unexpired_def io_bind_def run_simps)

text \<open>
  C19. A session cookie is good for exactly its time: what \<^verbatim>\<open>_set_session_cookie\<close> signs for a
  principal, sent back among other cookies, is found and decodes to the same principal while it
  is not older than the session's lifetime and the principal has not expired - and to nobody
  before it was issued, after that lifetime or after the principal's expiry.
\<close>

theorem session_roundtrip:
  assumes "principal_ok p" and "printable_code issued" and "ae_time env w = Some (Inr issued, w1)"
    and "encode_signed env cfg (principal_dict p) w = Some (Inr v, w2)"
    and "ae_time env a = Some (Inr now, a1)" and "ae_time env a1 = Some (Inr later, a2)"
    and "cookies_ok cookies" and "map_of cookies SESSION_COOKIE = Some v"
  shows "cookie_value (cookie_header cookies) SESSION_COOKIE = Some v \<and>
    decode_session env cfg v a =
      (if issued \<le> now \<and> now - issued \<le> rs_auth_session_ttl_seconds cfg
       then (case pn_expires_at p of
           None \<Rightarrow> Some (Inr (Some p), a1)
         | Some e \<Rightarrow> Some (Inr (if later > e then None else Some p), a2))
       else Some (Inr None, a1))"
proof
  show "cookie_value (cookie_header cookies) SESSION_COOKIE = Some v"
    by (rule cookie_value_header [OF assms(7,8)])
  obtain kvs where kvs: "decode_session env cfg v a =
      (if issued \<le> now \<and> now - issued \<le> rs_auth_session_ttl_seconds cfg
       then io_bind (unexpired env kvs) (\<lambda>q. returning (case q of None \<Rightarrow> None | Some _ \<Rightarrow> Some p)) a1
       else Some (Inr None, a1))" "optional_int (map_of kvs (lit ''expires_at'')) = Inr (pn_expires_at p)"
    using decode_session_encoded [OF assms(1-5)] by blast
  show "decode_session env cfg v a =
      (if issued \<le> now \<and> now - issued \<le> rs_auth_session_ttl_seconds cfg
       then (case pn_expires_at p of
           None \<Rightarrow> Some (Inr (Some p), a1)
         | Some e \<Rightarrow> Some (Inr (if later > e then None else Some p), a2))
       else Some (Inr None, a1))"
    using assms(6) by (simp add: kvs unexpired_def io_bind_def run_simps split: option.split)
qed

text \<open>A clock that stands at 1000, and an HMAC of one byte.\<close>

definition still_env :: "unit auth_env" where
  "still_env = \<lparr>ae_time = returning 1000, ae_hmac = (\<lambda>k m. [7]), ae_sha256 = (\<lambda>m. []),
     ae_token_urlsafe = (\<lambda>n. returning [97]), ae_wide = (\<lambda>b. Inl (raise_txt UnicodeDecodeError ''wide'')),
     ae_int = (\<lambda>v. Inl (raise_txt PyValueError ''int'')), ae_str = (\<lambda>v. [])\<rparr>"

definition sample_principal :: principal where
  "sample_principal = \<lparr>pn_subject = lit ''local:op'', pn_username = Some (lit ''op''), pn_roles = [lit ''viewer''],
     pn_method = lit ''local'', pn_expires_at = None\<rparr>"

lemma printable_1000: "printable_code 1000"
  using printable_bound [of 1000 4] by simp

lemma sample_principal_ok: "principal_ok sample_principal"
  by (simp add: principal_ok_def sample_principal_def)

lemma still_time: "ae_time still_env w = Some (Inr 1000, w)"
  by (simp add: still_env_def run_simps)

lemma key_encodes: "\<exists>key. utf8_encode (lit ''key'') = Inr key"
proof -
  have "ascii (lit ''key'')" by (simp add: lit_Cons ascii_def)
  then show ?thesis using encode_ascii by blast
qed

theorem session_roundtrip_witness:
  "\<exists>v. encode_signed still_env local_settings (principal_dict sample_principal) () = Some (Inr v, ()) \<and>
     decode_session still_env local_settings v () = Some (Inr (Some sample_principal), ())"
proof -
  have secret: "rs_auth_session_secret local_settings = Some (lit ''key'')" by (simp add: local_settings_def)
  obtain v where v: "encode_signed still_env local_settings (principal_dict sample_principal) () = Some (Inr v, ())"
    using encode_signed_returns [OF principal_signable [OF sample_principal_ok] printable_1000 still_time secret]
      key_encodes by blast
  have "cookies_ok [(SESSION_COOKIE, v)]"
    using signed_value_plain [OF v] by (simp add: cookies_ok_def SESSION_COOKIE_def lit_Cons is_space_def)
  from session_roundtrip [OF sample_principal_ok printable_1000 still_time v still_time still_time this] v
  show ?thesis
    by (simp add: sample_principal_def local_settings_def default_runner_settings_def)
qed

end
