(* ===== verification/Auth.thy ===== *)
theory Auth
  imports Session
begin

text \<open>
  Authentication and authorisation of the test-runner service,
  \<^verbatim>\<open>src/helpers/test-runner-service/src/test_runner_service/auth.py\<close>: the four authenticators,
  the middleware that decides on every request, and the handlers that log in and out. A
  request's header values are decoded as Latin-1, the application behind the middleware is the
  outcome \<open>Forwarded\<close>. The world is the service's with the OIDC client beside it.
\<close>

record http_scope =
  sc_type :: pystr
  sc_path :: pystr
  sc_method :: pystr
  sc_headers :: "(bytes \<times> bytes) list"

definition public_paths :: "pystr list" where
  "public_paths = [lit ''/health'', lit ''/login'', lit ''/auth/status'', lit ''/auth/login'',
     lit ''/auth/callback'', lit ''/auth/logout'']"

definition ui_pages :: "pystr list" where
  "ui_pages = [lit ''/'', lit ''/artifact-runs'']"

section \<open>Roles\<close>

definition required_role :: "http_scope \<Rightarrow> pystr" where
  "required_role scope =
     (if \<not> prefix (lit ''/v1/'') (sc_path scope) then lit ''viewer''
      else if sc_method scope \<in> {lit ''POST'', lit ''PUT'', lit ''PATCH'', lit ''DELETE''}
      then lit ''operator'' else lit ''viewer'')"

definition has_role :: "principal \<Rightarrow> pystr \<Rightarrow> runner_settings \<Rightarrow> bool" where
  "has_role p role cfg \<longleftrightarrow>
     (if pn_method p \<in> {lit ''disabled'', lit ''local'', lit ''api_token''} then True
      else if role = lit ''operator'' then rs_oidc_operator_role cfg \<in> set (pn_roles p)
      else {rs_oidc_viewer_role cfg, rs_oidc_operator_role cfg} \<inter> set (pn_roles p) \<noteq> {})"

definition both_roles :: "pystr list" where
  "both_roles = [lit ''viewer'', lit ''operator'']"

definition disabled_principal :: principal where
  "disabled_principal = \<lparr>pn_subject = lit ''anonymous'', pn_username = None, pn_roles = both_roles,
     pn_method = lit ''disabled'', pn_expires_at = None\<rparr>"

definition local_api_principal :: principal where
  "local_api_principal = \<lparr>pn_subject = lit ''local-api-token'', pn_username = None, pn_roles = both_roles,
     pn_method = lit ''api_token'', pn_expires_at = None\<rparr>"

definition principal_from_claims ::
  "'w auth_env \<Rightarrow> json_dict \<Rightarrow> runner_settings \<Rightarrow> string \<Rightarrow> exn + principal" where
  "principal_from_claims env claims cfg m =
     (case rs_oidc_client_id cfg of
        None \<Rightarrow> Inl (raise_txt PyRuntimeError ''Keycloak settings were not validated'')
      | Some client_id \<Rightarrow>
          try_bind (json_item (JObj claims) ''sub'') (\<lambda>sub.
          try_bind (optional_int (map_of claims (lit ''exp''))) (\<lambda>expires_at.
          Inr \<lparr>pn_subject = py_text env sub,
            pn_username = optional_text env (map_of claims (lit ''preferred_username'')),
            pn_roles = sorted_list_of_set (token_roles claims client_id), pn_method = lit m,
            pn_expires_at = expires_at\<rparr>)))"

section \<open>Credentials of a request\<close>

definition header_text :: "http_scope \<Rightarrow> string \<Rightarrow> pystr" where
  "header_text scope name =
     (case map_of (dict_of (sc_headers scope)) (blit name) of None \<Rightarrow> [] | Some b \<Rightarrow> map unat b)"

definition ascii_lower :: "nat \<Rightarrow> nat" where
  "ascii_lower c = (if is_upper_cp c then c + 32 else c)"

definition bearer_value :: "pystr \<Rightarrow> pystr option" where
  \<comment> \<open>No character beyond ASCII casefolds into \<^verbatim>\<open>bearer\<close>.\<close>
  "bearer_value authorization =
     (let (scheme, separator, token) = partition_on 32 authorization in
      if \<not> separator \<or> map ascii_lower scheme \<noteq> lit ''bearer'' \<or> token = [] then None else Some token)"

definition valid_static_bearer_token :: "pystr \<Rightarrow> runner_settings \<Rightarrow> exn + bool" where
  "valid_static_bearer_token authorization cfg =
     (case (rs_auth_api_token cfg, bearer_value authorization) of
        (Some expected', Some token) \<Rightarrow>
          if expected' = [] then Inr False
          else
            try_bind (utf8_encode token) (\<lambda>t.
            try_bind (utf8_encode expected') (\<lambda>e. Inr (t = e)))
      | _ \<Rightarrow> Inr False)"

definition session_of :: "'w auth_env \<Rightarrow> runner_settings \<Rightarrow> http_scope \<Rightarrow> ('w, principal option) oidc_io" where
  \<comment> \<open>the session cookie of a request\<close>
  "session_of env cfg scope =
     (case cookie_value (header_text scope ''cookie'') SESSION_COOKIE of
        None \<Rightarrow> returning None
      | Some cookie \<Rightarrow> outer (decode_session env cfg cookie))"

section \<open>The authenticators\<close>

definition is_ui_page :: "http_scope \<Rightarrow> bool" where
  "is_ui_page scope \<longleftrightarrow> sc_path scope \<in> set ui_pages"

definition authenticate_local ::
  "'w auth_env \<Rightarrow> runner_settings \<Rightarrow> http_scope \<Rightarrow> ('w, principal option) oidc_io" where
  "authenticate_local env cfg scope =
     io_bind (lifting (valid_static_bearer_token (header_text scope ''authorization'') cfg)) (\<lambda>valid.
     if valid then returning (Some local_api_principal) else session_of env cfg scope)"

definition authenticate_keycloak ::
  "('w, 'key) provider \<Rightarrow> 'w auth_env \<Rightarrow> runner_settings \<Rightarrow> http_scope \<Rightarrow> ('w, principal option) oidc_io" where
  "authenticate_keycloak pv env cfg scope =
     (case bearer_value (header_text scope ''authorization'') of
        Some bearer \<Rightarrow>
          io_bind
            (try_except
              (io_bind (verify_access_token pv cfg bearer) (\<lambda>claims. returning (Some claims)))
              (\<lambda>e. if caught_by e OidcError then returning None else raising e))
            (\<lambda>verified.
            case verified of
              None \<Rightarrow> returning None
            | Some claims \<Rightarrow>
                io_bind (lifting (principal_from_claims env claims cfg ''oidc_bearer'')) (\<lambda>p.
                returning (Some p)))
      | None \<Rightarrow> session_of env cfg scope)"

definition authenticate_hybrid ::
  "'w auth_env \<Rightarrow> runner_settings \<Rightarrow> http_scope \<Rightarrow> ('w, principal option) oidc_io" where
  \<comment> \<open>\<^verbatim>\<open>KeycloakUILocalAPIAuthenticator\<close>\<close>
  "authenticate_hybrid env cfg scope =
     (if is_ui_page scope then session_of env cfg scope
      else
        let authorization = header_text scope ''authorization'' in
        if authorization \<noteq> [] then
          io_bind (lifting (valid_static_bearer_token authorization cfg)) (\<lambda>valid.
          if valid then returning (Some local_api_principal) else returning None)
        else session_of env cfg scope)"

datatype authenticator =
    DisabledAuthenticator | LocalAuthenticator | KeycloakAuthenticator | KeycloakUILocalAPIAuthenticator

definition create_authenticator :: "runner_settings \<Rightarrow> bool \<Rightarrow> exn + authenticator" where
  \<comment> \<open>of whether there is an OIDC client\<close>
  "create_authenticator cfg oidc =
     (if rs_auth_mode cfg = DISABLED then Inr DisabledAuthenticator
      else if rs_auth_mode cfg = LOCAL then Inr LocalAuthenticator
      else if \<not> oidc
      then Inl (raise_txt PyRuntimeError ''Keycloak authentication requires an OIDC client'')
      else if rs_auth_mode cfg = KEYCLOAK_UI_LOCAL_API then Inr KeycloakUILocalAPIAuthenticator
      else Inr KeycloakAuthenticator)"

definition authenticate ::
  "('w, 'key) provider \<Rightarrow> 'w auth_env \<Rightarrow> runner_settings \<Rightarrow> authenticator \<Rightarrow> http_scope
     \<Rightarrow> ('w, principal option) oidc_io" where
  "authenticate pv env cfg authn scope =
     (case authn of
        DisabledAuthenticator \<Rightarrow> returning (Some disabled_principal)
      | LocalAuthenticator \<Rightarrow> authenticate_local env cfg scope
      | KeycloakAuthenticator \<Rightarrow> authenticate_keycloak pv env cfg scope
      | KeycloakUILocalAPIAuthenticator \<Rightarrow> authenticate_hybrid env cfg scope)"

section \<open>Replies and the middleware\<close>

datatype cookie_action =
    SetCookie (ck_name: pystr) (ck_value: pystr) (ck_max_age: int) (ck_httponly: bool) (ck_secure: bool)
  | DeleteCookie (ck_name: pystr) (ck_httponly: bool) (ck_secure: bool)
    \<comment> \<open>all with \<^verbatim>\<open>samesite="lax"\<close>\<close>

datatype body = NoBody | JsonBody "(string \<times> pystr) list" | FileBody pystr

record reply =
  rp_code :: int
  rp_location :: "pystr option"
  rp_body :: body
  rp_cookies :: "cookie_action list"

definition redirect_to :: "pystr \<Rightarrow> reply" where
  "redirect_to location' = \<lparr>rp_code = 303, rp_location = Some location', rp_body = NoBody, rp_cookies = []\<rparr>"

definition json_reply :: "int \<Rightarrow> (string \<times> pystr) list \<Rightarrow> reply" where
  "json_reply code content = \<lparr>rp_code = code, rp_location = None, rp_body = JsonBody content, rp_cookies = []\<rparr>"

definition detail :: "int \<Rightarrow> string \<Rightarrow> reply" where
  "detail code m = json_reply code [(''detail'', lit m)]"

datatype outcome = Forwarded "principal option" | Replied reply

definition unauthorized :: "http_scope \<Rightarrow> reply" where
  "unauthorized scope =
     (if sc_path scope \<in> set ui_pages then redirect_to (lit ''/login'')
      else detail 401 ''authentication required'')"

definition middleware ::
  "('w, 'key) provider \<Rightarrow> 'w auth_env \<Rightarrow> runner_settings \<Rightarrow> authenticator \<Rightarrow> http_scope
     \<Rightarrow> ('w, outcome) oidc_io" where
  "middleware pv env cfg authn scope =
     (if sc_type scope \<noteq> lit ''http'' \<or> sc_path scope \<in> set public_paths then returning (Forwarded None)
      else
        io_bind (authenticate pv env cfg authn scope) (\<lambda>found.
        returning (case found of
          None \<Rightarrow> Replied (unauthorized scope)
        | Some p \<Rightarrow>
            if \<not> has_role p (required_role scope) cfg then Replied (detail 403 ''insufficient permissions'')
            else Forwarded (Some p))))"

section \<open>Logging in and out\<close>

definition uses_keycloak_ui :: "runner_settings \<Rightarrow> bool" where
  "uses_keycloak_ui cfg \<longleftrightarrow> rs_auth_mode cfg \<in> {KEYCLOAK, KEYCLOAK_UI_LOCAL_API}"

definition mode_text :: "auth_mode \<Rightarrow> pystr" where
  "mode_text mode =
     (case mode of DISABLED \<Rightarrow> lit ''disabled'' | LOCAL \<Rightarrow> lit ''local'' | KEYCLOAK \<Rightarrow> lit ''keycloak''
      | KEYCLOAK_UI_LOCAL_API \<Rightarrow> lit ''keycloak_ui_local_api'')"

definition auth_status :: "runner_settings \<Rightarrow> bool \<times> pystr" where
  "auth_status cfg = (rs_auth_mode cfg \<noteq> DISABLED, mode_text (rs_auth_mode cfg))"

definition credentials_match :: "pystr \<Rightarrow> pystr \<Rightarrow> runner_settings \<Rightarrow> exn + bool" where
  "credentials_match username password cfg =
     (case (rs_auth_username cfg, rs_auth_password cfg) of
        (Some expected_username, Some expected_password) \<Rightarrow>
          try_bind (compare_digest username expected_username) (\<lambda>same.
          if \<not> same then Inr False
          else
            try_bind (utf8_encode password) (\<lambda>p.
            try_bind (utf8_encode expected_password) (\<lambda>e. Inr (p = e))))
      | _ \<Rightarrow> Inl auth_not_validated)"

definition session_max_age :: "'w auth_env \<Rightarrow> runner_settings \<Rightarrow> principal \<Rightarrow> ('w, int) io" where
  "session_max_age env cfg p =
     (case pn_expires_at p of
        None \<Rightarrow> returning (rs_auth_session_ttl_seconds cfg)
      | Some expires_at \<Rightarrow>
          io_bind (ae_time env) (\<lambda>now.
          returning (min (rs_auth_session_ttl_seconds cfg) (max 0 (expires_at - now)))))"

definition set_session_cookie ::
  "'w auth_env \<Rightarrow> runner_settings \<Rightarrow> principal \<Rightarrow> reply \<Rightarrow> ('w, reply) oidc_io" where
  "set_session_cookie env cfg p response =
     io_bind (outer (session_max_age env cfg p)) (\<lambda>max_age.
     io_bind (outer (encode_signed env cfg (principal_dict p))) (\<lambda>value.
     returning (response\<lparr>rp_cookies := rp_cookies response @
       [SetCookie SESSION_COOKIE value max_age True (rs_auth_cookie_secure cfg)]\<rparr>)))"

definition local_principal :: "pystr \<Rightarrow> principal" where
  "local_principal username = \<lparr>pn_subject = lit ''local:'' @ username, pn_username = Some username,
     pn_roles = both_roles, pn_method = lit ''local'', pn_expires_at = None\<rparr>"

definition login ::
  "'w auth_env \<Rightarrow> runner_settings \<Rightarrow> pystr \<Rightarrow> pystr \<Rightarrow> ('w, reply) oidc_io" where
  "login env cfg username password =
     (if rs_auth_mode cfg = DISABLED then returning (json_reply 200 [(''status'', lit ''disabled'')])
      else if rs_auth_mode cfg \<noteq> LOCAL then returning (detail 404 ''password login is not available'')
      else
        io_bind (lifting (credentials_match username password cfg)) (\<lambda>right.
        if \<not> right then returning (detail 401 ''invalid username or password'')
        else set_session_cookie env cfg (local_principal username)
          (json_reply 200 [(''status'', lit ''authenticated'')])))"

definition login_page ::
  "('w, 'key) provider \<Rightarrow> 'w auth_env \<Rightarrow> runner_settings \<Rightarrow> bool \<Rightarrow> pystr \<Rightarrow> ('w, reply) oidc_io" where
  "login_page pv env cfg oidc login_html =
     (if rs_auth_mode cfg = DISABLED then returning (redirect_to (lit ''/''))
      else if rs_auth_mode cfg = LOCAL
      then returning \<lparr>rp_code = 200, rp_location = None, rp_body = FileBody login_html, rp_cookies = []\<rparr>
      else if \<not> oidc
      then raising (raise_txt PyRuntimeError ''Keycloak authentication requires an OIDC client'')
      else
        io_bind (outer (ae_token_urlsafe env 32)) (\<lambda>state.
        io_bind (outer (ae_token_urlsafe env 32)) (\<lambda>nonce.
        io_bind (outer (ae_token_urlsafe env 64)) (\<lambda>verifier.
        io_bind (lifting (utf8_encode verifier)) (\<lambda>v.
        let challenge = unpadded (ae_sha256 env v) in
        io_bind (authorization_url pv cfg state nonce challenge) (\<lambda>location'.
        io_bind (outer (encode_signed env cfg [(lit ''state'', JStr state), (lit ''nonce'', JStr nonce),
            (lit ''verifier'', JStr verifier)])) (\<lambda>value.
        returning ((redirect_to location')\<lparr>rp_cookies :=
          [SetCookie OIDC_TRANSACTION_COOKIE value 600 True (rs_auth_cookie_secure cfg)]\<rparr>))))))))"

definition claims_of_code ::
  "('w, 'key) provider \<Rightarrow> 'w auth_env \<Rightarrow> runner_settings \<Rightarrow> pystr \<Rightarrow> json_dict \<Rightarrow> ('w, principal) oidc_io" where
  \<comment> \<open>the \<^verbatim>\<open>try\<close> block of \<^verbatim>\<open>callback\<close>\<close>
  "claims_of_code pv env cfg code transaction =
     io_bind (lifting (json_item (JObj transaction) ''verifier'')) (\<lambda>verifier.
     io_bind (exchange_code pv cfg code (py_text env verifier)) (\<lambda>tokens.
     io_bind (lifting (json_item (JObj tokens) ''id_token'')) (\<lambda>id_token.
     io_bind (lifting (json_item (JObj transaction) ''nonce'')) (\<lambda>nonce.
     io_bind (verify_id_token pv cfg (py_text env id_token) (py_text env nonce)) (\<lambda>claims.
     lifting (principal_from_claims env claims cfg ''oidc_session''))))))"

definition callback ::
  "('w, 'key) provider \<Rightarrow> 'w auth_env \<Rightarrow> runner_settings \<Rightarrow> bool \<Rightarrow> pystr \<Rightarrow> pystr \<Rightarrow> pystr option
     \<Rightarrow> ('w, reply) oidc_io" where
  "callback pv env cfg oidc code state transaction_cookie =
     (if \<not> uses_keycloak_ui cfg \<or> \<not> oidc then returning (detail 404 ''not found'')
      else
        io_bind (outer (decode_signed env cfg transaction_cookie 600)) (\<lambda>found.
        case found of
          None \<Rightarrow> returning (detail 401 ''invalid authentication transaction'')
        | Some transaction \<Rightarrow>
            io_bind (lifting (compare_digest
              (case map_of transaction (lit ''state'') of None \<Rightarrow> [] | Some s \<Rightarrow> py_text env s) state)) (\<lambda>same.
            if \<not> same then returning (detail 401 ''invalid authentication transaction'')
            else
              io_bind
                (try_except
                  (io_bind (claims_of_code pv env cfg code transaction) (\<lambda>p. returning (Some p)))
                  (\<lambda>e. if caught_by e PyKeyError \<or> caught_by e OidcError then returning None else raising e))
                (\<lambda>principal'.
                case principal' of
                  None \<Rightarrow> returning (detail 401 ''identity provider authentication failed'')
                | Some p \<Rightarrow>
                    if \<not> has_role p (lit ''viewer'') cfg
                    then returning (detail 403 ''insufficient permissions'')
                    else set_session_cookie env cfg p
                      ((redirect_to (lit ''/''))\<lparr>rp_cookies :=
                        [DeleteCookie OIDC_TRANSACTION_COOKIE False False]\<rparr>)))))"

definition logout ::
  "('w, 'key) provider \<Rightarrow> runner_settings \<Rightarrow> bool \<Rightarrow> ('w, reply) oidc_io" where
  "logout pv cfg oidc =
     io_bind
       (if uses_keycloak_ui cfg \<and> oidc then
          (case rs_public_url cfg of
             None \<Rightarrow> raising (raise_txt PyRuntimeError ''Keycloak settings were not validated'')
           | Some u \<Rightarrow> logout_url pv cfg (strip_slashes (u_str u) @ lit ''/login''))
        else returning (lit ''/login''))
       (\<lambda>url. returning ((json_reply 200 [(''status'', lit ''logged_out''), (''logout_url'', url)])
          \<lparr>rp_cookies := [DeleteCookie SESSION_COOKIE True (rs_auth_cookie_secure cfg)]\<rparr>))"

section \<open>Who gets through\<close>

text \<open>
  What entitles a request to act as a principal, by the authenticator the mode selects: nothing
  where authentication is disabled; the configured API token, except on the pages of the user
  interface of the hybrid mode; a cookie the service's secret signs, in its time; a token of the
  provider. \<open>served\<close> are the documents the provider served.
\<close>

inductive vouched ::
  "(json_dict \<Rightarrow> bool) \<Rightarrow> ('w, 'key) provider \<Rightarrow> 'w auth_env \<Rightarrow> runner_settings \<Rightarrow> authenticator
     \<Rightarrow> http_scope \<Rightarrow> principal \<Rightarrow> bool" for served pv env cfg where
  disabled: "vouched served pv env cfg DisabledAuthenticator scope disabled_principal"
| api_token: "authn = LocalAuthenticator \<or> authn = KeycloakUILocalAPIAuthenticator \<and> \<not> is_ui_page scope
    \<Longrightarrow> rs_auth_api_token cfg = Some token \<Longrightarrow> token \<noteq> []
    \<Longrightarrow> bearer_value (header_text scope ''authorization'') = Some token
    \<Longrightarrow> vouched served pv env cfg authn scope local_api_principal"
| session: "authn \<noteq> DisabledAuthenticator
    \<Longrightarrow> cookie_value (header_text scope ''cookie'') SESSION_COOKIE = Some (encoded @ [46] @ sig)
    \<Longrightarrow> signature env cfg encoded = Inr sig \<Longrightarrow> signed_payload env encoded = Inr (JObj kvs, issued)
    \<Longrightarrow> session_principal env kvs = Some p
    \<Longrightarrow> ae_time env w = Some (Inr now, w') \<Longrightarrow> issued \<le> now
    \<Longrightarrow> now - issued \<le> rs_auth_session_ttl_seconds cfg
    \<Longrightarrow> (\<forall>e. pn_expires_at p = Some e \<longrightarrow> (\<exists>u later u'. ae_time env u = Some (Inr later, u') \<and> later \<le> e))
    \<Longrightarrow> vouched served pv env cfg authn scope p"
| token: "bearer_value (header_text scope ''authorization'') = Some bearer
    \<Longrightarrow> rs_oidc_audience cfg = Some audience \<Longrightarrow> token_checked served pv cfg bearer audience claims
    \<Longrightarrow> principal_from_claims env claims cfg ''oidc_bearer'' = Inr p
    \<Longrightarrow> vouched served pv env cfg KeycloakAuthenticator scope p"

lemma valid_static_token:
  assumes "valid_static_bearer_token authorization cfg = Inr True"
  shows "\<exists>token. rs_auth_api_token cfg = Some token \<and> token \<noteq> [] \<and> bearer_value authorization = Some token"
  using assms
  by (auto simp: valid_static_bearer_token_def result_simps split: option.splits if_splits
      dest: utf8_encode_inj)

lemma unexpired_accepts:
  assumes "unexpired env kvs w = Some (Inr (Some kvs'), w')"
  shows "kvs' = kvs \<and> (\<exists>x. optional_int (map_of kvs (lit ''expires_at'')) = Inr x \<and>
    (\<forall>e. x = Some e \<longrightarrow> (\<exists>later w'. ae_time env w = Some (Inr later, w') \<and> later \<le> e)))"
  using assms
  by (auto simp: unexpired_def io_bind_Inr run_simps not_less split: sum.splits option.splits if_splits)

lemma session_accepts:
  assumes "decode_session env cfg value w = Some (Inr (Some p), w')"
  obtains encoded sig kvs issued t now t' where "value = encoded @ [46] @ sig" "signature env cfg encoded = Inr sig"
    "signed_payload env encoded = Inr (JObj kvs, issued)" "session_principal env kvs = Some p"
    "ae_time env t = Some (Inr now, t')" "issued \<le> now" "now - issued \<le> rs_auth_session_ttl_seconds cfg"
    "\<forall>e. pn_expires_at p = Some e \<longrightarrow> (\<exists>u later u'. ae_time env u = Some (Inr later, u') \<and> later \<le> e)"
proof -
  from assms obtain kvs where kvs: "decode_signed env cfg (Some value) (rs_auth_session_ttl_seconds cfg) w
      = Some (Inr (Some kvs), w')" "session_principal env kvs = Some p"
    by (auto simp: decode_session_def io_bind_Inr run_simps split: option.splits)
  obtain encoded sig where parts: "partition_on 46 value = (encoded, True, sig)"
    using kvs(1) by (cases "partition_on 46 value") (auto simp: decode_signed_def run_simps split: if_splits)
  from kvs(1) obtain right where right: "signature env cfg encoded = Inr right" "compare_digest sig right = Inr True"
    "accept_payload env encoded (rs_auth_session_ttl_seconds cfg) w = Some (Inr (Some kvs), w')"
    by (auto simp: decode_signed_def parts io_bind_Inr run_simps split: if_splits)
  then have sig: "right = sig" by (auto simp: compare_digest_def split: if_splits)
  from right(3) obtain payload issued now w1 where p: "signed_payload env encoded = Inr (payload, issued)"
    "ae_time env w = Some (Inr now, w1)"
    by (auto simp: accept_payload_def io_bind_Inr run_simps split: sum.splits if_splits)
  with right(3) obtain kvs0 where p0: "payload = JObj kvs0" "issued \<le> now"
    "now - issued \<le> rs_auth_session_ttl_seconds cfg" "unexpired env kvs0 w1 = Some (Inr (Some kvs), w')"
    by (auto simp: accept_payload_def io_bind_Inr run_simps Let_def split: json.splits if_splits)
  note u = unexpired_accepts [OF p0(4)]
  then obtain x where x: "optional_int (map_of kvs (lit ''expires_at'')) = Inr x"
    "\<forall>e. x = Some e \<longrightarrow> (\<exists>later w'. ae_time env w1 = Some (Inr later, w') \<and> later \<le> e)" by blast
  from kvs(2) x(1) have "pn_expires_at p = x"
    by (auto simp: session_principal_def split: option.splits json.splits sum.splits)
  with x(2) have expiry: "\<forall>e. pn_expires_at p = Some e \<longrightarrow> (\<exists>u later u'. ae_time env u = Some (Inr later, u') \<and> later \<le> e)"
    by blast
  have "value = encoded @ [46] @ sig" using partition_on_found [OF parts] by simp
  then show thesis
    using right(1) sig p p0 u kvs(2) expiry by (intro that) auto
qed

text \<open>Every authenticator keeps the invariant of the OIDC client and finds only vouched principals.\<close>

lemma vouched_api_token:
  assumes "valid_static_bearer_token (header_text scope ''authorization'') cfg = Inr True"
    and "authn = LocalAuthenticator \<or> authn = KeycloakUILocalAPIAuthenticator \<and> \<not> is_ui_page scope"
  shows "vouched served pv env cfg authn scope local_api_principal"
  using valid_static_token [OF assms(1)] vouched.api_token [OF assms(2)] by blast

lemma keeping_session:
  assumes "authn \<noteq> DisabledAuthenticator"
  shows "keeping served (session_of env cfg scope) (\<lambda>q. \<forall>p. q = Some p \<longrightarrow> vouched served pv env cfg authn scope p)"
proof (cases "cookie_value (header_text scope ''cookie'') SESSION_COOKIE")
  case (Some ck)
  have "keeping served (outer (decode_session env cfg ck))
      (\<lambda>q. \<forall>p. q = Some p \<longrightarrow> vouched served pv env cfg authn scope p)"
  proof (rule keeping_outer, intro allI impI)
    fix w q w' p assume run: "decode_session env cfg ck w = Some (Inr q, w')" and "q = Some p"
    then obtain encoded sig kvs issued t now t' where "ck = encoded @ [46] @ sig"
      and "signature env cfg encoded = Inr sig" "signed_payload env encoded = Inr (JObj kvs, issued)"
        "session_principal env kvs = Some p" "ae_time env t = Some (Inr now, t')" "issued \<le> now"
        "now - issued \<le> rs_auth_session_ttl_seconds cfg"
        "\<forall>e. pn_expires_at p = Some e \<longrightarrow> (\<exists>u later u'. ae_time env u = Some (Inr later, u') \<and> later \<le> e)"
      using session_accepts [of env cfg ck w p w'] by blast
    with assms Some show "vouched served pv env cfg authn scope p" by (auto intro: vouched.session)
  qed
  with Some show ?thesis by (simp add: session_of_def)
qed (simp add: session_of_def keeping_simple)

lemma keeping_static_token:
  assumes "authn = LocalAuthenticator \<or> authn = KeycloakUILocalAPIAuthenticator \<and> \<not> is_ui_page scope"
    and "keeping served m (\<lambda>q. \<forall>p. q = Some p \<longrightarrow> vouched served pv env cfg authn scope p)"
  shows "keeping served (io_bind (lifting (valid_static_bearer_token (header_text scope ''authorization'') cfg))
      (\<lambda>valid. if valid then returning (Some local_api_principal) else m))
    (\<lambda>q. \<forall>p. q = Some p \<longrightarrow> vouched served pv env cfg authn scope p)"
proof (rule keeping_bind [where P = "\<lambda>b. valid_static_bearer_token (header_text scope ''authorization'') cfg = Inr b"])
  fix b assume b: "valid_static_bearer_token (header_text scope ''authorization'') cfg = Inr b"
  show "keeping served (if b then returning (Some local_api_principal) else m)
      (\<lambda>q. \<forall>p. q = Some p \<longrightarrow> vouched served pv env cfg authn scope p)"
    using assms vouched_api_token [OF _ assms(1), of cfg served pv env] b
    by (cases b) (auto intro: keeping_simple)
qed (simp add: keeping_simple)

lemma keeping_authenticate:
  assumes "provider_serves served pv" and "issuer_https cfg"
  shows "keeping served (authenticate pv env cfg authn scope)
    (\<lambda>q. \<forall>p. q = Some p \<longrightarrow> vouched served pv env cfg authn scope p)"
proof (cases authn)
  case DisabledAuthenticator
  then show ?thesis by (auto simp: authenticate_def intro: keeping_simple vouched.disabled)
next
  case LocalAuthenticator
  show ?thesis
    unfolding authenticate_def LocalAuthenticator authenticator.case authenticate_local_def
    by (intro keeping_static_token keeping_session) simp_all
next
  case KeycloakAuthenticator
  show ?thesis
  proof (cases "bearer_value (header_text scope ''authorization'')")
    case None
    with KeycloakAuthenticator show ?thesis
      by (simp add: authenticate_def authenticate_keycloak_def keeping_session)
  next
    case (Some bearer)
    let ?checked = "\<lambda>claims. \<exists>audience. rs_oidc_audience cfg = Some audience \<and>
      token_checked served pv cfg bearer audience claims"
    have verify: "keeping served (verify_access_token pv cfg bearer) ?checked"
    proof (cases "rs_oidc_audience cfg")
      case (Some audience)
      with keeping_verify_token [OF assms, of bearer audience] show ?thesis
        by (simp add: verify_access_token_def)
    qed (simp add: verify_access_token_def keeping_simple)
    have "keeping served (try_except (io_bind (verify_access_token pv cfg bearer) (\<lambda>claims. returning (Some claims)))
        (\<lambda>e. if caught_by e OidcError then returning None else raise e))
        (\<lambda>q. \<forall>claims. q = Some claims \<longrightarrow> ?checked claims)" if "raise = raising" for raise
      unfolding that
      by (intro keeping_try keeping_bind [OF verify] keeping_if keeping_simple) auto
    then have found: "keeping served (try_except (io_bind (verify_access_token pv cfg bearer)
        (\<lambda>claims. returning (Some claims)))
        (\<lambda>e. if caught_by e OidcError then returning None else raising e))
        (\<lambda>q. \<forall>claims. q = Some claims \<longrightarrow> ?checked claims)" by blast
    have principal': "keeping served (io_bind (lifting (principal_from_claims env claims cfg ''oidc_bearer''))
        (\<lambda>p. returning (Some p))) (\<lambda>q. \<forall>p. q = Some p \<longrightarrow> vouched served pv env cfg authn scope p)"
      if "?checked claims" for claims
      by (rule keeping_bind [OF keeping_simple(3) [where
            P = "\<lambda>p. principal_from_claims env claims cfg ''oidc_bearer'' = Inr p"]])
        (use that Some KeycloakAuthenticator in \<open>auto intro: keeping_simple vouched.token\<close>)
    show ?thesis
      unfolding authenticate_def authenticate_keycloak_def KeycloakAuthenticator authenticator.case Some option.case
      by (rule keeping_bind [OF found])
        (use principal' KeycloakAuthenticator in \<open>auto split: option.split intro: keeping_simple\<close>)
  qed
next
  case KeycloakUILocalAPIAuthenticator
  show ?thesis
    unfolding authenticate_def KeycloakUILocalAPIAuthenticator authenticator.case authenticate_hybrid_def Let_def
    by (intro keeping_if keeping_static_token keeping_session) (simp_all add: keeping_simple)
qed

lemma authorized_request:
  assumes "provider_serves served pv" and "issuer_https cfg" and "oidc_inv served (snd a)"
    and "middleware pv env cfg authn scope a = Some (Inr (Forwarded q), a')"
    and "sc_type scope = lit ''http''" and "sc_path scope \<notin> set public_paths"
  shows "\<exists>p. q = Some p \<and> vouched served pv env cfg authn scope p \<and> has_role p (required_role scope) cfg \<and>
    oidc_inv served (snd a')"
proof -
  from assms(4-6) obtain found where "authenticate pv env cfg authn scope a = Some (Inr found, a')"
    and out: "Forwarded q = (case found of None \<Rightarrow> Replied (unauthorized scope)
      | Some p \<Rightarrow> if \<not> has_role p (required_role scope) cfg then Replied (detail 403 ''insufficient permissions'')
          else Forwarded (Some p))"
    by (auto simp: middleware_def io_bind_Inr run_simps)
  with io_postD [OF keeping_authenticate [OF assms(1,2), unfolded keeping_def] this(1) assms(3)]
  show ?thesis by (auto split: option.splits if_splits)
qed

text \<open>
  C2. No request beyond the public paths reaches the application unless it is vouched for and
  allowed: the middleware forwards it with a principal that one of the four kinds of evidence
  establishes for this mode - with a token only when the provider signed it - and that holds
  the role the request's path and method need. The OIDC client keeps its invariant.
\<close>

theorem request_authorized:
  assumes "provider_serves served pv" and "issuer_https cfg" and "oidc_inv served (snd a)"
    and "middleware pv env cfg authn scope a = Some (Inr (Forwarded q), a')"
    and "sc_type scope = lit ''http''" and "sc_path scope \<notin> set public_paths"
  shows "\<exists>p. q = Some p \<and> vouched served pv env cfg authn scope p \<and> has_role p (required_role scope) cfg \<and>
    oidc_inv served (snd a')"
  by (rule authorized_request [OF assms])

end
