(* ===== verification/Login.thy ===== *)
theory Login
  imports Auth
begin

text \<open>
  The service's logins end to end: what the handlers of \<open>Auth\<close> set, the middleware accepts;
  the two signed cookies are not taken for one another; and what the comparison of secrets
  does with text beyond ASCII.
\<close>

lemma ascii_scalar: "ascii s \<Longrightarrow> list_all scalar_value s"
  by (auto simp: ascii_def list_all_iff scalar_value_def)

lemma credentials_match_True:
  assumes "credentials_match username password cfg = Inr True"
  shows "rs_auth_username cfg = Some username \<and> rs_auth_password cfg = Some password \<and> ascii username"
  using assms
  by (auto simp: credentials_match_def compare_digest_def result_simps split: option.splits if_splits
      dest: utf8_encode_inj)

lemma local_principal_ok: "ascii username \<Longrightarrow> principal_ok (local_principal username)"
  by (simp add: principal_ok_def local_principal_def both_roles_def ascii_scalar)

lemma local_has_role: "has_role (local_principal username) role cfg"
  by (simp add: has_role_def local_principal_def)

text \<open>A request that carries a cookie and no bearer token.\<close>

definition carries :: "http_scope \<Rightarrow> pystr \<Rightarrow> bool" where
  "carries scope v \<longleftrightarrow> bearer_value (header_text scope ''authorization'') = None \<and>
     (\<exists>cookies. header_text scope ''cookie'' = cookie_header cookies \<and> cookies_ok cookies \<and>
       map_of cookies SESSION_COOKIE = Some v)"

text \<open>
  C37. Logging in opens a session: in local mode a login succeeds only with the configured name
  and password; its answer sets one session cookie with the configured lifetime; and any
  request that carries this cookie within the lifetime reaches the application as that user,
  whatever its path and method.
\<close>

theorem login_opens_session:
  assumes "rs_auth_mode cfg = LOCAL" and "login env cfg username password a = Some (Inr r, a')"
    and "rp_code r = 200" and "ae_time env (fst a) = Some (Inr issued, w)" and "printable_code issued"
    and "ae_time env (fst b) = Some (Inr now, w')" and "issued \<le> now"
    and "now - issued \<le> rs_auth_session_ttl_seconds cfg"
  shows "rs_auth_username cfg = Some username \<and> rs_auth_password cfg = Some password \<and>
    (\<exists>v. rp_cookies r = [SetCookie SESSION_COOKIE v (rs_auth_session_ttl_seconds cfg) True (rs_auth_cookie_secure cfg)] \<and>
      (\<forall>scope. carries scope v \<longrightarrow> sc_type scope = lit ''http'' \<longrightarrow> sc_path scope \<notin> set public_paths \<longrightarrow>
        middleware pv env cfg LocalAuthenticator scope b =
          Some (Inr (Forwarded (Some (local_principal username))), (w', snd b))))"
proof -
  from assms(1,2) obtain right where right: "credentials_match username password cfg = Inr right"
    "(if \<not> right then returning (detail 401 ''invalid username or password'')
      else set_session_cookie env cfg (local_principal username)
        (json_reply 200 [(''status'', lit ''authenticated'')])) a = Some (Inr r, a')"
    by (auto simp: login_def io_bind_Inr run_simps split: if_splits)
  with assms(3) have right': right by (cases right) (auto simp: run_simps detail_def json_reply_def)
  then have user: "rs_auth_username cfg = Some username" "rs_auth_password cfg = Some password" "ascii username"
    using right(1) credentials_match_True [of username password cfg] by auto
  from right(2) right' obtain v a2 where v: "encode_signed env cfg (principal_dict (local_principal username)) (fst a)
      = Some (Inr v, a2)"
    "rp_cookies r = [SetCookie SESSION_COOKIE v (rs_auth_session_ttl_seconds cfg) True (rs_auth_cookie_secure cfg)]"
    by (auto simp: set_session_cookie_def session_max_age_def local_principal_def json_reply_def
        io_bind_Inr outer_Some run_simps)
  have "middleware pv env cfg LocalAuthenticator scope b =
      Some (Inr (Forwarded (Some (local_principal username))), (w', snd b))"
    if scope: "carries scope v" "sc_type scope = lit ''http''" "sc_path scope \<notin> set public_paths" for scope
  proof -
    obtain cookies where cookies: "header_text scope ''cookie'' = cookie_header cookies" "cookies_ok cookies"
      "map_of cookies SESSION_COOKIE = Some v" and no_bearer: "bearer_value (header_text scope ''authorization'') = None"
      using scope(1) unfolding carries_def by blast
    have found: "cookie_value (header_text scope ''cookie'') SESSION_COOKIE = Some v"
      unfolding cookies(1) by (rule cookie_value_header [OF cookies(2,3)])
    have "decode_session env cfg v (fst b) = Some (Inr (Some (local_principal username)), w')"
      by (rule session_in_time [OF local_principal_ok [OF user(3)] assms(5,4) v(1) assms(6-8)])
        (simp add: local_principal_def)
    then have "session_of env cfg scope b = Some (Inr (Some (local_principal username)), (w', snd b))"
      using run_outer(2) [of "decode_session env cfg v" "fst b" _ _ "snd b"]
      by (simp add: session_of_def found)
    then have "authenticate pv env cfg LocalAuthenticator scope b
        = Some (Inr (Some (local_principal username)), (w', snd b))"
      by (simp add: authenticate_def authenticate_local_def valid_static_bearer_token_def no_bearer
          io_bind_def run_simps split: option.split)
    then show ?thesis
      using scope(2,3) by (simp add: middleware_def io_bind_def run_simps local_has_role)
  qed
  with user v(2) show ?thesis by blast
qed

theorem login_opens_session_witness:
  "\<exists>r a' v. login still_env local_settings (lit ''op'') (lit ''pw'') ((), fresh_client) = Some (Inr r, a') \<and>
     rp_cookies r = [SetCookie SESSION_COOKIE v 604800 True False]"
proof -
  have "ascii (lit ''op'')" "ascii (lit ''pw'')" by (simp_all add: lit_Cons ascii_def)
  then have right: "credentials_match (lit ''op'') (lit ''pw'') local_settings = Inr True"
    by (simp add: credentials_match_def local_settings_def compare_digest_def encode_ascii)
  have secret: "rs_auth_session_secret local_settings = Some (lit ''key'')" by (simp add: local_settings_def)
  obtain v where v: "encode_signed still_env local_settings (principal_dict (local_principal (lit ''op''))) ()
      = Some (Inr v, ())"
    using encode_signed_returns [OF principal_signable [OF local_principal_ok] printable_1000 still_time secret]
      \<open>ascii (lit ''op'')\<close> key_encodes by blast
  have "rs_auth_mode local_settings = LOCAL" by (simp add: local_settings_def)
  moreover from this obtain r a' where r: "login still_env local_settings (lit ''op'') (lit ''pw'') ((), fresh_client)
      = Some (Inr r, a')" "rp_code r = 200"
    using v by (simp add: login_def right set_session_cookie_def session_max_age_def local_principal_def
        io_bind_def outer_def run_simps json_reply_def)
  moreover have "ae_time still_env (fst ((), fresh_client)) = Some (Inr 1000, ())" by (simp add: still_time)
  moreover have local': "rs_auth_session_ttl_seconds local_settings = 604800"
    "rs_auth_cookie_secure local_settings = False" by (simp_all add: local_settings_def default_runner_settings_def)
  ultimately obtain v where "rp_cookies r = [SetCookie SESSION_COOKIE v 604800 True False]"
    using login_opens_session [of local_settings still_env "lit ''op''" "lit ''pw''" "((), fresh_client)" r a' 1000 "()"
        "((), fresh_client)" 1000 "()" sample_provider] printable_1000
    unfolding local' by auto
  with r show ?thesis by blast
qed

section \<open>Two kinds of cookies\<close>

definition transaction_dict :: "pystr \<Rightarrow> pystr \<Rightarrow> pystr \<Rightarrow> json_dict" where
  "transaction_dict state nonce verifier =
     [(lit ''state'', JStr state), (lit ''nonce'', JStr nonce), (lit ''verifier'', JStr verifier)]"

lemma transaction_signable:
  assumes "list_all scalar_value state" and "list_all scalar_value nonce" and "list_all scalar_value verifier"
  shows "signable (transaction_dict state nonce verifier)"
  using assms by (auto simp: signable_def transaction_dict_def dict_ok_def)

text \<open>
  C38. The two signed cookies share one key and are not interchangeable: the cookie of a pending
  login never opens a session, and a session cookie never completes a login - the callback
  answers 401 and sets no cookie, for any state the client sends.
\<close>

theorem cookies_not_interchangeable:
  assumes "list_all scalar_value state" and "list_all scalar_value nonce" and "list_all scalar_value verifier"
    and "principal_ok p" and "printable_code issued" and "ae_time env w = Some (Inr issued, w1)"
    and "encode_signed env cfg (transaction_dict state nonce verifier) w = Some (Inr pending, w2)"
    and "encode_signed env cfg (principal_dict p) w = Some (Inr session, w3)"
    and "ae_time env (fst a) = Some (Inr now, u)"
  shows "(decode_session env cfg pending (fst a) = Some (Inr q, a1) \<longrightarrow> q = None) \<and>
    (sent \<noteq> [] \<longrightarrow> uses_keycloak_ui cfg \<longrightarrow>
      callback pv env cfg True code sent (Some session) a = Some (Inr r, a2) \<longrightarrow>
      r = detail 401 ''invalid authentication transaction'')"
proof (intro conjI impI)
  assume q: "decode_session env cfg pending (fst a) = Some (Inr q, a1)"
  from decode_signed_encoded [OF transaction_signable [OF assms(1-3)] assms(5-7,9)]
  obtain kvs where kvs: "map_of kvs = map_of ((lit ''iat'', JInt issued) # transaction_dict state nonce verifier)"
    "decode_signed env cfg (Some pending) (rs_auth_session_ttl_seconds cfg) (fst a) =
      (if issued \<le> now \<and> now - issued \<le> rs_auth_session_ttl_seconds cfg then unexpired env kvs u
       else Some (Inr None, u))" by blast
  have "map_of kvs (lit ''roles'') = None" by (simp add: kvs(1) transaction_dict_def)
  then have "session_principal env kvs = None" by (simp add: session_principal_def)
  with q kvs(2) show "q = None"
    by (auto simp: decode_session_def io_bind_Inr run_simps split: if_splits option.splits
        dest!: unexpired_accepts)
next
  assume sent: "sent \<noteq> []" and mode: "uses_keycloak_ui cfg"
    and r: "callback pv env cfg True code sent (Some session) a = Some (Inr r, a2)"
  from decode_signed_encoded [OF principal_signable [OF assms(4)] assms(5,6,8,9)]
  obtain kvs where kvs: "map_of kvs = map_of ((lit ''iat'', JInt issued) # principal_dict p)"
    "decode_signed env cfg (Some session) 600 (fst a) =
      (if issued \<le> now \<and> now - issued \<le> 600 then unexpired env kvs u else Some (Inr None, u))" by blast
  have "map_of kvs (lit ''state'') = None" by (simp add: kvs(1) principal_dict_def)
  note no_state = this
  have differs: "\<not> (compare_digest [] sent = Inr True)" using sent by (simp add: compare_digest_def)
  from r mode obtain found where "\<exists>w'. decode_signed env cfg (Some session) 600 (fst a) = Some (Inr found, w')"
    and none: "found = None \<longrightarrow> r = detail 401 ''invalid authentication transaction''"
    and some: "\<And>t. found = Some t \<Longrightarrow> map_of t (lit ''state'') = None \<Longrightarrow>
      compare_digest [] sent = Inr True \<or> r = detail 401 ''invalid authentication transaction''"
    unfolding callback_def
    by (fastforce simp: io_bind_Inr outer_Some run_simps split: if_splits option.splits)
  then have "found = None \<or> found = Some kvs"
    using kvs(2) by (auto split: if_splits dest!: unexpired_accepts) (cases found; auto dest: unexpired_accepts)
  with none some no_state differs show "r = detail 401 ''invalid authentication transaction''" by blast
qed

theorem cookies_not_interchangeable_witness:
  "\<exists>pending. encode_signed still_env local_settings (transaction_dict [97] [98] [99]) () = Some (Inr pending, ()) \<and>
     decode_session still_env local_settings pending () \<noteq> Some (Inr (Some sample_principal), ())"
proof -
  have secret: "rs_auth_session_secret local_settings = Some (lit ''key'')" by (simp add: local_settings_def)
  have text': "list_all scalar_value [c]" if "c < 128" for c using that by (simp add: scalar_value_def)
  note signable = transaction_signable [OF text' [of 97] text' [of 98] text' [of 99], simplified]
  obtain pending where pending:
    "encode_signed still_env local_settings (transaction_dict [97] [98] [99]) () = Some (Inr pending, ())"
    using encode_signed_returns [OF signable printable_1000 still_time secret] key_encodes by blast
  obtain session where session:
    "encode_signed still_env local_settings (principal_dict sample_principal) () = Some (Inr session, ())"
    using encode_signed_returns [OF principal_signable [OF sample_principal_ok] printable_1000 still_time secret]
      key_encodes by blast
  have "ae_time still_env (fst ((), fresh_client)) = Some (Inr 1000, ())" by (simp add: still_time)
  from cookies_not_interchangeable [OF text' text' text' sample_principal_ok printable_1000 still_time
      pending session this, of "Some sample_principal" "()"] pending
  show ?thesis by auto
qed

section \<open>Text beyond ASCII\<close>

text \<open>
  \<^verbatim>\<open>hmac.compare_digest\<close> raises on strings beyond ASCII, outside every handler: a login with
  such a name, or a request whose session cookie has such a character in its signature, is not
  refused but ends in a \<^verbatim>\<open>TypeError\<close>, an internal error of the service.
\<close>

lemma non_ascii_raises:
  assumes "rs_auth_mode cfg = LOCAL" and "rs_auth_username cfg = Some expected_name"
    and "rs_auth_password cfg = Some expected_password" and "\<not> ascii username"
    and "sc_type scope = lit ''http''" and "sc_path scope \<notin> set public_paths"
    and "bearer_value (header_text scope ''authorization'') = None"
    and "cookie_value (header_text scope ''cookie'') SESSION_COOKIE = Some (encoded @ 46 # sig)"
    and "46 \<notin> set encoded" and "\<not> ascii sig" and "signature env cfg encoded = Inr right"
  shows "(\<exists>e. login env cfg username password a = Some (Inl e, a) \<and> exn_kind e = PyTypeError) \<and>
    (\<exists>e. middleware pv env cfg LocalAuthenticator scope a = Some (Inl e, a) \<and> exn_kind e = PyTypeError)"
proof
  show "\<exists>e. login env cfg username password a = Some (Inl e, a) \<and> exn_kind e = PyTypeError"
    using assms(1-4)
    by (simp add: login_def credentials_match_def compare_digest_def io_bind_def run_simps raise_txt_def)
  have "decode_session env cfg (encoded @ 46 # sig) w =
      Some (Inl (raise_txt PyTypeError ''comparing strings with non-ASCII characters is not supported''), w)" for w
    using assms(9-11)
    by (simp add: decode_session_def decode_signed_def partition_on_append compare_digest_def io_bind_def run_simps)
  then have "session_of env cfg scope a =
      Some (Inl (raise_txt PyTypeError ''comparing strings with non-ASCII characters is not supported''), a)"
    by (simp add: session_of_def assms(8) outer_def split: prod.split)
  then show "\<exists>e. middleware pv env cfg LocalAuthenticator scope a = Some (Inl e, a) \<and> exn_kind e = PyTypeError"
    using assms(5-7)
    by (simp add: middleware_def authenticate_def authenticate_local_def valid_static_bearer_token_def
        io_bind_def run_simps raise_txt_def split: option.split)
qed

definition accented_scope :: http_scope where
  "accented_scope = \<lparr>sc_type = lit ''http'', sc_path = lit ''/v1/current'', sc_method = lit ''GET'',
     sc_headers = [(blit ''cookie'', blit ''test_runner_session=a.'' @ [233])]\<rparr>"

lemma accented_cookie:
  "cookie_value (header_text accented_scope ''cookie'') SESSION_COOKIE = Some ([97] @ 46 # [233])"
  "bearer_value (header_text accented_scope ''authorization'') = None"
  "sc_path accented_scope \<notin> set public_paths"
  by code_simp+

lemma non_ascii_raises_witness:
  "\<exists>e. login still_env local_settings [233] [] ((), fresh_client) = Some (Inl e, ((), fresh_client)) \<and>
     exn_kind e = PyTypeError"
proof -
  obtain key where "utf8_encode (lit ''key'') = Inr key" using key_encodes by blast
  moreover have "ascii [97]" "\<not> ascii [233]" by (simp_all add: ascii_def)
  ultimately obtain right where right: "signature still_env local_settings [97] = Inr right"
    by (simp add: signature_def local_settings_def encode_ascii)
  show ?thesis
    using non_ascii_raises [of local_settings "lit ''op''" "lit ''pw''" "[233]" accented_scope "[97]" "[233]"
        still_env right "[]" "((), fresh_client)" sample_provider] accented_cookie right \<open>\<not> ascii [233]\<close>
    by (simp add: local_settings_def accented_scope_def)
qed

section \<open>A request that gets through\<close>

definition token_settings :: runner_settings where
  "token_settings = local_settings\<lparr>rs_oidc_issuer := rs_oidc_issuer sample_oidc_settings,
     rs_auth_api_token := Some (lit ''tok'')\<rparr>"

definition token_scope :: http_scope where
  "token_scope = \<lparr>sc_type = lit ''http'', sc_path = lit ''/v1/runs'', sc_method = lit ''POST'',
     sc_headers = [(blit ''authorization'', blit ''Bearer tok'')]\<rparr>"

lemma token_scope_values:
  "bearer_value (header_text token_scope ''authorization'') = Some (lit ''tok'')"
  "sc_path token_scope \<notin> set public_paths" "sc_type token_scope = lit ''http''"
  by code_simp+

theorem request_authorized_witness:
  "middleware sample_provider still_env token_settings LocalAuthenticator token_scope ((), sample_client)
     = Some (Inr (Forwarded (Some local_api_principal)), ((), sample_client)) \<and>
   has_role local_api_principal (required_role token_scope) token_settings"
proof -
  have "ascii (lit ''tok'')" by (simp add: lit_Cons ascii_def)
  then have run: "middleware sample_provider still_env token_settings LocalAuthenticator token_scope ((), sample_client)
     = Some (Inr (Forwarded (Some local_api_principal)), ((), sample_client))"
    using token_scope_values(2,3)
    by (simp add: middleware_def authenticate_def authenticate_local_def valid_static_bearer_token_def
        token_scope_values(1) token_settings_def encode_ascii io_bind_def run_simps has_role_def
        local_api_principal_def)
  have "issuer_https token_settings"
    using sample_oidc(2) by (simp add: issuer_https_def oidc_issuer_of_def token_settings_def)
  moreover have "oidc_inv (\<lambda>d. d = sample_jwks) (snd ((), sample_client))" by (simp add: sample_oidc)
  ultimately show ?thesis
    using request_authorized [OF sample_oidc(1) _ _ run] token_scope_values(2,3) run by simp
qed

end
