(* ===== verification/Processes.thy ===== *)
theory Processes
  imports Runner_State Utf8
begin

text \<open>
  The process runner of the test-runner service, \<^verbatim>\<open>AsyncioProcessRunner\<close> of
  \<^verbatim>\<open>src/helpers/test-runner-service/src/test_runner_service/processes.py\<close>: a command is run
  with its output copied line by line to the log and its tail kept. The operating system is
  a record of operations on processes; the runner's state is its \<^verbatim>\<open>_process\<close>.
\<close>

record ('w, 'p) process_os =
  ps_spawn :: "pystr list \<Rightarrow> (pystr \<times> pystr) list option \<Rightarrow> ('w, 'p) io"
    \<comment> \<open>with its output in a pipe; \<open>None\<close> inherits the environment\<close>
  ps_spawn_silent :: "pystr list \<Rightarrow> ('w, 'p) io"      \<comment> \<open>with its output discarded\<close>
  ps_has_stdout :: "'p \<Rightarrow> bool"
  ps_open_log :: "('w, unit) io"
  ps_write_log :: "pystr \<Rightarrow> ('w, unit) io"            \<comment> \<open>write and flush\<close>
  ps_close_log :: "('w, unit) io"
  ps_readline :: "'p \<Rightarrow> ('w, bytes) io"
  ps_wait :: "'p \<Rightarrow> ('w, int) io"
  ps_returncode :: "'p \<Rightarrow> ('w, int option) io"
  ps_terminate :: "'p \<Rightarrow> ('w, unit) io"

type_synonym ('w, 'p, 'a) runner_io = "('w \<times> 'p option, 'a) io"

definition dict_union :: "('a \<times> 'b) list \<Rightarrow> ('a \<times> 'b) list \<Rightarrow> ('a \<times> 'b) list" where
  \<comment> \<open>\<^verbatim>\<open>old | new\<close>: old keys keep their place and take their new value\<close>
  "dict_union old new =
     map (\<lambda>(k, v). (k, case map_of new k of Some x \<Rightarrow> x | None \<Rightarrow> v)) old @
     filter (\<lambda>(k, v). k \<notin> set (map fst old)) new"

definition capture_step ::
  "('w, 'p) process_os \<Rightarrow> 'p \<Rightarrow> pystr \<Rightarrow> ('w, 'p, pystr + pystr) runner_io" where
  "capture_step os p output =
     io_bind (outer (ps_readline os p)) (\<lambda>line.
     if line = [] then returning (Inr output)
     else
       let t = utf8_decode_replace line in
       io_then (outer (ps_write_log os t)) (returning (Inl (captured output t))))"

definition capture :: "('w, 'p) process_os \<Rightarrow> 'p \<Rightarrow> ('w, 'p, pystr) runner_io" where
  \<comment> \<open>the \<^verbatim>\<open>with\<close> block\<close>
  "capture os p =
     io_then (outer (ps_open_log os))
       (try_finally (io_loop (capture_step os p) []) (outer (ps_close_log os)))"

definition process_run ::
  "('w, 'p) process_os \<Rightarrow> (pystr \<times> pystr) list \<Rightarrow> pystr list \<Rightarrow> (pystr \<times> pystr) list option
     \<Rightarrow> ('w, 'p, process_result) runner_io" where
  "process_run os os_environ command environment =
     io_bind (outer (ps_spawn os command (map_option (dict_union os_environ) environment))) (\<lambda>p.
     io_then (inner (modifying (\<lambda>_. Some p)))
       (try_finally
         (if \<not> ps_has_stdout os p
          then raising (raise_txt PyRuntimeError ''subprocess output pipe is unavailable'')
          else
            io_bind (capture os p) (\<lambda>output.
            io_bind (outer (ps_wait os p)) (\<lambda>code.
            returning \<lparr>pr_exit_code = code, pr_output = output\<rparr>)))
         (inner (modifying (\<lambda>_. None)))))"

definition process_cancel ::
  "('w, 'p) process_os \<Rightarrow> pystr option \<Rightarrow> ('w, 'p, unit) runner_io" where
  "process_cancel os container_name =
     io_then
       (case container_name of
          None \<Rightarrow> returning 0
        | Some n \<Rightarrow>
            io_bind (outer (ps_spawn_silent os [lit ''docker'', lit ''stop'', n])) (\<lambda>stop.
            outer (ps_wait os stop)))
       (io_bind (inner (reading id)) (\<lambda>running.
        case running of
          None \<Rightarrow> returning ()
        | Some p \<Rightarrow>
            io_bind (outer (ps_returncode os p)) (\<lambda>code.
            if code = None then outer (ps_terminate os p) else returning ())))"

section \<open>Lines of a pipe\<close>

text \<open>
  \<^verbatim>\<open>asyncio.StreamReader.readline\<close> with its default limit of \<^verbatim>\<open>2 ** 16\<close> bytes: a line whose
  content is longer raises \<^verbatim>\<open>ValueError\<close>. The input is what the process still writes.
\<close>

definition STREAM_LIMIT :: nat where
  "STREAM_LIMIT = 65536"

definition stream_readline :: "bytes \<Rightarrow> (exn + bytes) \<times> bytes" where
  "stream_readline s =
     (case partition_on 10 s of (a, found, b) \<Rightarrow>
        (if STREAM_LIMIT < length a
         then Inl (raise_txt PyValueError ''Separator is found, but chunk is longer than limit'')
         else Inr (if found then a @ [10] else a), b))"

lemma partition_on_shorter: "partition_on c s = (a, found, b) \<Longrightarrow> s \<noteq> [] \<Longrightarrow> length b < length s"
  using partition_on_found [of c s a b] partition_on_absent [of c s a b] by (cases found) auto

function byte_lines :: "bytes \<Rightarrow> bytes list" where
  "byte_lines s =
     (if s = [] then []
      else case partition_on 10 s of (a, found, b) \<Rightarrow> (if found then a @ [10] else a) # byte_lines b)"
  by pat_completeness auto
termination
  by (relation "measure length") (auto dest!: partition_on_shorter [OF sym])

declare byte_lines.simps [simp del]

definition line_fits :: "bytes \<Rightarrow> bool" where
  "line_fits l \<longleftrightarrow> length (takeWhile (\<lambda>b. b \<noteq> 10) l) \<le> STREAM_LIMIT"

lemma stream_readline_Nil: "stream_readline [] = (Inr [], [])"
  by (simp add: stream_readline_def)

lemma stream_readline_line:
  assumes "s \<noteq> []"
  obtains l r where "byte_lines s = l # byte_lines r" "l \<noteq> []" "length r < length s"
    "stream_readline s = (if line_fits l then Inr l
       else Inl (raise_txt PyValueError ''Separator is found, but chunk is longer than limit''), r)"
proof -
  obtain a found b where q: "partition_on 10 s = (a, found, b)" by (metis prod_cases3)
  define l where "l = (if found then a @ [10] else a)"
  have split: "s = l @ b" "10 \<notin> set a" "l \<noteq> []"
    using q assms partition_on_found [of 10 s a b] partition_on_absent [of 10 s a b]
    by (cases found; auto simp: l_def)+
  have "takeWhile (\<lambda>x. x \<noteq> 10) l = a" using split(2) by (auto simp: l_def takeWhile_append)
  then have "stream_readline s = (if line_fits l then Inr l
      else Inl (raise_txt PyValueError ''Separator is found, but chunk is longer than limit''), b)"
    by (simp add: stream_readline_def q line_fits_def l_def)
  moreover have "byte_lines s = l # byte_lines b"
    using assms by (subst byte_lines.simps) (simp add: q l_def)
  ultimately show thesis using that split by auto
qed

section \<open>What a run captures\<close>

text \<open>
  What the runner expects of the operating system: \<open>view\<close> is what the process still writes,
  \<open>logged\<close> the text of the log, \<open>code\<close> the exit code.
\<close>

definition pipe_laws ::
  "('w, 'p) process_os \<Rightarrow> 'p \<Rightarrow> ('w \<Rightarrow> bytes) \<Rightarrow> ('w \<Rightarrow> pystr) \<Rightarrow> int \<Rightarrow> bool" where
  "pipe_laws os p view logged code \<longleftrightarrow> ps_has_stdout os p \<and>
     (\<forall>w. \<exists>w'. ps_open_log os w = Some (Inr (), w') \<and> view w' = view w \<and> logged w' = logged w) \<and>
     (\<forall>w. \<exists>w'. ps_close_log os w = Some (Inr (), w') \<and> logged w' = logged w) \<and>
     (\<forall>w t. \<exists>w'. ps_write_log os t w = Some (Inr (), w') \<and> view w' = view w \<and> logged w' = logged w @ t) \<and>
     (\<forall>w. \<exists>w'. ps_readline os p w = Some (fst (stream_readline (view w)), w') \<and>
       view w' = snd (stream_readline (view w)) \<and> logged w' = logged w) \<and>
     (\<forall>w. \<exists>w'. ps_wait os p w = Some (Inr code, w') \<and> logged w' = logged w)"

definition shown_lines :: "bytes list \<Rightarrow> pystr" where
  "shown_lines ls = concat (map utf8_decode_replace ls)"

lemma capture_loop:
  assumes laws: "pipe_laws os p view logged code"
  shows "\<exists>w' r. io_loop (capture_step os p) kept (w, h) = Some (r, (w', h)) \<and>
    logged w' = logged w @ shown_lines (takeWhile line_fits (byte_lines (view w))) \<and>
    (if list_all line_fits (byte_lines (view w))
     then r = Inr (foldl captured kept (map utf8_decode_replace (byte_lines (view w))))
     else \<exists>e. r = Inl e \<and> exn_kind e = PyValueError)"
proof (induction "length (view w)" arbitrary: w kept rule: less_induct)
  case less
  from laws obtain w1 where w1: "ps_readline os p w = Some (fst (stream_readline (view w)), w1)"
    "view w1 = snd (stream_readline (view w))" "logged w1 = logged w" unfolding pipe_laws_def by metis
  show ?case
  proof (cases "view w = []")
    case True
    with w1 show ?thesis
      by (subst io_loop.simps) (auto simp: capture_step_def io_bind_def outer_def io_sum_def run_simps
          stream_readline_Nil byte_lines.simps shown_lines_def)
  next
    case False
    then obtain l r where l: "byte_lines (view w) = l # byte_lines r" "l \<noteq> []" "length r < length (view w)"
      "stream_readline (view w) = (if line_fits l then Inr l
         else Inl (raise_txt PyValueError ''Separator is found, but chunk is longer than limit''), r)"
      by (rule stream_readline_line)
    show ?thesis
    proof (cases "line_fits l")
      case True
      from laws obtain w2 where w2: "ps_write_log os (utf8_decode_replace l) w1 = Some (Inr (), w2)"
        "view w2 = view w1" "logged w2 = logged w1 @ utf8_decode_replace l" unfolding pipe_laws_def by metis
      have view2: "view w2 = r" using w1(2) w2(2) l(4) by simp
      have "io_loop (capture_step os p) kept (w, h)
        = io_loop (capture_step os p) (captured kept (utf8_decode_replace l)) (w2, h)"
        using w1(1) w2(1) l(2,4) True
        by (subst io_loop.simps) (simp add: capture_step_def io_bind_def outer_def io_sum_def run_simps Let_def)
      moreover from less.hyps [of w2 "captured kept (utf8_decode_replace l)"] l(3) view2
      obtain w' q where "io_loop (capture_step os p) (captured kept (utf8_decode_replace l)) (w2, h) = Some (q, (w', h))"
        "logged w' = logged w2 @ shown_lines (takeWhile line_fits (byte_lines r))"
        "if list_all line_fits (byte_lines r)
         then q = Inr (foldl captured (captured kept (utf8_decode_replace l)) (map utf8_decode_replace (byte_lines r)))
         else \<exists>e. q = Inl e \<and> exn_kind e = PyValueError" by auto
      ultimately show ?thesis
        using True w1(3) w2(3) by (intro exI [of _ w'] exI [of _ q]) (simp add: l(1) shown_lines_def)
    next
      case False
      with w1 l show ?thesis
        by (subst io_loop.simps) (auto simp: capture_step_def io_bind_def outer_def io_sum_def run_simps
            shown_lines_def raise_txt_def)
    qed
  qed
qed

lemma process_run_outcome:
  assumes "pipe_laws os p view logged code"
    and "ps_spawn os command (map_option (dict_union os_environ) environment) w = Some (Inr p, w0)"
  shows "\<exists>w' r. process_run os os_environ command environment (w, h) = Some (r, (w', None)) \<and>
    logged w' = logged w0 @ shown_lines (takeWhile line_fits (byte_lines (view w0))) \<and>
    (if list_all line_fits (byte_lines (view w0))
     then r = Inr \<lparr>pr_exit_code = code, pr_output =
       (let s = shown_lines (byte_lines (view w0)) in drop (length s - MAX_CAPTURED_OUTPUT) s)\<rparr>
     else \<exists>e. r = Inl e \<and> exn_kind e = PyValueError)"
proof -
  from assms(1) obtain w1 where w1: "ps_open_log os w0 = Some (Inr (), w1)" "view w1 = view w0"
    "logged w1 = logged w0" unfolding pipe_laws_def by metis
  from capture_loop [OF assms(1), of "[]" w1 "Some p"] obtain w2 r where
      loop: "io_loop (capture_step os p) [] (w1, Some p) = Some (r, (w2, Some p))"
    and log2: "logged w2 = logged w0 @ shown_lines (takeWhile line_fits (byte_lines (view w0)))"
    and r: "if list_all line_fits (byte_lines (view w0))
      then r = Inr (foldl captured [] (map utf8_decode_replace (byte_lines (view w0))))
      else \<exists>e. r = Inl e \<and> exn_kind e = PyValueError" by (auto simp: w1)
  from assms(1) obtain w3 where w3: "ps_close_log os w2 = Some (Inr (), w3)" "logged w3 = logged w2"
    unfolding pipe_laws_def by metis
  from assms(1) obtain w4 where w4: "ps_wait os p w3 = Some (Inr code, w4)" "logged w4 = logged w3"
    unfolding pipe_laws_def by metis
  have capture: "capture os p (w0, Some p) = Some (r, (w3, Some p))"
    by (simp add: capture_def io_bind_def outer_def w1(1) try_finally_def loop w3(1))
  have stdout: "ps_has_stdout os p" using assms(1) by (simp add: pipe_laws_def)
  show ?thesis
  proof (cases r)
    case (Inl e)
    with r capture stdout assms(2) w3(2) log2 show ?thesis
      by (auto simp: process_run_def io_bind_def outer_def inner_def try_finally_def run_simps split: if_splits)
  next
    case (Inr out)
    with r have out: "list_all line_fits (byte_lines (view w0))"
      "out = (let s = shown_lines (byte_lines (view w0)) in drop (length s - MAX_CAPTURED_OUTPUT) s)"
      using capture_lines_tail [of "map utf8_decode_replace (byte_lines (view w0))"]
      by (auto simp: capture_lines_def shown_lines_def Let_def split: if_splits)
    with Inr capture stdout assms(2) w3(2) w4 log2 show ?thesis
      by (simp add: process_run_def io_bind_def outer_def inner_def try_finally_def run_simps)
  qed
qed

text \<open>
  C40. A finished run captures everything exactly: every line the process writes is appended to
  the log, and the result carries the exit code and the last 65536 characters of all of it. A
  line beyond the stream's limit ends the run with \<^verbatim>\<open>ValueError\<close> instead, after the lines
  before it. Either way no process is left recorded, so nothing can be terminated any more.
\<close>

theorem process_run_captures:
  assumes "pipe_laws os p view logged code"
    and "ps_spawn os command (map_option (dict_union os_environ) environment) w = Some (Inr p, w0)"
  shows "\<exists>w' r. process_run os os_environ command environment (w, h) = Some (r, (w', None)) \<and>
    logged w' = logged w0 @ shown_lines (takeWhile line_fits (byte_lines (view w0))) \<and>
    (if list_all line_fits (byte_lines (view w0))
     then r = Inr \<lparr>pr_exit_code = code, pr_output =
       (let s = shown_lines (byte_lines (view w0)) in drop (length s - MAX_CAPTURED_OUTPUT) s)\<rparr>
     else \<exists>e. r = Inl e \<and> exn_kind e = PyValueError)"
  using assms by (rule process_run_outcome)

text \<open>A process with two lines to write.\<close>

definition two_lines :: bytes where
  "two_lines = [104, 105, 10, 104, 111, 10]"

definition sample_os :: "(bytes \<times> pystr, unit) process_os" where
  "sample_os = \<lparr>ps_spawn = (\<lambda>c e. returning ()), ps_spawn_silent = (\<lambda>c. returning ()), ps_has_stdout = (\<lambda>p. True),
     ps_open_log = returning (), ps_write_log = (\<lambda>t. modifying (\<lambda>(b, l). (b, l @ t))), ps_close_log = returning (),
     ps_readline = (\<lambda>p (b, l). Some (fst (stream_readline b), (snd (stream_readline b), l))),
     ps_wait = (\<lambda>p. returning 0), ps_returncode = (\<lambda>p. returning None), ps_terminate = (\<lambda>p. returning ())\<rparr>"

theorem process_run_captures_witness:
  "\<exists>w'. process_run sample_os [] [lit ''docker''] None ((two_lines, []), None) =
     Some (Inr \<lparr>pr_exit_code = 0, pr_output = [104, 105, 10, 104, 111, 10]\<rparr>, (w', None)) \<and>
     snd w' = [104, 105, 10, 104, 111, 10]"
proof -
  have laws: "pipe_laws sample_os () fst snd 0"
    by (auto simp: pipe_laws_def sample_os_def run_simps)
  have ls: "byte_lines two_lines = [[104, 105, 10], [104, 111, 10]]" by code_simp
  have fit: "line_fits [104, 105, 10]" "line_fits [104, 111, 10]" by (simp_all add: line_fits_def STREAM_LIMIT_def)
  have both: "shown_lines [[104, 105, 10], [104, 111, 10]] = [104, 105, 10, 104, 111, 10]" by code_simp
  have spawn: "ps_spawn sample_os [lit ''docker''] (map_option (dict_union []) None) (two_lines, [])
    = Some (Inr (), (two_lines, []))" by (simp add: sample_os_def run_simps)
  from process_run_captures [OF laws spawn, of None] show ?thesis
    by (simp add: ls fit both MAX_CAPTURED_OUTPUT_def Let_def)
qed

end
