(* ===== verification/Runner_Events.thy ===== *)
theory Runner_Events
  imports Runner_State Json_Roundtrip
begin

text \<open>
  The live log of the test-runner service: \<^verbatim>\<open>_event_stream\<close> and \<^verbatim>\<open>_sse\<close> of
  \<^verbatim>\<open>src/helpers/test-runner-service/src/test_runner_service/api.py\<close>. The generator is
  suspended where it yields and where it sleeps, and nowhere else; what everybody else does is
  a history of the log and the state file, indexed by the number of suspensions so far. A log
  file that was replaced keeps its contents for whoever has it open, so a history names files.
  Positions are counted in characters; \<open>tell\<close> gives the number \<^verbatim>\<open>stream.tell()\<close> shows for one.
\<close>

section \<open>Messages\<close>

text \<open>\<^verbatim>\<open>json.dumps(data, ensure_ascii=False)\<close> with the default separators.\<close>

definition plain_char :: "nat \<Rightarrow> pystr" where
  "plain_char c =
     (if c = 34 then [92, 34] else if c = 92 then [92, 92]
      else if c = 10 then [92, 110] else if c = 13 then [92, 114] else if c = 9 then [92, 116]
      else if c = 12 then [92, 102] else if c = 8 then [92, 98]
      else if c < 32 then u_escape c else [c])"

definition plain_string :: "pystr \<Rightarrow> pystr" where
  "plain_string s = [34] @ concat (map plain_char s) @ [34]"

fun plain_dumps :: "json \<Rightarrow> pystr" where
  "plain_dumps JNull = lit ''null''"
| "plain_dumps (JBool b) = (if b then lit ''true'' else lit ''false'')"
| "plain_dumps (JInt i) = int_text i"
| "plain_dumps (JFloat t) = t"
| "plain_dumps (JStr s) = plain_string s"
| "plain_dumps (JList vs) = [91] @ join (lit '', '') (map plain_dumps vs) @ [93]"
| "plain_dumps (JObj kvs) =
     [123] @ join (lit '', '') (map (\<lambda>(k, v). plain_string k @ lit '': '' @ plain_dumps v) kvs) @ [125]"

definition sse_fields :: "string \<Rightarrow> json \<Rightarrow> int option \<Rightarrow> pystr list" where
  "sse_fields event data event_id =
     (case event_id of None \<Rightarrow> [] | Some i \<Rightarrow> [lit ''id: '' @ int_text i]) @
     [lit ''event: '' @ lit event, lit ''data: '' @ plain_dumps data]"

definition sse :: "string \<Rightarrow> json \<Rightarrow> int option \<Rightarrow> pystr" where
  "sse event data event_id = join [10] (sse_fields event data event_id @ [[]]) @ [10]"

section \<open>The stream\<close>

record history =
  hs_log :: "nat \<Rightarrow> nat option"                    \<comment> \<open>the file \<^verbatim>\<open>current.log\<close> names\<close>
  hs_text :: "nat \<Rightarrow> nat \<Rightarrow> pystr"                  \<comment> \<open>the decoded contents of a file\<close>
  hs_state :: "nat \<Rightarrow> operation_state option"      \<comment> \<open>the state file\<close>

type_synonym 'a stream_io = "(nat \<times> pystr list, 'a) io"    \<comment> \<open>suspensions and messages so far\<close>

definition now_of :: "(nat \<Rightarrow> 'a) \<Rightarrow> 'a stream_io" where
  "now_of f = reading (\<lambda>(t, sent). f t)"

definition emit :: "pystr \<Rightarrow> unit stream_io" where
  "emit m = modifying (\<lambda>(t, sent). (Suc t, sent @ [m]))"

definition pause :: "unit stream_io" where
  "pause = modifying (\<lambda>(t, sent). (Suc t, sent))"

text \<open>\<^verbatim>\<open>readline()\<close> in text mode: the line, with any of the three line ends as a line feed, and how
  many characters it took.\<close>

fun text_line :: "pystr \<Rightarrow> pystr \<times> nat" where
  "text_line [] = ([], 0)"
| "text_line (c # cs) =
     (if c = 10 then ([10], 1)
      else if c = 13 then ([10], if prefix [10] cs then 2 else 1)
      else (case text_line cs of (l, n) \<Rightarrow> (c # l, Suc n)))"

definition output_message :: "(nat \<Rightarrow> int) \<Rightarrow> pystr option \<Rightarrow> pystr \<Rightarrow> nat \<Rightarrow> pystr" where
  "output_message tell operation_id line offset =
     sse ''output'' (JObj [(lit ''operation_id'', case operation_id of None \<Rightarrow> JNull | Some i \<Rightarrow> JStr i),
       (lit ''text'', JStr (rstrip_by (\<lambda>c. c = 10) line))]) (Some (tell offset))"

definition line_step ::
  "history \<Rightarrow> (nat \<Rightarrow> int) \<Rightarrow> pystr option \<Rightarrow> nat \<Rightarrow> nat \<Rightarrow> (nat + nat) stream_io" where
  \<comment> \<open>\<^verbatim>\<open>while line := stream.readline()\<close> on the open file\<close>
  "line_step hs tell operation_id file offset =
     io_bind (now_of (\<lambda>t. hs_text hs t file)) (\<lambda>contents.
     case text_line (drop offset contents) of (line, n) \<Rightarrow>
       if line = [] then returning (Inr offset)
       else io_then (emit (output_message tell operation_id line (offset + n)))
         (returning (Inl (offset + n))))"

definition stream_step ::
  "history \<Rightarrow> (nat \<Rightarrow> int) \<Rightarrow> (operation_state \<Rightarrow> json) \<Rightarrow> pystr option \<Rightarrow> nat \<Rightarrow> (nat + unit) stream_io" where
  \<comment> \<open>one round of \<^verbatim>\<open>while True\<close>; \<open>dump\<close> is pydantic's \<^verbatim>\<open>model_dump(mode="json")\<close>\<close>
  "stream_step hs tell dump operation_id offset =
     io_bind (now_of (hs_log hs)) (\<lambda>log_file.
     io_bind (case log_file of
         None \<Rightarrow> returning offset
       | Some file \<Rightarrow> io_loop (line_step hs tell operation_id file) offset) (\<lambda>offset'.
     io_bind (now_of (hs_state hs)) (\<lambda>state.
     case state of
       None \<Rightarrow> returning (Inr ())
     | Some s \<Rightarrow>
         if Some (op_id s) \<noteq> operation_id
         then io_then (emit (sse ''reset'' (JObj [(lit ''operation_id'', JStr (op_id s))]) (Some 0)))
           (returning (Inr ()))
         else if is_terminal (op_status s)
         then io_then (emit (sse ''status'' (dump s) None)) (returning (Inr ()))
         else io_then pause (returning (Inl offset')))))"

definition event_stream ::
  "history \<Rightarrow> (nat \<Rightarrow> int) \<Rightarrow> (operation_state \<Rightarrow> json) \<Rightarrow> unit stream_io" where
  "event_stream hs tell dump =
     io_bind (now_of (hs_state hs)) (\<lambda>initial.
     io_loop (stream_step hs tell dump (map_option op_id initial)) 0)"

lemmas stream_defs = now_of_def emit_def pause_def io_bind_def io_sum_def run_simps

section \<open>What a client reads\<close>

text \<open>
  The reader of the event-stream format: lines end with a carriage return, a line feed or
  both, an empty line ends an event, and an event that is not ended is dropped.
\<close>

definition sse_lines :: "pystr \<Rightarrow> pystr list" where
  "sse_lines s = split_on 10 (replace [13] [10] (replace [13, 10] [10] s))"

fun sse_groups :: "pystr list \<Rightarrow> pystr list \<Rightarrow> pystr list list" where
  "sse_groups event [] = []"
| "sse_groups event (l # ls) =
     (if l \<noteq> [] then sse_groups (event @ [l]) ls
      else if event = [] then sse_groups [] ls else event # sse_groups [] ls)"

definition read_events :: "pystr \<Rightarrow> pystr list list" where
  "read_events s = sse_groups [] (sse_lines s)"

definition one_line :: "pystr \<Rightarrow> bool" where
  "one_line s \<longleftrightarrow> 10 \<notin> set s \<and> 13 \<notin> set s"

fun plain_json :: "json \<Rightarrow> bool" where
  \<comment> \<open>number literals hold no line end\<close>
  "plain_json (JFloat t) = one_line t"
| "plain_json (JList vs) = list_all plain_json vs"
| "plain_json (JObj kvs) = list_all (\<lambda>(k, v). plain_json v) kvs"
| "plain_json v = True"

lemma one_line_simps [simp]:
  "one_line []" "one_line (a @ b) \<longleftrightarrow> one_line a \<and> one_line b"
  "one_line (c # s) \<longleftrightarrow> c \<noteq> 10 \<and> c \<noteq> 13 \<and> one_line s"
  by (auto simp: one_line_def)

lemma one_line_int: "one_line (int_text i)"
  by (auto simp: one_line_def int_text_def is_digit_cp_def dest: nat_text_digits)

lemma one_line_concat: "(\<And>x. x \<in> set xs \<Longrightarrow> one_line x) \<Longrightarrow> one_line (concat xs)"
  by (auto simp: one_line_def)

lemma one_line_join: "one_line sep \<Longrightarrow> (\<And>x. x \<in> set xs \<Longrightarrow> one_line x) \<Longrightarrow> one_line (join sep xs)"
  by (fastforce simp: one_line_def dest!: set_join)

lemma one_line_char: "one_line (plain_char c)"
proof -
  have "hex_digit d \<noteq> 10 \<and> hex_digit d \<noteq> 13" for d by (auto simp: hex_digit_def)
  then show ?thesis by (auto simp: plain_char_def u_escape_def)
qed

lemma one_line_string: "one_line (plain_string s)"
  by (auto simp: plain_string_def one_line_char intro!: one_line_concat)

lemma one_line_dumps: "plain_json v \<Longrightarrow> one_line (plain_dumps v)"
proof (induction v rule: plain_dumps.induct)
  case (7 kvs)
  have "one_line (join (lit '', '') (map (\<lambda>(k, v). plain_string k @ lit '': '' @ plain_dumps v) kvs))"
    using 7 by (intro one_line_join) (auto simp: one_line_string lit_Cons list_all_iff)
  then show ?case by simp
qed (auto simp: one_line_string one_line_int lit_Cons list_all_iff intro!: one_line_join)

lemma replace_crlf_absent: "13 \<notin> set s \<Longrightarrow> replace [13, 10] [10] s = (s :: pystr)"
  by (induction s) (auto simp: replace_def replace_nonempty_Cons)

lemma replace_absent: "13 \<notin> set s \<Longrightarrow> replace [13] [10] s = (s :: pystr)"
  by (induction s) (auto simp: replace_single)

lemma join_lines: "fs \<noteq> [] \<Longrightarrow> join [10] (fs @ [[]]) = concat (map (\<lambda>f. f @ [10]) fs)"
proof (induction fs rule: induct_list012)
  case (3 x y zs)
  then show ?case by simp
qed simp_all

lemma split_lines_append:
  "list_all one_line fs \<Longrightarrow> split_on 10 (concat (map (\<lambda>f. f @ [10]) fs) @ r) = fs @ split_on 10 r"
  by (induction fs) (auto simp: one_line_def split_on_append_sep)

lemma sse_groups_append: "[] \<notin> set fs \<Longrightarrow> sse_groups event (fs @ ls) = sse_groups (event @ fs) ls"
  by (induction fs arbitrary: event) auto

definition sse_message :: "string \<times> json \<times> int option \<Rightarrow> pystr" where
  "sse_message m = (case m of (event, data, i) \<Rightarrow> sse event data i)"

definition message_fields :: "string \<times> json \<times> int option \<Rightarrow> pystr list" where
  "message_fields m = (case m of (event, data, i) \<Rightarrow> sse_fields event data i)"

definition sound_message :: "string \<times> json \<times> int option \<Rightarrow> bool" where
  "sound_message m \<longleftrightarrow> (case m of (event, data, i) \<Rightarrow> one_line (lit event) \<and> plain_json data)"

lemma message_lines:
  "sse_message m = concat (map (\<lambda>f. f @ [10]) (message_fields m)) @ [10]"
  "sound_message m \<Longrightarrow> list_all one_line (message_fields m)"
  "message_fields m \<noteq> []" "[] \<notin> set (message_fields m)"
proof -
  obtain event data i where m: "m = (event, data, i)" by (cases m)
  have ne: "sse_fields event data i \<noteq> []" by (simp add: sse_fields_def)
  show "sse_message m = concat (map (\<lambda>f. f @ [10]) (message_fields m)) @ [10]"
    by (simp add: m sse_message_def message_fields_def sse_def join_lines [OF ne])
  show "sound_message m \<Longrightarrow> list_all one_line (message_fields m)"
    by (auto simp: m sound_message_def message_fields_def sse_fields_def one_line_int one_line_dumps lit_Cons
        split: option.split)
  show "message_fields m \<noteq> []" "[] \<notin> set (message_fields m)"
    using ne by (auto simp: m message_fields_def sse_fields_def lit_Cons split: option.split)
qed

lemma read_messages:
  assumes "list_all sound_message ms"
  shows "read_events (concat (map sse_message ms)) = map message_fields ms"
proof -
  have "13 \<notin> set (sse_message m)" if "sound_message m" for m
    using message_lines(2) [OF that] by (auto simp: message_lines(1) list_all_iff one_line_def)
  with assms have "13 \<notin> set (concat (map sse_message ms))" by (auto simp: list_all_iff)
  then have "sse_lines (concat (map sse_message ms)) = split_on 10 (concat (map sse_message ms))"
    by (simp add: sse_lines_def replace_crlf_absent replace_absent)
  moreover have "sse_groups [] (split_on 10 (concat (map sse_message ms))) = map message_fields ms"
    using assms
  proof (induction ms)
    case (Cons m ms)
    then have "split_on 10 (sse_message m @ concat (map sse_message ms))
      = message_fields m @ [] # split_on 10 (concat (map sse_message ms))"
      by (simp add: message_lines(1) split_lines_append message_lines(2))
    with Cons show ?case
      by (simp add: sse_groups_append message_lines(3,4))
  qed simp
  ultimately show ?thesis by (simp add: read_events_def)
qed

section \<open>Following an operation\<close>

text \<open>
  The history of one operation: the log stays in place and only grows, at any moment by any
  text, and from moment \<open>T\<close> on the state is final and nothing is written.
\<close>

definition follows ::
  "history \<Rightarrow> nat \<Rightarrow> pystr \<Rightarrow> pystr \<Rightarrow> (nat \<Rightarrow> nat) \<Rightarrow> operation_state \<Rightarrow> nat \<Rightarrow> bool" where
  \<comment> \<open>\<open>written t\<close> characters of the whole log are in the file at moment \<open>t\<close>\<close>
  "follows hs file i whole written final T \<longleftrightarrow>
     (\<forall>t. hs_log hs t = Some file \<and> hs_text hs t file = take (written t) whole) \<and>
     (\<forall>t u. t \<le> u \<longrightarrow> written t \<le> written u) \<and> (\<forall>t. written t \<le> length whole) \<and>
     (\<forall>t < T. \<exists>s. hs_state hs t = Some s \<and> op_id s = i \<and> \<not> is_terminal (op_status s)) \<and>
     (\<forall>t \<ge> T. hs_state hs t = Some final \<and> written t = length whole) \<and>
     op_id final = i \<and> is_terminal (op_status final)"

text \<open>No line is in the file in part: what is written ends with a line feed, but for the very end.\<close>

definition line_by_line :: "pystr \<Rightarrow> (nat \<Rightarrow> nat) \<Rightarrow> bool" where
  "line_by_line whole written \<longleftrightarrow>
     (\<forall>t. written t = 0 \<or> written t = length whole \<or> last (take (written t) whole) = 10)"

lemma text_line_taken:
  "s \<noteq> [] \<Longrightarrow> text_line s = (l, n) \<Longrightarrow> 0 < n \<and> n \<le> length s \<and> l \<noteq> [] \<and> text_line (take n s) = (l, n)"
proof (induction s arbitrary: l n)
  case (Cons c cs)
  consider "c = 10" | "c = 13" | (other) "c \<noteq> 10" "c \<noteq> 13" by blast
  then show ?case
  proof cases
    case other
    obtain l' n' where q: "text_line cs = (l', n')" by (cases "text_line cs")
    show ?thesis
    proof (cases "cs = []")
      case False
      with Cons.IH [OF this q] Cons.prems other q show ?thesis by auto
    qed (use Cons.prems other in auto)
  next
    assume "c = 13"
    with Cons.prems show ?thesis by (cases cs) (auto split: if_splits)
  qed (use Cons.prems in auto)
qed simp

lemma text_line_ended: "x \<noteq> [] \<Longrightarrow> last x = 10 \<Longrightarrow> text_line (x @ y) = text_line x"
proof (induction x)
  case (Cons c cs)
  show ?case
  proof (cases "cs = []")
    case False
    with Cons have "text_line (cs @ y) = text_line cs" by simp
    with False show ?thesis by (cases cs) auto
  qed (use Cons.prems in simp)
qed simp

text \<open>The lines of a text, each with its own end.\<close>

function raw_lines :: "pystr \<Rightarrow> pystr list" where
  "raw_lines s =
     (if s = [] then [] else take (snd (text_line s)) s # raw_lines (drop (snd (text_line s)) s))"
  by pat_completeness auto
termination
  by (relation "measure length") (auto dest: text_line_taken [OF _ prod.collapse [symmetric]])

declare raw_lines.simps [simp del]

definition one_piece :: "pystr \<Rightarrow> bool" where
  \<comment> \<open>no line ends inside it\<close>
  "one_piece p \<longleftrightarrow> p \<noteq> [] \<and> snd (text_line p) = length p"

definition position :: "pystr list \<Rightarrow> nat \<Rightarrow> nat" where
  "position ps k = length (concat (take k ps))"

definition output_event :: "(nat \<Rightarrow> int) \<Rightarrow> pystr \<Rightarrow> pystr list \<Rightarrow> nat \<Rightarrow> string \<times> json \<times> int option" where
  "output_event tell i ps k =
     (''output'', JObj [(lit ''operation_id'', JStr i),
        (lit ''text'', JStr (takeWhile (\<lambda>c. c \<noteq> 10 \<and> c \<noteq> 13) (ps ! k)))], Some (tell (position ps (Suc k))))"

lemma line_without_end:
  "rstrip_by (\<lambda>c. c = 10) (fst (text_line s)) = takeWhile (\<lambda>c. c \<noteq> 10 \<and> c \<noteq> 13) s"
proof (induction s)
  case (Cons c cs)
  have "rstrip_by (\<lambda>c. c = 10) (c # l) = c # rstrip_by (\<lambda>c. c = 10) l" if "c \<noteq> 10" for l :: pystr
    using that by (induction l rule: rev_induct) (auto simp: rstrip_by_def)
  moreover have "rstrip_by (\<lambda>c. c = 10) [10 :: nat] = []" by (simp add: rstrip_by_def)
  ultimately show ?case using Cons by (auto split: prod.split)
qed (simp add: rstrip_by_def)

definition shown :: "(nat \<Rightarrow> int) \<Rightarrow> pystr \<Rightarrow> pystr list \<Rightarrow> pystr list" where
  "shown tell i ps = map (\<lambda>k. sse_message (output_event tell i ps k)) [0..<length ps]"

lemma shown_snoc:
  "shown tell i (ps @ [p]) = shown tell i ps @
     [output_message tell (Some i) (fst (text_line p)) (length (concat ps) + length p)]"
proof -
  have "sse_message (output_event tell i (ps @ [p]) k) = sse_message (output_event tell i ps k)" if "k < length ps" for k
    using that by (simp add: output_event_def position_def nth_append)
  moreover have "sse_message (output_event tell i (ps @ [p]) (length ps)) =
      output_message tell (Some i) (fst (text_line p)) (length (concat ps) + length p)"
    by (simp add: output_event_def output_message_def sse_message_def position_def line_without_end)
  ultimately show ?thesis by (simp add: shown_def)
qed

definition delivering :: "pystr \<Rightarrow> (nat \<Rightarrow> nat) \<Rightarrow> pystr list \<Rightarrow> bool" where
  "delivering whole written ps \<longleftrightarrow> concat ps = take (length (concat ps)) whole \<and> list_all one_piece ps \<and>
     (line_by_line whole written \<longrightarrow> raw_lines whole = ps @ raw_lines (drop (length (concat ps)) whole))"

lemma delivering_step:
  assumes "delivering whole written ps" and "length (concat ps) < written t" and "written t \<le> length whole"
    and line: "text_line (drop (length (concat ps)) (take (written t) whole)) = (l, n)"
  defines "p \<equiv> take n (drop (length (concat ps)) whole)"
  shows "delivering whole written (ps @ [p]) \<and> length p = n \<and> fst (text_line p) = l \<and> l \<noteq> [] \<and>
    length (concat ps) + n \<le> written t"
proof -
  let ?o = "length (concat ps)" and ?s = "drop (length (concat ps)) (take (written t) whole)"
  have "?s \<noteq> []" using assms(2,3) by simp
  from text_line_taken [OF this line] have n: "0 < n" "n \<le> written t - ?o" "l \<noteq> []" "text_line (take n ?s) = (l, n)"
    using assms(3) by auto
  then have p: "p = take n ?s" by (simp add: p_def drop_take min_def)
  have len: "length p = n" using n(2) assms(2,3) by (simp add: p_def)
  have rest: "raw_lines (drop ?o whole) = p # raw_lines (drop (?o + n) whole)" if whole: "line_by_line whole written"
  proof -
    have "text_line (drop ?o whole) = (l, n)"
    proof (cases "written t = length whole")
      case False
      with whole assms(2) have "last (take (written t) whole) = 10" unfolding line_by_line_def by (metis not_less_zero)
      then have "last ?s = 10" using assms(2,3) by (simp add: last_drop)
      moreover have "drop ?o whole = ?s @ drop (written t) whole"
        by (metis append_take_drop_id assms(2) drop_append drop_take length_take less_imp_le
            min.absorb2 assms(3) diff_is_0_eq drop0)
      ultimately show ?thesis using text_line_ended [OF \<open>?s \<noteq> []\<close>] line by metis
    qed (use line in simp)
    moreover have "drop ?o whole \<noteq> []" using assms(2,3) by simp
    ultimately show ?thesis by (subst raw_lines.simps) (simp add: p_def add.commute)
  qed
  have "concat ps @ p = take (?o + n) whole"
    using assms(1) unfolding delivering_def p_def by (metis take_add)
  moreover have "one_piece p" using n len by (auto simp: one_piece_def p)
  moreover have size: "length (concat (ps @ [p])) = ?o + n" using len by simp
  ultimately have "delivering whole written (ps @ [p])"
    using assms(1) rest unfolding delivering_def size by simp
  with n(2-4) len p assms(2) show ?thesis by simp
qed

lemma lines_delivered:
  assumes "follows hs file i whole written final T"
  shows "delivering whole written ps \<Longrightarrow> length (concat ps) \<le> written t \<Longrightarrow> \<exists>u ps'. t \<le> u \<and>
    io_loop (line_step hs tell (Some i) file) (length (concat ps)) (t, shown tell i ps)
      = Some (Inr (written u), (u, shown tell i ps')) \<and> delivering whole written ps' \<and> length (concat ps') = written u"
proof (induction "length whole - length (concat ps)" arbitrary: ps t rule: less_induct)
  case less
  from assms have text_at: "hs_text hs t file = take (written t) whole" "written t \<le> length whole"
    and mono: "written t \<le> written (Suc t)"
    by (auto simp: follows_def)
  show ?case
  proof (cases "length (concat ps) = written t")
    case True
    with less.prems show ?thesis
      by (intro exI [of _ t] exI [of _ ps], subst io_loop.simps)
        (simp add: line_step_def stream_defs text_at)
  next
    case False
    obtain l n where line: "text_line (drop (length (concat ps)) (take (written t) whole)) = (l, n)"
      by (meson surj_pair)
    define p where "p = take n (drop (length (concat ps)) whole)"
    have before: "length (concat ps) < written t" using False less.prems(2) by simp
    note step = delivering_step [OF less.prems(1) before text_at(2) line, folded p_def]
    have run: "io_loop (line_step hs tell (Some i) file) (length (concat ps)) (t, shown tell i ps)
        = io_loop (line_step hs tell (Some i) file) (length (concat (ps @ [p]))) (Suc t, shown tell i (ps @ [p]))"
      using step by (subst io_loop.simps) (simp add: line_step_def stream_defs text_at line shown_snoc)
    have "0 < n" using step text_line_taken [OF _ line] before text_at(2) by simp
    moreover have "length (concat ps) < length whole" using before text_at(2) by (rule less_le_trans)
    ultimately have smaller: "length whole - length (concat (ps @ [p])) < length whole - length (concat ps)"
      using step by (simp add: diff_less_mono2)
    have "length (concat (ps @ [p])) \<le> written (Suc t)" using step mono by simp
    with less.hyps [OF smaller] step obtain u ps' where "Suc t \<le> u"
      "io_loop (line_step hs tell (Some i) file) (length (concat (ps @ [p]))) (Suc t, shown tell i (ps @ [p]))
        = Some (Inr (written u), (u, shown tell i ps'))" "delivering whole written ps'" "length (concat ps') = written u"
      by metis
    with run show ?thesis by (intro exI [of _ u] exI [of _ ps']) simp
  qed
qed

lemma rounds_delivered:
  assumes "follows hs file i whole written final T"
  shows "delivering whole written ps \<Longrightarrow> length (concat ps) \<le> written t \<Longrightarrow> \<exists>u ps'.
    io_loop (stream_step hs tell dump (Some i)) (length (concat ps)) (t, shown tell i ps)
      = Some (Inr (), (u, shown tell i ps' @ [sse_message (''status'', dump final, None)])) \<and>
    delivering whole written ps' \<and> length (concat ps') = length whole"
proof (induction "T - t" arbitrary: ps t rule: less_induct)
  case less
  from lines_delivered [OF assms less.prems] obtain u ps' where u: "t \<le> u"
    "io_loop (line_step hs tell (Some i) file) (length (concat ps)) (t, shown tell i ps)
      = Some (Inr (written u), (u, shown tell i ps'))" "delivering whole written ps'" "length (concat ps') = written u"
    by blast
  have log_file: "hs_log hs t = Some file" using assms by (simp add: follows_def)
  show ?case
  proof (cases "u < T")
    case True
    with assms obtain s where s: "hs_state hs u = Some s" "op_id s = i" "\<not> is_terminal (op_status s)"
      by (auto simp: follows_def)
    have "io_loop (stream_step hs tell dump (Some i)) (length (concat ps)) (t, shown tell i ps)
        = io_loop (stream_step hs tell dump (Some i)) (length (concat ps')) (Suc u, shown tell i ps')"
      by (subst io_loop.simps) (simp add: stream_step_def stream_defs log_file u(2,4) s)
    moreover have "length (concat ps') \<le> written (Suc u)" using assms u(4) by (simp add: follows_def)
    ultimately show ?thesis using less.hyps [of "Suc u" ps'] True u(1,3) by auto
  next
    case False
    with assms have final: "hs_state hs u = Some final" "written u = length whole" "op_id final = i"
      "is_terminal (op_status final)" by (auto simp: follows_def)
    with u(3,4) show ?thesis
      by (intro exI [of _ "Suc u"] exI [of _ ps'], subst io_loop.simps)
        (simp add: stream_step_def stream_defs log_file u(2) sse_message_def)
  qed
qed

text \<open>
  C17. Who follows an operation misses nothing, as long as its log is not replaced before the
  stream has ended: the stream ends, and its client reads output events and then one status event
  with the final state. The events' pieces are the whole log, in order, nothing lost or repeated;
  each holds one line or a part of one, and carries its text and the position after it. If
  the log is written line by line, whenever that is, the pieces are exactly its lines.
\<close>

theorem event_stream_delivers:
  assumes "follows hs file i whole written final T" and "plain_json (dump final)"
  shows "\<exists>u sent ps. event_stream hs tell dump (0, []) = Some (Inr (), (u, sent)) \<and>
    read_events (concat sent) = map (\<lambda>k. message_fields (output_event tell i ps k)) [0..<length ps] @
      [message_fields (''status'', dump final, None)] \<and>
    concat ps = whole \<and> list_all one_piece ps \<and> (line_by_line whole written \<longrightarrow> ps = raw_lines whole)"
proof -
  obtain s where "hs_state hs 0 = Some s" "op_id s = i"
    using assms(1) by (cases "0 < T") (auto simp: follows_def)
  moreover have "delivering whole written []" by (simp add: delivering_def)
  from rounds_delivered [OF assms(1) this, of 0 tell dump] obtain u ps where
      "io_loop (stream_step hs tell dump (Some i)) 0 (0, [])
      = Some (Inr (), (u, shown tell i ps @ [sse_message (''status'', dump final, None)]))"
    and ps: "delivering whole written ps" "length (concat ps) = length whole"
    by (auto simp: shown_def)
  ultimately have run: "event_stream hs tell dump (0, [])
      = Some (Inr (), (u, shown tell i ps @ [sse_message (''status'', dump final, None)]))"
    by (simp add: event_stream_def stream_defs)
  let ?ms = "map (output_event tell i ps) [0..<length ps] @ [(''status'', dump final, None)]"
  have "list_all sound_message ?ms"
    using assms(2) by (auto simp: sound_message_def output_event_def lit_Cons list_all_iff)
  from read_messages [OF this] have
    "read_events (concat (shown tell i ps @ [sse_message (''status'', dump final, None)])) =
      map (\<lambda>k. message_fields (output_event tell i ps k)) [0..<length ps] @ [message_fields (''status'', dump final, None)]"
    by (simp add: shown_def comp_def)
  moreover have "concat ps = whole" "list_all one_piece ps" "line_by_line whole written \<longrightarrow> ps = raw_lines whole"
    using ps by (auto simp: delivering_def raw_lines.simps [of "[]"])
  ultimately show ?thesis using run by blast
qed

text \<open>A log of two lines, the first with a carriage return and the second without an end.\<close>

definition sample_final :: operation_state where
  "sample_final = (started 0 (lit ''run-0'') RUN_TESTS RUNNING)\<lparr>op_status := PASSED\<rparr>"

definition sample_history :: history where
  "sample_history = \<lparr>hs_log = (\<lambda>t. Some 0), hs_text = (\<lambda>t f. take (if t < 2 then 3 else 4) [97, 13, 10, 98]),
     hs_state = (\<lambda>t. Some (if t < 3 then sample_final\<lparr>op_status := RUNNING\<rparr> else sample_final))\<rparr>"

theorem event_stream_delivers_witness:
  "\<exists>u sent. event_stream sample_history int (\<lambda>s. JStr (op_id s)) (0, []) = Some (Inr (), (u, sent)) \<and>
     map (\<lambda>fs. drop 1 fs) (read_events (concat sent)) =
       [[lit ''event: output'', lit ''data: '' @ plain_dumps (JObj [(lit ''operation_id'', JStr (lit ''run-0'')), (lit ''text'', JStr [97])])],
        [lit ''event: output'', lit ''data: '' @ plain_dumps (JObj [(lit ''operation_id'', JStr (lit ''run-0'')), (lit ''text'', JStr [98])])],
        [lit ''data: '' @ plain_string (lit ''run-0'')]]"
proof -
  let ?written = "\<lambda>t :: nat. if t < 2 then 3 else 4 :: nat"
  have "follows sample_history 0 (lit ''run-0'') [97, 13, 10, 98] ?written sample_final 3"
    by (simp add: follows_def sample_history_def sample_final_def started_def is_terminal_def)
  moreover have lines: "line_by_line [97, 13, 10, 98] ?written" by (simp add: line_by_line_def)
  moreover have "raw_lines [97, 13, 10, 98] = [[97, 13, 10], [98]]" by (simp add: raw_lines.simps)
  ultimately obtain u sent where
      "event_stream sample_history int (\<lambda>s. JStr (op_id s)) (0, []) = Some (Inr (), (u, sent))"
    and "read_events (concat sent) = map (\<lambda>k. message_fields (output_event int (lit ''run-0'')
        [[97, 13, 10], [98]] k)) [0..<length [[97, 13, 10], [98 :: nat]]] @
      [message_fields (''status'', JStr (op_id sample_final), None)]"
    using event_stream_delivers [of sample_history 0 "lit ''run-0''" "[97, 13, 10, 98]" ?written sample_final 3
        "\<lambda>s. JStr (op_id s)" int] by auto
  then show ?thesis
    by (simp add: upt_rec message_fields_def output_event_def sse_fields_def sample_final_def started_def lit_Cons)
qed

section \<open>When the log is replaced\<close>

text \<open>
  The promise holds for one operation. When another one starts while the stream sleeps, the new
  log is read at the old position, and the lines found there are sent under the id of the
  operation before, ahead of the reset.
\<close>

definition replaced_log :: history where
  "replaced_log = \<lparr>hs_log = (\<lambda>t. Some (if t < 2 then 0 else 1)),
     hs_text = (\<lambda>t f. if f = 0 then [120, 10] else [121, 10, 122, 10]),
     hs_state = (\<lambda>t. Some (started 0 (if t < 2 then [97] else [98]) RUN_TESTS RUNNING))\<rparr>"

lemma next_log_mislabelled:
  "event_stream replaced_log int (\<lambda>s. JNull) (0, []) = Some (Inr (), (4,
     [output_message int (Some [97]) [120, 10] 2,
      output_message int (Some [97]) [122, 10] 4,
      sse ''reset'' (JObj [(lit ''operation_id'', JStr [98])]) (Some 0)]))"
proof -
  have reads: "io_loop (line_step replaced_log int (Some [97]) f) n (t, sent) =
      (case text_line (drop n (if f = 0 then [120, 10] else [121, 10, 122, 10])) of (line, m) \<Rightarrow>
        if line = [] then Some (Inr n, (t, sent))
        else io_loop (line_step replaced_log int (Some [97]) f) (n + m)
          (Suc t, sent @ [output_message int (Some [97]) line (n + m)]))" for f n t sent
    by (subst io_loop.simps) (simp add: line_step_def stream_defs replaced_log_def split: prod.splits)
  have round: "io_loop (stream_step replaced_log int (\<lambda>s. JNull) (Some [97])) n (t, sent) =
     io_bind (stream_step replaced_log int (\<lambda>s. JNull) (Some [97]) n)
      (\<lambda>x. io_sum x (io_loop (stream_step replaced_log int (\<lambda>s. JNull) (Some [97]))) returning) (t, sent)" for n t sent
    by (subst io_loop.simps) simp
  have world: "hs_log replaced_log t = Some (if t < 2 then 0 else 1)"
    "hs_state replaced_log t = Some (started 0 (if t < 2 then [97] else [98]) RUN_TESTS RUNNING)" for t
    by (simp_all add: replaced_log_def)
  have started: "op_id (started 0 i RUN_TESTS RUNNING) = i" "op_status (started 0 i RUN_TESTS RUNNING) = RUNNING" for i
    by (simp_all add: started_def)
  show ?thesis
    by (simp add: event_stream_def stream_defs round stream_step_def reads world started is_terminal_def)
      (simp add: eval_nat_numeral)
qed
end
