(* ===== verification/Runner_Api.thy ===== *)
theory Runner_Api
  imports Worker Login Processes Runner_Events
begin

text \<open>
  The HTTP API of the test-runner service,
  \<^verbatim>\<open>src/helpers/test-runner-service/src/test_runner_service/api.py\<close>, its request models
  (\<^verbatim>\<open>models.py\<close>), and the application of \<^verbatim>\<open>main.py\<close>: the middleware in front of the API, of the
  login routes (\<^verbatim>\<open>create_auth_router\<close> of \<^verbatim>\<open>auth.py\<close>) and of the pages.
  The parsing of requests and the rendering of responses are FastAPI's: a request here has its
  parsed body, query and cookie, an \<^verbatim>\<open>HTTPException\<close> is an exception whose first piece is the
  status, and \<open>Problem\<close> is the answer FastAPI makes of it.
\<close>

section \<open>Request models\<close>

definition only_fields :: "string list \<Rightarrow> json_dict \<Rightarrow> bool" where
  \<comment> \<open>\<^verbatim>\<open>extra="forbid"\<close>\<close>
  "only_fields names kvs \<longleftrightarrow> list_all (\<lambda>(k, v). k \<in> set (map lit names)) kvs"

definition text_field :: "json_dict \<Rightarrow> string \<Rightarrow> (pystr \<Rightarrow> bool) \<Rightarrow> pystr option" where
  "text_field kvs name ok =
     (case map_of kvs (lit name) of Some (JStr s) \<Rightarrow> if ok s then Some s else None | _ \<Rightarrow> None)"

definition build_image_request :: "json \<Rightarrow> pystr option" where
  "build_image_request body =
     (case body of
        JObj kvs \<Rightarrow>
          if \<not> only_fields [''revision''] kvs then None
          else if map_of kvs (lit ''revision'') = None then Some (lit ''working-tree'')
          else text_field kvs ''revision'' (\<lambda>s. s = lit ''working-tree'')
      | _ \<Rightarrow> None)"

definition pull_image_request :: "json \<Rightarrow> pystr option" where
  "pull_image_request body =
     (case body of
        JObj kvs \<Rightarrow> if only_fields [''reference''] kvs then text_field kvs ''reference'' reference_field_ok else None
      | _ \<Rightarrow> None)"

definition run_tests_request :: "json \<Rightarrow> (pystr \<times> pystr \<times> pystr) option" where
  "run_tests_request body =
     (case body of
        JObj kvs \<Rightarrow>
          if \<not> only_fields [''image'', ''stand'', ''scenario''] kvs then None
          else
            (case (text_field kvs ''image'' reference_field_ok, text_field kvs ''stand'' stand_name_ok,
                text_field kvs ''scenario'' scenario_field_ok) of
               (Some i, Some st, Some sc) \<Rightarrow> Some (i, st, sc)
             | _ \<Rightarrow> None)
      | _ \<Rightarrow> None)"

section \<open>Handlers\<close>

definition http_exception :: "int \<Rightarrow> piece list \<Rightarrow> exn" where
  "http_exception code m = Exn HTTPException (Num code # m)"

definition busy_error :: "exn \<Rightarrow> exn" where
  \<comment> \<open>\<^verbatim>\<open>_busy_error\<close>: code, message and operation id; the first piece of the error is the id\<close>
  "busy_error e =
     (case exn_message e of
        operation_id # message \<Rightarrow> http_exception 409 (Txt (lit ''runner_busy'') # operation_id # message)
      | [] \<Rightarrow> http_exception 409 [Txt (lit ''runner_busy'')])"

definition refusing_busy :: "('w, 'a) service_io \<Rightarrow> ('w, 'a) service_io" where
  "refusing_busy m =
     try_except m (\<lambda>e. if caught_by e RunnerBusyError then raising (busy_error e) else raising e)"

definition refusing_image :: "('w, 'a) service_io \<Rightarrow> ('w, 'a) service_io" where
  "refusing_image m =
     try_except m (\<lambda>e.
       if caught_by e InvalidImageReferenceError then raising (http_exception 422 (exn_message e))
       else if caught_by e RunnerBusyError then raising (busy_error e) else raising e)"

definition api_build :: "'w service \<Rightarrow> pystr \<Rightarrow> ('w, accepted) service_io" where
  "api_build sv revision = refusing_busy (start_build sv revision)"

definition api_pull :: "'w service \<Rightarrow> runner_settings \<Rightarrow> pystr \<Rightarrow> ('w, accepted) service_io" where
  "api_pull sv cfg reference = refusing_image (start_pull sv cfg reference)"

definition api_run ::
  "'w service \<Rightarrow> runner_settings \<Rightarrow> pystr \<times> pystr \<times> pystr \<Rightarrow> ('w, accepted) service_io" where
  "api_run sv cfg request' =
     (case request' of (img, stand, scenario) \<Rightarrow> refusing_image (start_run sv cfg img stand scenario))"

definition api_cancel :: "'w service \<Rightarrow> ('w, operation_state) service_io" where
  "api_cancel sv =
     try_except (cancel_operation sv) (\<lambda>e.
       if caught_by e NoActiveOperationError
       then raising (http_exception 409 [Txt (lit ''no active operation'')]) else raising e)"

definition current_artifact_directory :: "'w service \<Rightarrow> runner_settings \<Rightarrow> ('w, ppath) service_io" where
  "current_artifact_directory sv cfg =
     io_bind store_read (\<lambda>state.
     case (case state of None \<Rightarrow> None | Some s \<Rightarrow> op_artifact_directory s) of
       None \<Rightarrow> raising (http_exception 404 [Txt (lit ''the current operation has no artifacts'')])
     | Some directory \<Rightarrow>
         io_bind (outer (sv_files sv)) (\<lambda>fs.
         let path = fs_resolve fs (parse_path directory);
             artifacts_root = fs_resolve fs (rs_artifacts_directory cfg)
         in if \<not> is_relative_to path artifacts_root \<or> \<not> fs_is_dir fs path
            then raising (http_exception 404 [Txt (lit ''artifact directory is unavailable'')])
            else returning path))"

datatype api_reply =
    Health
  | CurrentState "operation_state option"
  | UiConfig "pystr option" "pystr option"             \<comment> \<open>Allure and ReportPortal\<close>
  | AcceptedReply accepted                             \<comment> \<open>202\<close>
  | CancelledState operation_state
  | ArtifactItems "artifact_item list"
  | ArtifactRuns "artifact_run list"
  | FileReply ppath "pystr option"                     \<comment> \<open>with the name of a download\<close>
  | EventStream
  | Problem int "piece list"

definition artifact_reply :: "file_system \<Rightarrow> runner_settings \<Rightarrow> ppath \<Rightarrow> pystr \<Rightarrow> exn + api_reply" where
  \<comment> \<open>the common end of \<^verbatim>\<open>artifact\<close> and \<^verbatim>\<open>historical_artifact\<close>\<close>
  "artifact_reply fs cfg run_directory name =
     try_bind (resolve_artifact fs run_directory cfg name) (\<lambda>found.
       case found of
         None \<Rightarrow> Inl (http_exception 404 [Txt (lit ''artifact not found'')])
       | Some path \<Rightarrow> Inr (FileReply path (if name = lit ''report.html'' then None else Some name)))"

definition api_artifacts :: "'w service \<Rightarrow> runner_settings \<Rightarrow> ('w, api_reply) service_io" where
  "api_artifacts sv cfg =
     io_bind (current_artifact_directory sv cfg) (\<lambda>run_directory.
     io_bind (outer (sv_files sv)) (\<lambda>fs.
     io_bind (lifting (list_artifacts fs run_directory cfg (lit ''/v1/current/artifacts''))) (\<lambda>items.
     returning (ArtifactItems items))))"

definition api_artifact :: "'w service \<Rightarrow> runner_settings \<Rightarrow> pystr \<Rightarrow> ('w, api_reply) service_io" where
  "api_artifact sv cfg name =
     io_bind (current_artifact_directory sv cfg) (\<lambda>run_directory.
     io_bind (outer (sv_files sv)) (\<lambda>fs. lifting (artifact_reply fs cfg run_directory name)))"

definition api_artifact_runs :: "'w service \<Rightarrow> runner_settings \<Rightarrow> ('w, api_reply) service_io" where
  "api_artifact_runs sv cfg =
     io_bind (outer (sv_files sv)) (\<lambda>fs.
     io_bind (lifting (list_artifact_runs fs cfg)) (\<lambda>runs. returning (ArtifactRuns runs)))"

definition api_historical :: "'w service \<Rightarrow> runner_settings \<Rightarrow> pystr \<Rightarrow> pystr \<Rightarrow> ('w, api_reply) service_io" where
  "api_historical sv cfg run_id name =
     io_bind (outer (sv_files sv)) (\<lambda>fs.
     case resolve_run_directory fs (rs_artifacts_directory cfg) run_id of
       None \<Rightarrow> raising (http_exception 404 [Txt (lit ''artifact run not found'')])
     | Some run_directory \<Rightarrow> lifting (artifact_reply fs cfg run_directory name))"

definition ui_config :: "'w service \<Rightarrow> runner_settings \<Rightarrow> api_reply" where
  "ui_config sv cfg =
     (let allure = (case rs_allure_public_url cfg of
          Some u \<Rightarrow>
            if rs_allure_enabled cfg
            then Some (rstrip_slash (u_str u) @ lit ''/reports/tree?'' @
              ht_urlencode (sv_http sv) [(lit ''repo'', rs_allure_repository cfg)])
            else None
        | None \<Rightarrow> None)
      in UiConfig allure (launches_url cfg))"

section \<open>Routes\<close>

datatype route =
    HealthRoute | CurrentRoute | ConfigRoute | BuildRoute | PullRoute | RunRoute | CancelRoute
  | EventsRoute | ArtifactsRoute | ArtifactRoute pystr | ArtifactRunsRoute | HistoricalRoute pystr pystr

definition get_routes :: "(string \<times> route) list" where
  "get_routes = [(''/health'', HealthRoute), (''/v1/current'', CurrentRoute), (''/v1/config'', ConfigRoute),
     (''/v1/current/events'', EventsRoute), (''/v1/current/artifacts'', ArtifactsRoute),
     (''/v1/artifact-runs'', ArtifactRunsRoute)]"

definition post_routes :: "(string \<times> route) list" where
  "post_routes = [(''/v1/images/build'', BuildRoute), (''/v1/images/pull'', PullRoute), (''/v1/runs'', RunRoute),
     (''/v1/current/cancel'', CancelRoute)]"

definition segments_route :: "pystr list \<Rightarrow> route option" where
  \<comment> \<open>the two paths with parameters, which are not empty and hold no slash\<close>
  "segments_route segments =
     (case segments of
        [r, v, a, b, name] \<Rightarrow>
          if r = [] \<and> v = lit ''v1'' \<and> a = lit ''current'' \<and> b = lit ''artifacts'' \<and> name \<noteq> []
          then Some (ArtifactRoute name)
          else if r = [] \<and> v = lit ''v1'' \<and> a = lit ''artifact-runs'' \<and> b \<noteq> [] \<and> name \<noteq> []
          then Some (HistoricalRoute b name) else None
      | _ \<Rightarrow> None)"

definition route_of :: "pystr \<Rightarrow> pystr \<Rightarrow> route option" where
  "route_of m path =
     (if m = lit ''GET'' then
        (case map_of (map (\<lambda>(p, r). (lit p, r)) get_routes) path of
           Some r \<Rightarrow> Some r
         | None \<Rightarrow> segments_route (split_on 47 path))
      else if m = lit ''POST'' then map_of (map (\<lambda>(p, r). (lit p, r)) post_routes) path
      else None)"

definition with_body :: "'a option \<Rightarrow> ('a \<Rightarrow> ('w, api_reply) service_io) \<Rightarrow> ('w, api_reply) service_io" where
  "with_body parsed f =
     (case parsed of None \<Rightarrow> returning (Problem 422 []) | Some x \<Rightarrow> f x)"

definition accepting :: "('w, accepted) service_io \<Rightarrow> ('w, api_reply) service_io" where
  "accepting m = io_bind m (\<lambda>x. returning (AcceptedReply x))"

definition run_route ::
  "'w service \<Rightarrow> runner_settings \<Rightarrow> json \<Rightarrow> route \<Rightarrow> ('w, api_reply) service_io" where
  "run_route sv cfg body r =
     (case r of
        HealthRoute \<Rightarrow> returning Health
      | CurrentRoute \<Rightarrow> io_bind store_read (\<lambda>s. returning (CurrentState s))
      | ConfigRoute \<Rightarrow> returning (ui_config sv cfg)
      | BuildRoute \<Rightarrow> with_body (build_image_request body) (\<lambda>x. accepting (api_build sv x))
      | PullRoute \<Rightarrow> with_body (pull_image_request body) (\<lambda>x. accepting (api_pull sv cfg x))
      | RunRoute \<Rightarrow> with_body (run_tests_request body) (\<lambda>x. accepting (api_run sv cfg x))
      | CancelRoute \<Rightarrow> io_bind (api_cancel sv) (\<lambda>s. returning (CancelledState s))
      | EventsRoute \<Rightarrow> returning EventStream
      | ArtifactsRoute \<Rightarrow> api_artifacts sv cfg
      | ArtifactRoute name \<Rightarrow> api_artifact sv cfg name
      | ArtifactRunsRoute \<Rightarrow> api_artifact_runs sv cfg
      | HistoricalRoute run_id name \<Rightarrow> api_historical sv cfg run_id name)"

definition answering :: "('w, api_reply) service_io \<Rightarrow> ('w, api_reply) service_io" where
  \<comment> \<open>FastAPI's handler of \<^verbatim>\<open>HTTPException\<close>; other exceptions are internal errors\<close>
  "answering m =
     try_except m (\<lambda>e.
       case (exn_kind e, exn_message e) of
         (HTTPException, Num code # content) \<Rightarrow> returning (Problem code content)
       | _ \<Rightarrow> raising e)"

section \<open>The login routes and the pages\<close>

text \<open>What FastAPI has parsed of a request: its JSON body, its query and the pending login's cookie.\<close>

record request_input =
  in_body :: json
  in_query :: "(pystr, pystr) dict"
  in_transaction :: "pystr option"

datatype site_route =
    StatusRoute | LoginPageRoute | LoginRoute | CallbackRoute | LogoutRoute | PageRoute string

definition site_routes :: "((string \<times> string) \<times> site_route) list" where
  \<comment> \<open>\<^verbatim>\<open>create_auth_router\<close> and the two pages of \<^verbatim>\<open>create_app\<close>\<close>
  "site_routes = [((''GET'', ''/auth/status''), StatusRoute), ((''GET'', ''/login''), LoginPageRoute),
     ((''POST'', ''/auth/login''), LoginRoute), ((''GET'', ''/auth/callback''), CallbackRoute),
     ((''POST'', ''/auth/logout''), LogoutRoute), ((''GET'', ''/''), PageRoute ''index.html''),
     ((''GET'', ''/artifact-runs''), PageRoute ''artifact-runs.html'')]"

definition site_route_of :: "pystr \<Rightarrow> pystr \<Rightarrow> site_route option" where
  "site_route_of m path = map_of (map (\<lambda>((v, p), r). ((lit v, lit p), r)) site_routes) (m, path)"

definition login_request :: "json \<Rightarrow> (pystr \<times> pystr) option" where
  "login_request body =
     (case body of
        JObj kvs \<Rightarrow>
          (case (text_field kvs ''username'' (\<lambda>s. True), text_field kvs ''password'' (\<lambda>s. True)) of
             (Some u, Some p) \<Rightarrow> Some (u, p) | _ \<Rightarrow> None)
      | _ \<Rightarrow> None)"

definition query_value :: "request_input \<Rightarrow> string \<Rightarrow> pystr option" where
  \<comment> \<open>\<^verbatim>\<open>Query(min_length=1)\<close>\<close>
  "query_value input name =
     (case map_of (in_query input) (lit name) of Some v \<Rightarrow> if v = [] then None else Some v | None \<Rightarrow> None)"

definition static_file :: "pystr \<Rightarrow> string \<Rightarrow> pystr" where
  "static_file directory name = directory @ lit ''/'' @ lit name"

section \<open>The application\<close>

datatype app_reply = ApiReply api_reply | AuthReply reply | StatusReply bool pystr | OtherRoute

definition run_site_route ::
  "('w, 'key) provider \<Rightarrow> 'w auth_env \<Rightarrow> runner_settings \<Rightarrow> bool \<Rightarrow> pystr \<Rightarrow> request_input \<Rightarrow> site_route
     \<Rightarrow> ('w, app_reply) oidc_io" where
  "run_site_route pv env cfg oidc static_directory input r =
     (let reply_of = (\<lambda>m. io_bind m (\<lambda>x. returning (AuthReply x)));
          unprocessable = returning (ApiReply (Problem 422 []))
      in case r of
        StatusRoute \<Rightarrow> (case auth_status cfg of (enabled, mode) \<Rightarrow> returning (StatusReply enabled mode))
      | LoginPageRoute \<Rightarrow> reply_of (login_page pv env cfg oidc (static_file static_directory ''login.html''))
      | LoginRoute \<Rightarrow>
          (case login_request (in_body input) of
             None \<Rightarrow> unprocessable
           | Some (username, password) \<Rightarrow> reply_of (login env cfg username password))
      | CallbackRoute \<Rightarrow>
          (case (query_value input ''code'', query_value input ''state'') of
             (Some code, Some state) \<Rightarrow> reply_of (callback pv env cfg oidc code state (in_transaction input))
           | _ \<Rightarrow> unprocessable)
      | LogoutRoute \<Rightarrow> reply_of (logout pv cfg oidc)
      | PageRoute name \<Rightarrow>
          returning (ApiReply (FileReply (parse_path (static_file static_directory name)) None)))"

definition app_request ::
  "('w, 'key) provider \<Rightarrow> 'w auth_env \<Rightarrow> ('w \<times> oidc_client) service \<Rightarrow> runner_settings \<Rightarrow> bool \<Rightarrow> pystr
     \<Rightarrow> authenticator \<Rightarrow> http_scope \<Rightarrow> request_input \<Rightarrow> ('w \<times> oidc_client, app_reply) service_io" where
  \<comment> \<open>\<^verbatim>\<open>create_app\<close>: the middleware in front of the routers, in the order they are included;
     \<open>OtherRoute\<close> is what FastAPI answers by itself\<close>
  "app_request pv env sv cfg oidc static_directory authn scope input =
     io_bind (outer (middleware pv env cfg authn scope)) (\<lambda>out.
     case out of
       Replied r \<Rightarrow> returning (AuthReply r)
     | Forwarded p \<Rightarrow>
         (case route_of (sc_method scope) (sc_path scope) of
            Some r \<Rightarrow> io_bind (answering (run_route sv cfg (in_body input) r)) (\<lambda>x. returning (ApiReply x))
          | None \<Rightarrow>
              (case site_route_of (sc_method scope) (sc_path scope) of
                 Some r \<Rightarrow> outer (run_site_route pv env cfg oidc static_directory input r)
               | None \<Rightarrow> returning OtherRoute)))"

text \<open>What the middleware lets through without a principal is what answers it: the login routes.\<close>

lemma public_paths_routed:
  "set public_paths = insert (lit ''/health'')
     (set (map (\<lambda>((v, p), r). lit p) (filter (\<lambda>(k, r). \<forall>name \<in> set [''index.html'', ''artifact-runs.html''].
        r \<noteq> PageRoute name) site_routes)))"
  by code_simp

text \<open>
  \<^verbatim>\<open>create_app\<close> makes an OIDC client where the mode needs one and it was given none; serving
  begins by recovering the state and ends by stopping the task.
\<close>

definition app_authenticator :: "runner_settings \<Rightarrow> bool \<Rightarrow> exn + authenticator" where
  \<comment> \<open>of whether an OIDC client was given\<close>
  "app_authenticator cfg oidc =
     create_authenticator cfg (rs_auth_mode cfg \<in> {KEYCLOAK, KEYCLOAK_UI_LOCAL_API} \<and> \<not> oidc \<or> oidc)"

definition store_initialize ::
  "('w, unit) io \<Rightarrow> ('w, bool) io \<Rightarrow> ('w, unit) io \<Rightarrow> ('w, unit) io" where
  \<comment> \<open>\<^verbatim>\<open>StateStore.initialize\<close>, of making the directory and of the log's \<^verbatim>\<open>exists\<close> and \<^verbatim>\<open>touch\<close>\<close>
  "store_initialize mkdir log_exists touch_log =
     io_then mkdir (io_bind log_exists (\<lambda>found. io_when (\<not> found) touch_log))"

definition lifespan ::
  "('w, unit) io \<Rightarrow> (ppath \<Rightarrow> bool) \<Rightarrow> 'w service \<Rightarrow> runner_settings \<Rightarrow> ('w, unit) service_io
     \<Rightarrow> ('w, unit) service_io" where
  "lifespan initialize exists sv cfg serving =
     io_then (outer initialize)
     (io_then (lifting (validate_required_paths exists cfg))
     (io_then (recover sv)
       (try_finally serving (shutdown sv))))"

text \<open>Every validated configuration has an authenticator.\<close>

lemma app_authenticator_exists: "\<exists>authn. app_authenticator cfg oidc = Inr authn"
  by (cases "rs_auth_mode cfg") (simp_all add: app_authenticator_def create_authenticator_def)

text \<open>Serving begins with no operation left unfinished, and ends with no task.\<close>

lemma lifespan_bounds:
  assumes "lifespan initialize exists sv cfg serving a = Some (Inr u, a')"
  shows "co_task (snd a') \<noteq> Active \<and>
    (\<exists>b r b'. serving b = Some (r, b') \<and> (\<forall>s. co_current (snd b) = Some s \<longrightarrow> is_terminal (op_status s)))"
proof -
  from assms obtain a1 b b' q v where q: "recover sv a1 = Some (Inr q, b)"
    and serving: "serving b = Some (Inr v, b')" and stop: "shutdown sv b' = Some (Inr (), a')"
    by (auto simp: lifespan_def io_cases)
  from recover_cleans [of sv "fst a1" "snd a1" q "fst b" "snd b"] q
  have "\<forall>s. co_current (snd b) = Some s \<longrightarrow> is_terminal (op_status s)" by simp
  with serving shutdown_stops [OF stop] show ?thesis by blast
qed

section \<open>Who operates the service\<close>

text \<open>Only the POST routes touch the coordinator.\<close>

definition reads_only :: "('w, 'a) service_io \<Rightarrow> bool" where
  "reads_only m \<longleftrightarrow> (\<forall>c. io_keeps (\<lambda>a. snd a = c) m)"

lemma reads_only_bind: "reads_only m \<Longrightarrow> (\<And>x. reads_only (f x)) \<Longrightarrow> reads_only (io_bind m f)"
  by (simp add: reads_only_def io_keeps_bind)

lemma reads_only_simple:
  "reads_only (returning x)" "reads_only (raising e)" "reads_only (lifting q)" "reads_only (outer m)"
  "reads_only store_read"
  by (auto simp: reads_only_def io_keeps_def run_simps io_cases store_read_def)

lemma reads_only_try: "reads_only m \<Longrightarrow> (\<And>e. reads_only (h e)) \<Longrightarrow> reads_only (try_except m h)"
  by (simp add: reads_only_def io_keeps_try_except)

lemma reads_only_directory: "reads_only (current_artifact_directory sv cfg)"
  unfolding current_artifact_directory_def
  by (auto simp: Let_def split: option.split intro!: reads_only_bind reads_only_simple)

lemma get_route_reads_only:
  assumes "r \<notin> {BuildRoute, PullRoute, RunRoute, CancelRoute}"
  shows "reads_only (run_route sv cfg body r)"
  using assms
  by (cases r)
    (auto simp: run_route_def api_artifacts_def api_artifact_def api_artifact_runs_def api_historical_def
      split: option.split intro!: reads_only_bind reads_only_simple reads_only_directory)

lemma reads_only_answering: "reads_only m \<Longrightarrow> reads_only (answering m)"
  unfolding answering_def
  by (rule reads_only_try) (auto split: exn_class.split list.split piece.split intro: reads_only_simple)

lemma reads_onlyD: "reads_only m \<Longrightarrow> m a = Some (q, a') \<Longrightarrow> snd a' = snd a"
  unfolding reads_only_def by (blast dest: io_keepsD)

lemma segments_route_get: "segments_route ss = Some r \<Longrightarrow> r \<notin> {BuildRoute, PullRoute, RunRoute, CancelRoute}"
  by (auto simp: segments_route_def split: list.splits if_splits)

lemma post_route:
  assumes "route_of m path = Some r" and "r \<in> {BuildRoute, PullRoute, RunRoute, CancelRoute}"
  shows "m = lit ''POST'' \<and> path \<in> set (map (\<lambda>(p, r). lit p) post_routes)"
  using assms segments_route_get [of "split_on 47 path" r]
  by (auto simp: route_of_def get_routes_def post_routes_def split: if_splits option.splits)

lemma post_paths:
  assumes "path \<in> set (map (\<lambda>(p, r). lit p) post_routes)"
  shows "prefix (lit ''/v1/'') path" "path \<notin> set public_paths"
  using assms by (auto simp: post_routes_def public_paths_def lit_Cons)

text \<open>
  C3. Only operators operate the service: if handling a request changes anything of what the
  service runs - its task, its cancellation, its state file - then the request is a POST to one
  of the four operations, and it comes from a principal that the mode's evidence vouches for and
  that holds the operator's role.
\<close>

theorem only_operators_operate:
  assumes "provider_serves served pv" and "issuer_https cfg" and "oidc_inv served (snd (fst a))"
    and "sc_type scope = lit ''http''"
    and "app_request pv env sv cfg oidc static_directory authn scope input a = Some (q, a')"
    and "snd a' \<noteq> snd a"
  shows "sc_method scope = lit ''POST'' \<and> sc_path scope \<in> set (map (\<lambda>(p, r). lit p) post_routes) \<and>
    (\<exists>p. vouched served pv env cfg authn scope p \<and> has_role p (lit ''operator'') cfg)"
proof -
  obtain y b where mid: "outer (middleware pv env cfg authn scope) a = Some (y, b)"
    using assms(5) by (auto simp: app_request_def io_bind_def split: option.splits)
  then have b: "snd b = snd a" "middleware pv env cfg authn scope (fst a) = Some (y, fst b)"
    by (auto simp: outer_Some)
  from assms(5,6) mid b(1) obtain p r where out: "y = Inr (Forwarded p)"
    and r: "route_of (sc_method scope) (sc_path scope) = Some r"
    and run: "io_bind (answering (run_route sv cfg (in_body input) r)) (\<lambda>x. returning (ApiReply x)) b = Some (q, a')"
    by (cases y) (auto simp: app_request_def io_bind_def run_simps outer_Some split: outcome.splits option.splits)
  have "r \<in> {BuildRoute, PullRoute, RunRoute, CancelRoute}"
  proof (rule ccontr)
    assume "r \<notin> {BuildRoute, PullRoute, RunRoute, CancelRoute}"
    then have "reads_only (io_bind (answering (run_route sv cfg (in_body input) r)) (\<lambda>x. returning (ApiReply x)))"
      by (intro reads_only_bind reads_only_answering get_route_reads_only reads_only_simple)
    with run b(1) assms(6) show False using reads_onlyD by metis
  qed
  note post = post_route [OF r this]
  note path = post_paths [OF conjunct2 [OF post]]
  from authorized_request [OF assms(1-3) b(2) [unfolded out] assms(4) path(2)]
  obtain p' where "vouched served pv env cfg authn scope p'" "has_role p' (required_role scope) cfg" by blast
  moreover have "required_role scope = lit ''operator''" using post path(1) by (simp add: required_role_def)
  ultimately show ?thesis using post by auto
qed

section \<open>What the artifact routes hand out\<close>

text \<open>
  C36. The two download routes hand out only report files of runs: when the file system does not
  change while the request is handled, and resolving a resolved path changes nothing, a file that is
  sent is strictly below the resolved artifacts directory and below its run's directory; it is
  the configured report of one of the three known names. Where the client names the run,
  the run's directory is an immediate child of the artifacts directory; else it is the one
  the state file holds, if that lies in the artifacts directory. So no name of a run or of an
  artifact and no symbolic link leads anywhere else.
\<close>

theorem served_artifacts_contained:
  assumes stable: "\<And>w q w'. sv_files sv w = Some (q, w') \<Longrightarrow> q = Inr fs"
    and idem: "\<And>p. fs_resolve fs (fs_resolve fs p) = fs_resolve fs p"
    and served: "run_route sv cfg body r a = Some (Inr (FileReply p n), a')"
  shows "\<exists>d name relative_path. fs_is_file fs p \<and> fs_is_dir fs d \<and> below p d \<and>
    below p (fs_resolve fs (rs_artifacts_directory cfg)) \<and>
    name \<in> {lit ''pytest.log'', lit ''junit.xml'', lit ''report.html''} \<and>
    map_of (configured_artifacts cfg) name = Some relative_path \<and> p = fs_resolve fs (path_join d relative_path) \<and>
    ((\<exists>run_id. r = HistoricalRoute run_id name \<and> path_parent d = fs_resolve fs (rs_artifacts_directory cfg)) \<or>
     r = ArtifactRoute name \<and> (\<exists>s directory. co_current (snd a) = Some s \<and>
       op_artifact_directory s = Some directory \<and> d = fs_resolve fs (parse_path directory)))"
proof -
  have reply: "resolve_artifact fs d cfg name = Inr (Some p)" if "artifact_reply fs cfg d name = Inr (FileReply p n)" for d name
    using that by (auto simp: artifact_reply_def result_simps split: option.splits)
  consider (current) name where "r = ArtifactRoute name" | (past) run_id name where "r = HistoricalRoute run_id name"
    using served
    by (cases r) (auto simp: run_route_def with_body_def accepting_def io_cases run_simps ui_config_def
        api_artifacts_def api_artifact_runs_def split: option.splits)
  then show ?thesis
  proof cases
    case current
    with served obtain d b where dir: "current_artifact_directory sv cfg a = Some (Inr d, b)"
      and art: "artifact_reply fs cfg d name = Inr (FileReply p n)"
      by (auto simp: run_route_def api_artifact_def io_cases run_simps dest!: stable)
    from dir obtain s directory where s: "co_current (snd a) = Some s" "op_artifact_directory s = Some directory"
      "d = fs_resolve fs (parse_path directory)" "fs_is_dir fs d"
      "is_relative_to d (fs_resolve fs (rs_artifacts_directory cfg))"
      by (auto simp: current_artifact_directory_def io_cases run_simps store_read_def Let_def
          split: option.splits if_splits dest!: stable)
    then have "fs_resolve fs d = d" using idem by simp
    from resolve_artifact_contained [OF reply [OF art] this] s current show ?thesis
      by (blast intro: below_relative)
  next
    case past
    with served obtain d where dir: "resolve_run_directory fs (rs_artifacts_directory cfg) run_id = Some d"
      and art: "artifact_reply fs cfg d name = Inr (FileReply p n)"
      by (auto simp: run_route_def api_historical_def io_cases run_simps split: option.splits dest!: stable)
    from resolve_run_directory_child [OF idem dir] have d: "path_parent d = fs_resolve fs (rs_artifacts_directory cfg)"
      "fs_resolve fs d = d" "fs_is_dir fs d" by simp_all
    then have "is_relative_to d (fs_resolve fs (rs_artifacts_directory cfg))" by (metis path_parent_relative)
    with resolve_artifact_contained [OF reply [OF art] d(2)] d past show ?thesis by (blast intro: below_relative)
  qed
qed

definition filed_service :: "unit service" where
  "filed_service = idle_service\<lparr>sv_files := returning flat_files\<rparr>"

theorem served_artifacts_contained_witness:
  "\<exists>p n a'. run_route filed_service default_runner_settings JNull (HistoricalRoute (lit ''run-1'') (lit ''pytest.log''))
       ((), idle_coordinator) = Some (Inr (FileReply p n), a') \<and>
     below p (fs_resolve flat_files (rs_artifacts_directory default_runner_settings))"
proof -
  obtain d p where found:
    "resolve_run_directory flat_files (rs_artifacts_directory default_runner_settings) (lit ''run-1'') = Some d"
    "resolve_artifact flat_files d default_runner_settings (lit ''pytest.log'') = Inr (Some p)"
    by (rule flat_files_served)
  obtain n a' where run: "run_route filed_service default_runner_settings JNull
      (HistoricalRoute (lit ''run-1'') (lit ''pytest.log'')) ((), idle_coordinator) = Some (Inr (FileReply p n), a')"
    by (simp add: run_route_def api_historical_def filed_service_def io_bind_def outer_def run_simps found artifact_reply_def)
  have "q = Inr flat_files" if "sv_files filed_service w = Some (q, w')" for w q w'
    using that by (simp add: filed_service_def run_simps)
  moreover have "fs_resolve flat_files (fs_resolve flat_files q) = fs_resolve flat_files q" for q
    by (simp add: flat_files_def)
  ultimately show ?thesis using served_artifacts_contained [OF _ _ run, of flat_files] run by blast
qed

section \<open>Requests to run tests\<close>

definition starts :: "'w service \<Rightarrow> bool" where
  \<comment> \<open>what starting an operation needs: an id, the time, and writable files\<close>
  "starts sv \<longleftrightarrow> io_raises (\<lambda>_. False) (sv_uuid4_hex sv) \<and> io_raises (\<lambda>_. False) (sv_now sv) \<and>
     io_raises (\<lambda>_. False) (sv_reset_log sv) \<and> (\<forall>s. io_raises (\<lambda>_. False) (sv_persist sv s))"

lemma startsD:
  assumes "starts sv"
  shows "\<exists>u w'. sv_uuid4_hex sv w = Some (Inr u, w')" "\<exists>t w'. sv_now sv w = Some (Inr t, w')"
    "\<exists>w'. sv_reset_log sv w = Some (Inr (), w')" "\<exists>w'. sv_persist sv s w = Some (Inr (), w')"
  using assms io_raises_never [of "sv_uuid4_hex sv" w] io_raises_never [of "sv_now sv" w]
    io_raises_never [of "sv_reset_log sv" w] io_raises_never [of "sv_persist sv s" w]
  by (auto simp: starts_def)

lemma start_task_idle:
  assumes "starts sv" and "co_task c \<noteq> Active"
  shows "\<exists>w'. start_task sv s (w, c) =
    Some (Inr (), (w', \<lparr>co_task = Active, co_cancel_requested = False, co_current = Some s\<rparr>))"
proof -
  obtain w1 where w1: "sv_reset_log sv w = Some (Inr (), w1)" using startsD(3) [OF assms(1)] by blast
  obtain w2 where w2: "sv_persist sv s w1 = Some (Inr (), w2)" using startsD(4) [OF assms(1)] by blast
  show ?thesis
    using assms(2) w1 w2
    by (cases c) (simp add: start_task_def store_read_def store_write_def io_bind_def inner_def outer_def run_simps)
qed

definition run_state :: "int \<Rightarrow> pystr \<Rightarrow> pystr \<times> pystr \<times> pystr \<Rightarrow> operation_state" where
  "run_state now i request' =
     (case request' of (img, stand, scenario) \<Rightarrow>
       (started now i RUN_TESTS RUNNING)\<lparr>op_run_id := Some i, op_image_reference := Some img,
         op_stand := Some stand, op_scenario := Some scenario, op_container_name := Some (run_container_name i)\<rparr>)"

lemma run_command_cases:
  assumes "rs_allure_enabled cfg \<longrightarrow> rs_allure_results_path cfg \<noteq> None"
  shows "(\<exists>m. validate_remote_image cfg img = Inl (raise_txt InvalidImageReferenceError m) \<and>
      run_tests_command cfg i j img st sc = Inl (raise_txt InvalidImageReferenceError m)) \<or>
    validate_remote_image cfg img = Inr () \<and> (\<exists>cmd. run_tests_command cfg i j img st sc = Inr cmd)"
  using assms
  by (cases "validate_remote_image cfg img")
    (auto simp: run_tests_command_def validate_remote_image_def Let_def split: if_splits)

text \<open>
  C39. Every well-formed request to run tests is answered, and as its state requires: 422 for an
  image the policy does not allow, and nothing changes; 409 with the id of the running operation
  while a task is active, and nothing changes; otherwise 202 with the id under which the state
  file now shows the run, its task begun.
\<close>

theorem run_request_answered:
  assumes "service_reachable sv (w, c)" and "starts sv"
    and "rs_allure_enabled cfg \<longrightarrow> rs_allure_results_path cfg \<noteq> None"
    and "run_tests_request body = Some (img, stand, scenario)"
  shows "\<exists>r w' c'. answering (run_route sv cfg body RunRoute) (w, c) = Some (Inr r, (w', c')) \<and>
    (if validate_remote_image cfg img \<noteq> Inr () then c' = c \<and> (\<exists>m. r = Problem 422 m)
     else if co_task c = Active
     then c' = c \<and> (\<exists>s0 m. co_current c = Some s0 \<and> \<not> is_terminal (op_status s0) \<and>
       r = Problem 409 (Txt (lit ''runner_busy'') # Txt (op_id s0) # m))
     else \<exists>i now. r = AcceptedReply \<lparr>ac_id = i, ac_status = RUNNING\<rparr> \<and>
       c' = \<lparr>co_task = Active, co_cancel_requested = False,
         co_current = Some (run_state now i (img, stand, scenario))\<rparr>)"
proof -
  obtain u w1 where u: "sv_uuid4_hex sv w = Some (Inr u, w1)" using startsD(1) [OF assms(2)] by blast
  obtain now w2 where now: "sv_now sv w1 = Some (Inr now, w2)" using startsD(2) [OF assms(2)] by blast
  define i where "i = lit ''run'' @ [45] @ u"
  define s where "s = run_state now i (img, stand, scenario)"
  have start: "start_run sv cfg img stand scenario (w, c) =
      io_bind (lifting (run_tests_command cfg i i img stand scenario)) (\<lambda>command.
        io_then (start_task sv s) (returning (accepted_of s))) (w2, c)"
    by (simp add: start_run_def new_id_def io_bind_def outer_def u now run_simps run_state_def Let_def s_def i_def)
  have unfold: "run_route sv cfg body RunRoute = accepting (refusing_image (start_run sv cfg img stand scenario))"
    by (simp add: run_route_def assms(4) with_body_def api_run_def)
  consider (bad) m where "validate_remote_image cfg img = Inl (raise_txt InvalidImageReferenceError m)"
      "run_tests_command cfg i i img stand scenario = Inl (raise_txt InvalidImageReferenceError m)"
    | (good) cmd where "validate_remote_image cfg img = Inr ()" "run_tests_command cfg i i img stand scenario = Inr cmd"
    using run_command_cases [OF assms(3)] by blast
  then show ?thesis
  proof cases
    case bad
    have "start_run sv cfg img stand scenario (w, c) = Some (Inl (raise_txt InvalidImageReferenceError m), (w2, c))"
      by (simp add: start bad(2) io_bind_def run_simps)
    then show ?thesis
      by (simp add: unfold answering_def accepting_def refusing_image_def try_except_def io_bind_def run_simps
          bad(1) http_exception_def raise_txt_def caught_by_def)
  next
    case good
    show ?thesis
    proof (cases "co_task c = Active")
      case True
      have inv: "service_inv c" using service_inv_reachable [OF assms(1)] by simp
      with True obtain s0 where s0: "co_current c = Some s0" "\<not> is_terminal (op_status s0)"
        by (auto simp: service_inv_def)
      have "start_run sv cfg img stand scenario (w, c) = Some (Inl (Exn RunnerBusyError [Txt (op_id s0),
          Txt (lit ''another operation is already running'')]), (w2, c))"
        by (simp add: start good(2) io_bind_def run_simps start_task_busy [OF True s0(1)])
      moreover have "\<not> subclass_of RunnerBusyError InvalidImageReferenceError" by code_simp
      ultimately show ?thesis
        using True s0
        by (simp add: unfold answering_def accepting_def refusing_image_def try_except_def io_bind_def run_simps
            good(1) http_exception_def caught_by_def busy_error_def)
    next
      case False
      obtain w' where "start_task sv s (w2, c) =
          Some (Inr (), (w', \<lparr>co_task = Active, co_cancel_requested = False, co_current = Some s\<rparr>))"
        using start_task_idle [OF assms(2) False] by blast
      then have "start_run sv cfg img stand scenario (w, c) =
          Some (Inr (accepted_of s), (w', \<lparr>co_task = Active, co_cancel_requested = False, co_current = Some s\<rparr>))"
        by (simp add: start good(2) io_bind_def run_simps)
      then show ?thesis
        using False
        by (simp add: unfold answering_def accepting_def refusing_image_def try_except_def io_bind_def run_simps
            good(1) accepted_of_def s_def run_state_def started_def)
    qed
  qed
qed

definition sample_body :: json where
  "sample_body = JObj [(lit ''image'', JStr (lit ''sha256:0'')), (lit ''stand'', JStr (lit ''s'')),
     (lit ''scenario'', JStr (lit ''x''))]"

lemma sample_body_parsed:
  "run_tests_request sample_body = Some (lit ''sha256:0'', lit ''s'', lit ''x'')"
  "validate_remote_image default_runner_settings (lit ''sha256:0'') = Inr ()"
  by code_simp+

theorem run_request_answered_witness:
  "\<exists>i w' c'. answering (run_route idle_service default_runner_settings sample_body RunRoute) ((), idle_coordinator)
     = Some (Inr (AcceptedReply \<lparr>ac_id = i, ac_status = RUNNING\<rparr>), (w', c')) \<and> co_task c' = Active"
proof -
  have a: "starts idle_service" by (simp add: starts_def idle_service_def io_raises_def run_simps)
  have b: "service_reachable idle_service ((), idle_coordinator)"
    unfolding idle_coordinator_def by (rule service_reachable.initial)
  have d: "rs_allure_enabled default_runner_settings \<longrightarrow> rs_allure_results_path default_runner_settings \<noteq> None"
    by (simp add: default_runner_settings_def)
  from run_request_answered [OF b a d sample_body_parsed(1)] obtain r w' c' where
      run: "answering (run_route idle_service default_runner_settings sample_body RunRoute) ((), idle_coordinator)
        = Some (Inr r, (w', c'))"
    and out: "if validate_remote_image default_runner_settings (lit ''sha256:0'') \<noteq> Inr ()
      then c' = idle_coordinator \<and> (\<exists>m. r = Problem 422 m)
      else if co_task idle_coordinator = Active
      then c' = idle_coordinator \<and> (\<exists>s0 m. co_current idle_coordinator = Some s0 \<and>
        \<not> is_terminal (op_status s0) \<and> r = Problem 409 (Txt (lit ''runner_busy'') # Txt (op_id s0) # m))
      else \<exists>i now. r = AcceptedReply \<lparr>ac_id = i, ac_status = RUNNING\<rparr> \<and>
        c' = \<lparr>co_task = Active, co_cancel_requested = False,
          co_current = Some (run_state now i (lit ''sha256:0'', lit ''s'', lit ''x''))\<rparr>" by (elim exE conjE) (rule that)
  have "co_task idle_coordinator \<noteq> Active" by (simp add: idle_coordinator_def)
  with out sample_body_parsed(2) obtain i now where "r = AcceptedReply \<lparr>ac_id = i, ac_status = RUNNING\<rparr>"
    "c' = \<lparr>co_task = Active, co_cancel_requested = False,
      co_current = Some (run_state now i (lit ''sha256:0'', lit ''s'', lit ''x''))\<rparr>" by auto
  with run show ?thesis by auto
qed

definition empty_input :: request_input where
  "empty_input = \<lparr>in_body = JObj [], in_query = [], in_transaction = None\<rparr>"

definition build_scope :: http_scope where
  "build_scope = token_scope\<lparr>sc_path := lit ''/v1/images/build''\<rparr>"

lemma build_scope_values:
  "bearer_value (header_text build_scope ''authorization'') = Some (lit ''tok'')"
  "sc_path build_scope \<notin> set public_paths" "sc_type build_scope = lit ''http''"
  "route_of (sc_method build_scope) (sc_path build_scope) = Some BuildRoute"
  by code_simp+

theorem only_operators_operate_witness:
  "\<exists>q a'. app_request sample_provider still_env idle_service token_settings False [] LocalAuthenticator build_scope empty_input
       (((), sample_client), idle_coordinator) = Some (q, a') \<and> co_task (snd a') = Active \<and>
     (\<exists>p. vouched (\<lambda>d. d = sample_jwks) sample_provider still_env token_settings LocalAuthenticator build_scope p \<and>
       has_role p (lit ''operator'') token_settings)"
proof -
  have "ascii (lit ''tok'')" by (simp add: lit_Cons ascii_def)
  then have mid: "middleware sample_provider still_env token_settings LocalAuthenticator build_scope ((), sample_client)
     = Some (Inr (Forwarded (Some local_api_principal)), ((), sample_client))"
    using build_scope_values(2,3)
    by (simp add: middleware_def authenticate_def authenticate_local_def valid_static_bearer_token_def
        build_scope_values(1) token_settings_def encode_ascii io_bind_def run_simps has_role_def
        local_api_principal_def)
  have request: "build_image_request (JObj []) = Some (lit ''working-tree'')"
    by (simp add: build_image_request_def only_fields_def)
  obtain q a' where run: "app_request sample_provider still_env idle_service token_settings False [] LocalAuthenticator
      build_scope empty_input (((), sample_client), idle_coordinator) = Some (q, a')" "co_task (snd a') = Active"
    by (simp add: app_request_def empty_input_def mid build_scope_values(4) run_route_def request with_body_def accepting_def
        api_build_def refusing_busy_def start_build_def new_id_def start_task_def answering_def
        store_read_def store_write_def idle_service_def idle_coordinator_def Let_def
        io_bind_def try_except_def outer_def inner_def run_simps)
  moreover from run(2) have "snd a' \<noteq> snd (((), sample_client), idle_coordinator)"
    by (auto simp: idle_coordinator_def)
  moreover have "issuer_https token_settings"
    using sample_oidc(2) by (simp add: issuer_https_def oidc_issuer_of_def token_settings_def)
  moreover have "oidc_inv (\<lambda>d. d = sample_jwks) (snd (fst (((), sample_client), idle_coordinator)))"
    by (simp add: sample_oidc)
  ultimately show ?thesis
    using only_operators_operate [OF sample_oidc(1) _ _ build_scope_values(3)] by blast
qed

end
