(* ===== verification/Runner_Processes.thy ===== *)
theory Runner_Processes
  imports Processes Worker
begin

text \<open>
  The coordinator on the process runner: \<^verbatim>\<open>_run_with_timeout\<close> of
  \<^verbatim>\<open>src/helpers/test-runner-service/src/test_runner_service/worker.py\<close> over
  \<^verbatim>\<open>AsyncioProcessRunner\<close>. \<open>Worker\<close> takes running and cancelling commands as operations of its
  service; here they are the runner's own, whose state \<^verbatim>\<open>_process\<close> becomes a part of the world.
\<close>

section \<open>Running under a timeout\<close>

text \<open>
  \<^verbatim>\<open>asyncio.timeout\<close> cancels the task where it is suspended once the deadline has come. Nothing
  between there and the \<^verbatim>\<open>async with\<close> catches the cancellation, only \<^verbatim>\<open>finally\<close> and \<^verbatim>\<open>with\<close>
  blocks run, so the \<^verbatim>\<open>TimeoutError\<close> it becomes may as well be raised by the await, even by one
  that would never come back. An await that does not suspend, such as reading a line that is
  already buffered, is not interrupted: the event loop knows when it last resumed the task.
\<close>

datatype 'p pending = Spawning "pystr list" "(pystr \<times> pystr) list option" | Reading 'p | Waiting 'p

record ('w, 'p) event_loop =
  el_time :: "'w \<Rightarrow> rat"                          \<comment> \<open>\<^verbatim>\<open>loop.time()\<close>\<close>
  el_resumed :: "'w \<Rightarrow> rat"                       \<comment> \<open>the time of the task's last resumption\<close>
  el_interrupt :: "'p pending \<Rightarrow> rat \<Rightarrow> 'w \<Rightarrow> 'w"
    \<comment> \<open>the world when an await begun in a world is interrupted at a deadline\<close>

definition awaited :: "('w, 'p) event_loop \<Rightarrow> rat \<Rightarrow> 'p pending \<Rightarrow> ('w, 'a) io \<Rightarrow> ('w, 'a) io" where
  "awaited lp deadline q m = (\<lambda>w.
     let timeout = Some (Inl (Exn PyTimeoutError []), el_interrupt lp q deadline w)
     in case m w of
          Some (r, w') \<Rightarrow> if el_resumed lp w' < deadline then Some (r, w') else timeout
        | None \<Rightarrow> timeout)"

definition timed :: "('w, 'p) event_loop \<Rightarrow> rat \<Rightarrow> ('w, 'p) process_os \<Rightarrow> ('w, 'p) process_os" where
  "timed lp deadline os = os\<lparr>
     ps_spawn := (\<lambda>c e. awaited lp deadline (Spawning c e) (ps_spawn os c e)),
     ps_readline := (\<lambda>p. awaited lp deadline (Reading p) (ps_readline os p)),
     ps_wait := (\<lambda>p. awaited lp deadline (Waiting p) (ps_wait os p))\<rparr>"

definition deadline_of :: "('w, 'p) event_loop \<Rightarrow> runner_settings \<Rightarrow> 'w \<Rightarrow> rat" where
  "deadline_of lp cfg w = el_time lp w + of_int (rs_operation_timeout_seconds cfg)"

definition run_with_timeout ::
  "('w, 'p) event_loop \<Rightarrow> ('w, 'p) process_os \<Rightarrow> (pystr \<times> pystr) list \<Rightarrow> runner_settings
     \<Rightarrow> pystr list \<Rightarrow> (pystr \<times> pystr) list option \<Rightarrow> ('w, 'p, process_result) runner_io" where
  "run_with_timeout lp os os_environ cfg command environment =
     (\<lambda>(w, h). process_run (timed lp (deadline_of lp cfg w) os) os_environ command environment (w, h))"

text \<open>
  The service on the runner. What other requests do to the coordinator while a command runs
  commutes with the runner, so \<open>others\<close> follows it; an empty environment stands for none.
\<close>

definition process_service ::
  "('w, 'p) event_loop \<Rightarrow> ('w, 'p) process_os \<Rightarrow> (pystr \<times> pystr) list \<Rightarrow> runner_settings
     \<Rightarrow> (('w \<times> 'p option) \<times> coordinator \<Rightarrow> ('w \<times> 'p option) \<times> coordinator) \<Rightarrow> ('w \<times> 'p option) service \<Rightarrow> ('w \<times> 'p option) service" where
  "process_service lp os os_environ cfg others sv = sv\<lparr>
     sv_run := (\<lambda>command environment. try_finally
       (outer (run_with_timeout lp os os_environ cfg command (if environment = [] then None else Some environment)))
       (modifying others)),
     sv_cancel := (\<lambda>container. try_finally (outer (process_cancel os container)) (modifying others))\<rparr>"

section \<open>A verdict and its process\<close>

lemma try_finally_modifying:
  "try_finally m (modifying f) a = Some (r, a') \<longleftrightarrow> (\<exists>a1. m a = Some (r, a1) \<and> a' = f a1)"
  by (auto simp: try_finally_def run_simps split: option.splits)

lemma timed_simps [simp]:
  "ps_has_stdout (timed lp d os) = ps_has_stdout os" "ps_open_log (timed lp d os) = ps_open_log os"
  "ps_write_log (timed lp d os) = ps_write_log os" "ps_close_log (timed lp d os) = ps_close_log os"
  "ps_spawn (timed lp d os) c e = awaited lp d (Spawning c e) (ps_spawn os c e)"
  "ps_readline (timed lp d os) p = awaited lp d (Reading p) (ps_readline os p)"
  "ps_wait (timed lp d os) p = awaited lp d (Waiting p) (ps_wait os p)"
  by (simp_all add: timed_def)

lemma awaited_Inr: "awaited lp d q m w = Some (Inr x, w') \<longleftrightarrow> m w = Some (Inr x, w') \<and> el_resumed lp w' < d"
  by (auto simp: awaited_def Let_def split: option.split)

lemma awaited_run: "m w = Some (r, w') \<Longrightarrow> el_resumed lp w' < d \<Longrightarrow> awaited lp d q m w = Some (r, w')"
  by (simp add: awaited_def)

lemma awaited_returns:
  obtains r w' where "awaited lp d q m w = Some (r, w')"
proof (cases "awaited lp d q m w")
  case None
  then show thesis by (auto simp: awaited_def Let_def split: option.splits if_splits)
qed (use that in auto)

lemma loop_captures:
  assumes laws: "pipe_laws os p view logged code"
    and "io_loop (capture_step (timed lp d os) p) kept (w, h) = Some (Inr out, (w', h'))"
  shows "logged w' = logged w @ shown_lines (byte_lines (view w)) \<and> list_all line_fits (byte_lines (view w)) \<and>
    out = foldl captured kept (map utf8_decode_replace (byte_lines (view w))) \<and> h' = h"
  using assms(2)
proof (induction "length (view w)" arbitrary: w kept rule: less_induct)
  case less
  from laws obtain w1 where w1: "ps_readline os p w = Some (fst (stream_readline (view w)), w1)"
    "view w1 = snd (stream_readline (view w))" "logged w1 = logged w" unfolding pipe_laws_def by metis
  have now: "el_resumed lp w1 < d"
    using less.prems w1(1) by (subst (asm) io_loop.simps)
      (auto simp: capture_step_def io_bind_def outer_def awaited_def Let_def split: if_splits)
  show ?case
  proof (cases "view w = []")
    case True
    with w1 now less.prems show ?thesis
      by (subst (asm) io_loop.simps) (auto simp: capture_step_def io_bind_def outer_def io_sum_def run_simps
          awaited_def stream_readline_Nil byte_lines.simps shown_lines_def)
  next
    case False
    then obtain l r where l: "byte_lines (view w) = l # byte_lines r" "l \<noteq> []" "length r < length (view w)"
      "stream_readline (view w) = (if line_fits l then Inr l
         else Inl (raise_txt PyValueError ''Separator is found, but chunk is longer than limit''), r)"
      by (rule stream_readline_line)
    have fits: "line_fits l"
      using less.prems w1(1) l(4) now by (subst (asm) io_loop.simps)
        (auto simp: capture_step_def io_bind_def outer_def awaited_def split: if_splits)
    from laws obtain w2 where w2: "ps_write_log os (utf8_decode_replace l) w1 = Some (Inr (), w2)"
      "view w2 = view w1" "logged w2 = logged w1 @ utf8_decode_replace l" unfolding pipe_laws_def by metis
    have view2: "view w2 = r" using w1(2) w2(2) l(4) by simp
    have "io_loop (capture_step (timed lp d os) p) (captured kept (utf8_decode_replace l)) (w2, h) = Some (Inr out, (w', h'))"
      using less.prems w1(1) w2(1) l(2,4) fits now
      by (subst (asm) io_loop.simps)
        (simp add: capture_step_def io_bind_def outer_def io_sum_def run_simps Let_def awaited_def)
    from less.hyps [OF _ this] l(3) view2 fits w1(3) w2(3) show ?thesis by (simp add: l(1) shown_lines_def)
  qed
qed

lemma run_captures:
  assumes "process_run (timed lp d os) os_environ command environment (w, h) = Some (Inr result, (w', h'))"
    and pipes: "\<And>p w0. ps_spawn os command (map_option (dict_union os_environ) environment) w = Some (Inr p, w0)
      \<Longrightarrow> pipe_laws os p (view p) logged (code p)"
  shows "\<exists>p w0. ps_spawn os command (map_option (dict_union os_environ) environment) w = Some (Inr p, w0) \<and>
    list_all line_fits (byte_lines (view p w0)) \<and> logged w' = logged w0 @ shown_lines (byte_lines (view p w0)) \<and>
    result = \<lparr>pr_exit_code = code p, pr_output =
      (let s = shown_lines (byte_lines (view p w0)) in drop (length s - MAX_CAPTURED_OUTPUT) s)\<rparr> \<and> h' = None \<and> el_resumed lp w' < d"
proof -
  from assms(1) obtain p w0 where spawn: "ps_spawn os command (map_option (dict_union os_environ) environment) w = Some (Inr p, w0)"
    by (auto simp: process_run_def io_cases awaited_Inr)
  note laws = pipes [OF spawn]
  from laws obtain w1 where w1: "ps_open_log os w0 = Some (Inr (), w1)" "view p w1 = view p w0" "logged w1 = logged w0"
    unfolding pipe_laws_def by metis
  from assms(1) spawn w1 obtain out h2 w2 w3 w4 n where
      loop: "io_loop (capture_step (timed lp d os) p) [] (w1, Some p) = Some (Inr out, (w2, h2))"
    and close: "ps_close_log os w2 = Some (Inr (), w3)" and wait: "ps_wait os p w3 = Some (Inr n, w4)"
    and res: "result = \<lparr>pr_exit_code = n, pr_output = out\<rparr>" "w' = w4" "h' = None" "el_resumed lp w4 < d"
    by (auto simp: process_run_def capture_def io_cases awaited_Inr run_simps split: if_splits)
  from laws obtain w5 where "ps_close_log os w2 = Some (Inr (), w5)" "logged w5 = logged w2" unfolding pipe_laws_def by metis
  with close have log3: "logged w3 = logged w2" by simp
  from laws obtain w6 where "ps_wait os p w3 = Some (Inr (code p), w6)" "logged w6 = logged w3" unfolding pipe_laws_def by metis
  with wait have log4: "logged w4 = logged w3" "n = code p" by simp_all
  from loop_captures [OF laws loop] w1 log3 log4 res spawn
  show ?thesis
    using capture_lines_tail [of "map utf8_decode_replace (byte_lines (view p w0))"]
    by (auto simp: capture_lines_def shown_lines_def Let_def)
qed

text \<open>
  C14. A verdict stands for a whole run: if a test run ends as passed or failed, then the process
  its command started has exited with the recorded exit code, which is 0 exactly when the run has
  passed; everything it had written was in the log by then; the task waiting for it was last
  resumed before the timeout's deadline; and no cancellation is pending where the verdict is
  recorded. (A run that was cancelled, or that outlived its timeout, has no verdict.)
\<close>

theorem verdict_of_process:
  assumes "execute_test_run (process_service lp os os_environ cfg others sv) cfg s command a = Some (Inr u, a')"
    and "co_current (snd a') = Some s'" and "op_status s' \<in> {PASSED, FAILED}"
    and "\<And>c e w p w0. ps_spawn os c e w = Some (Inr p, w0) \<Longrightarrow> pipe_laws os p (view p) logged (code p)"
  shows "\<exists>environment result p w0 w1.
    run_with_timeout lp os os_environ cfg command environment (fst a) = Some (Inr result, (w1, None)) \<and>
    ps_spawn os command (map_option (dict_union os_environ) environment) (fst (fst a)) = Some (Inr p, w0) \<and>
    list_all line_fits (byte_lines (view p w0)) \<and> logged w1 = logged w0 @ shown_lines (byte_lines (view p w0)) \<and>
    el_resumed lp w1 < el_time lp (fst (fst a)) + of_int (rs_operation_timeout_seconds cfg) \<and>
    op_exit_code s' = Some (code p) \<and> (op_status s' = PASSED \<longleftrightarrow> code p = 0) \<and> \<not> co_cancel_requested (snd a')"
proof -
  let ?sv = "process_service lp os os_environ cfg others sv"
  let ?e = "if run_environment cfg = [] then None else Some (run_environment cfg)"
  have "verdict (sv_run ?sv command (run_environment cfg)) a s (Inr u) a'"
    using io_postD [OF test_run_verdict assms(1)] by simp
  with assms(2,3) obtain result a1 where "sv_run ?sv command (run_environment cfg) a = Some (Inr result, a1)"
    and verdict: "op_exit_code s' = Some (pr_exit_code result)" "op_status s' = PASSED \<longleftrightarrow> pr_exit_code result = 0"
    and free: "\<not> co_cancel_requested (snd a')"
    unfolding verdict_def by blast
  then obtain w1 h1 where run: "run_with_timeout lp os os_environ cfg command ?e (fst a) = Some (Inr result, (w1, h1))"
    by (auto simp: process_service_def io_cases split_paired_all)
  then have "process_run (timed lp (deadline_of lp cfg (fst (fst a))) os) os_environ command ?e
      (fst (fst a), snd (fst a)) = Some (Inr result, (w1, h1))"
    by (simp add: run_with_timeout_def case_prod_unfold)
  from run_captures [OF this assms(4)] run verdict free show ?thesis unfolding deadline_of_def by fastforce
qed

text \<open>A test run whose process writes two lines and exits with 0, with time standing still.\<close>

definition still_loop :: "('w, 'p) event_loop" where
  "still_loop = \<lparr>el_time = (\<lambda>w. 0), el_resumed = (\<lambda>w. 0), el_interrupt = (\<lambda>q d w. w)\<rparr>"

definition sample_process_service :: "((bytes \<times> pystr) \<times> unit option) service" where
  "sample_process_service = process_service still_loop sample_os [] default_runner_settings id idle_service"

lemma sample_laws: "pipe_laws sample_os p fst snd 0"
  by (auto simp: pipe_laws_def sample_os_def run_simps)

lemma sample_process_runs:
  "\<exists>w'. sv_run sample_process_service [lit ''docker''] [] (((two_lines, []), None), c)
     = Some (Inr \<lparr>pr_exit_code = 0, pr_output = [104, 105, 10, 104, 111, 10]\<rparr>, ((w', None), c))"
proof -
  have ls: "byte_lines two_lines = [[104, 105, 10], [104, 111, 10]]" by code_simp
  have fit: "line_fits [104, 105, 10]" "line_fits [104, 111, 10]" by (simp_all add: line_fits_def STREAM_LIMIT_def)
  have both: "shown_lines [[104, 105, 10], [104, 111, 10]] = [104, 105, 10, 104, 111, 10]" by code_simp
  have spawn: "ps_spawn sample_os [lit ''docker''] (map_option (dict_union []) None) (two_lines, [])
    = Some (Inr (), (two_lines, []))" by (simp add: sample_os_def run_simps)
  have laws: "pipe_laws (timed still_loop 3600 sample_os) p fst snd 0" for p
    by (auto simp: pipe_laws_def sample_os_def awaited_def still_loop_def run_simps Let_def)
  have spawn': "ps_spawn (timed still_loop 3600 sample_os) [lit ''docker''] (map_option (dict_union []) None) (two_lines, [])
    = Some (Inr (), (two_lines, []))" using spawn by (simp add: awaited_def still_loop_def)
  have deadline: "deadline_of still_loop default_runner_settings w = 3600" for w :: "bytes \<times> pystr"
    by (simp add: deadline_of_def still_loop_def default_runner_settings_def)
  from process_run_outcome [OF laws spawn', of None] show ?thesis
    by (auto simp: ls fit both MAX_CAPTURED_OUTPUT_def Let_def sample_process_service_def process_service_def
        run_with_timeout_def deadline try_finally_modifying outer_def)
qed

theorem verdict_of_process_witness:
  "\<exists>a' s' result w1. execute_test_run sample_process_service default_runner_settings sample_run [lit ''docker'']
       (((two_lines, []), None), idle_coordinator) = Some (Inr (), a') \<and>
     co_current (snd a') = Some s' \<and> op_status s' = PASSED \<and> op_exit_code s' = Some 0 \<and>
     (\<exists>environment. run_with_timeout still_loop sample_os [] default_runner_settings [lit ''docker'']
        environment ((two_lines, []), None) = Some (Inr result, (w1, None))) \<and>
     snd w1 = [104, 105, 10, 104, 111, 10]"
proof -
  obtain w' where ran: "sv_run sample_process_service [lit ''docker''] [] (((two_lines, []), None), idle_coordinator)
     = Some (Inr \<lparr>pr_exit_code = 0, pr_output = [104, 105, 10, 104, 111, 10]\<rparr>, ((w', None), idle_coordinator))" using sample_process_runs by blast
  have rest: "sv_now sample_process_service = returning 0" "sv_persist sample_process_service s = returning ()"
    "sv_files sample_process_service = sv_files idle_service" "sv_http sample_process_service = sv_http idle_service" for s
    by (simp_all add: sample_process_service_def process_service_def idle_service_def)
  obtain a' s' where run: "execute_test_run sample_process_service default_runner_settings sample_run [lit ''docker'']
      (((two_lines, []), None), idle_coordinator) = Some (Inr (), a')" "co_current (snd a') = Some s'" "op_status s' = PASSED"
    using ran by (simp add: rest sample_run_simps)
  have ls: "byte_lines two_lines = [[104, 105, 10], [104, 111, 10]]" by code_simp
  have both: "shown_lines [[104, 105, 10], [104, 111, 10]] = [104, 105, 10, 104, 111, 10]" by code_simp
  from run(3) have "op_status s' \<in> {PASSED, FAILED}" by simp
  from verdict_of_process [OF run(1) [unfolded sample_process_service_def] run(2) this sample_laws] run
  show ?thesis by (auto simp: sample_os_def run_simps ls both)
qed

section \<open>Every test run ends\<close>

text \<open>
  Time passes: an await that suspends takes at least \<open>\<delta>\<close>, and one that does not takes a line from
  what asyncio has buffered of the pipe. The log can be opened, written and closed, which returns,
  if only with an exception, and neither suspends the task nor reads the pipe.
\<close>

definition progressing :: "('w, 'p) event_loop \<Rightarrow> ('w, 'p) process_os \<Rightarrow> ('p \<Rightarrow> 'w \<Rightarrow> nat) \<Rightarrow> rat \<Rightarrow> bool" where
  "progressing lp os buffered \<delta> \<longleftrightarrow> 0 < \<delta> \<and>
     io_raises (\<lambda>_. True) (ps_open_log os) \<and> io_raises (\<lambda>_. True) (ps_close_log os) \<and>
     (\<forall>t w. \<exists>r w'. ps_write_log os t w = Some (r, w') \<and>
        el_resumed lp w' = el_resumed lp w \<and> (\<forall>p. buffered p w' = buffered p w)) \<and>
     (\<forall>p w l w'. ps_readline os p w = Some (Inr l, w') \<longrightarrow> l \<noteq> [] \<longrightarrow>
        el_resumed lp w + \<delta> \<le> el_resumed lp w' \<or>
        el_resumed lp w' = el_resumed lp w \<and> buffered p w' < buffered p w)"

text \<open>\<^verbatim>\<open>docker stop\<close> can be started and exits, and a running process can be terminated.\<close>

definition stoppable :: "('w, 'p) process_os \<Rightarrow> bool" where
  "stoppable os \<longleftrightarrow>
     (\<forall>n. io_raises (\<lambda>_. False) (io_bind (ps_spawn_silent os [lit ''docker'', lit ''stop'', n]) (ps_wait os))) \<and>
     (\<forall>p. io_raises (\<lambda>_. False) (ps_returncode os p)) \<and> (\<forall>p. io_raises (\<lambda>_. False) (ps_terminate os p))"

lemma io_raises_awaited: "io_raises (\<lambda>_. True) (awaited lp d q m)"
  unfolding io_raises_def by (metis awaited_returns)

text \<open>The loop over the lines of a process ends at the deadline at the latest.\<close>

definition ticks :: "('w, 'p) event_loop \<Rightarrow> rat \<Rightarrow> rat \<Rightarrow> 'w \<Rightarrow> nat" where
  "ticks lp \<delta> d w = nat \<lceil>(d - el_resumed lp w) / \<delta>\<rceil>"

lemma ticks_less:
  assumes "0 < \<delta>" and "el_resumed lp w + \<delta> \<le> el_resumed lp w'" and "el_resumed lp w' < d"
  shows "ticks lp \<delta> d w' < ticks lp \<delta> d w"
proof -
  have "(d - el_resumed lp w') / \<delta> + 1 \<le> (d - el_resumed lp w) / \<delta>"
  proof -
    have "(d - el_resumed lp w') / \<delta> + 1 = (d - el_resumed lp w' + \<delta>) / \<delta>"
      using assms(1) by (simp add: add_divide_distrib)
    also have "\<dots> \<le> (d - el_resumed lp w) / \<delta>"
      using assms(1,2) by (intro divide_right_mono) simp_all
    finally show ?thesis .
  qed
  then have "\<lceil>(d - el_resumed lp w') / \<delta>\<rceil> + 1 \<le> \<lceil>(d - el_resumed lp w) / \<delta>\<rceil>"
    by (metis ceiling_add_one ceiling_mono)
  moreover have "0 < \<lceil>(d - el_resumed lp w') / \<delta>\<rceil>" using assms(1,3) by simp
  ultimately show ?thesis unfolding ticks_def by linarith
qed

lemma capture_loop_returns:
  assumes "progressing lp os buffered \<delta>"
  shows "io_raises (\<lambda>_. True) (io_loop (capture_step (timed lp d os) p) kept)"
proof -
  let ?R = "inv_image (less_than <*lex*> less_than) (\<lambda>(s, w). (ticks lp \<delta> d (fst w), buffered p (fst w)))"
  have "\<exists>z. io_loop (capture_step (timed lp d os) p) kept w = Some z" for w
  proof (rule io_loop_returns_wf [where R = ?R and J = "\<lambda>_ _. True"])
    fix kept' :: pystr and w :: "'a \<times> 'b option"
    obtain u h where w: "w = (u, h)" by (cases w)
    obtain r u1 where r: "awaited lp d (Reading p) (ps_readline os p) u = Some (r, u1)"
      by (rule awaited_returns)
    show "\<exists>y w'. capture_step (timed lp d os) p kept' w = Some (y, w') \<and>
      (\<forall>s'. y = Inr (Inl s') \<longrightarrow> True \<and> ((s', w'), (kept', w)) \<in> ?R)"
    proof (cases "\<exists>l. r = Inr l \<and> l \<noteq> []")
      case True
      then obtain l where l: "r = Inr l" "l \<noteq> []" by blast
      with r have line: "ps_readline os p u = Some (Inr l, u1)" "el_resumed lp u1 < d"
        by (simp_all add: awaited_Inr)
      with assms l(2) have moved: "el_resumed lp u + \<delta> \<le> el_resumed lp u1 \<or>
        el_resumed lp u1 = el_resumed lp u \<and> buffered p u1 < buffered p u" unfolding progressing_def by blast
      from assms obtain q u2 where q: "ps_write_log os (utf8_decode_replace l) u1 = Some (q, u2)"
        "el_resumed lp u2 = el_resumed lp u1" "buffered p u2 = buffered p u1"
        unfolding progressing_def by blast
      from assms have "0 < \<delta>" by (simp add: progressing_def)
      with moved line(2) ticks_less [of \<delta> lp u u1 d]
      have "(ticks lp \<delta> d u2, buffered p u2) \<in> {x. (x, (ticks lp \<delta> d u, buffered p u)) \<in> less_than <*lex*> less_than}"
        by (auto simp: ticks_def q)
      with l r q w show ?thesis
        by (cases q) (auto simp: capture_step_def io_bind_def outer_def run_simps Let_def)
    next
      case False
      with r w show ?thesis
        by (cases r) (auto simp: capture_step_def io_bind_def outer_def run_simps)
    qed
  qed (simp_all add: wf_inv_image wf_lex_prod)
  then show ?thesis by (auto simp: io_raises_def)
qed

lemma io_raises_runner_parts: "io_raises K (inner (modifying f))" "io_raises K (inner (reading g))"
  by (simp_all add: io_raises_def inner_def run_simps split_paired_all)

lemma run_with_timeout_returns:
  assumes "progressing lp os buffered \<delta>"
  shows "io_raises (\<lambda>_. True) (run_with_timeout lp os os_environ cfg command environment)"
proof -
  from assms have log: "io_raises (\<lambda>_. True) (ps_open_log os)" "io_raises (\<lambda>_. True) (ps_close_log os)"
    by (simp_all add: progressing_def)
  have "io_raises (\<lambda>_. True) (process_run (timed lp d os) os_environ command environment)" for d
    unfolding process_run_def capture_def
    by (intro io_raises_bind io_raises_outer io_raises_finally io_raises_if io_raises_simple(1,2)
        io_raises_runner_parts capture_loop_returns [OF assms])
      (simp_all add: io_raises_awaited log)
  then show ?thesis by (simp add: io_raises_def run_with_timeout_def split_paired_all)
qed

lemma outer_bind: "io_bind (outer m) (\<lambda>x. outer (f x)) = outer (io_bind m f)"
  by (rule ext) (auto simp: outer_def io_bind_def split: option.splits sum.splits)

lemma process_cancel_returns:
  assumes "stoppable os" shows "io_raises (\<lambda>_. False) (process_cancel os container)"
proof -
  have stop: "io_raises (\<lambda>_. False) (io_bind (outer (ps_spawn_silent os [lit ''docker'', lit ''stop'', n]))
      (\<lambda>stop. outer (ps_wait os stop)))" for n
    using assms by (simp add: outer_bind stoppable_def io_raises_outer)
  have running: "io_raises (\<lambda>_. False) (case running of None \<Rightarrow> returning ()
      | Some p \<Rightarrow> io_bind (outer (ps_returncode os p)) (\<lambda>code. if code = None then outer (ps_terminate os p) else returning ()))"
    for running :: "'b option"
    using assms unfolding stoppable_def
    by (auto split: option.split intro!: io_raises_bind io_raises_if io_raises_simple(1) io_raises_outer)
  show ?thesis
    unfolding process_cancel_def
    by (intro io_raises_bind [OF _ io_raises_bind] io_raises_runner_parts running)
      (simp add: stop io_raises_simple split: option.split)
qed

lemma io_raises_then_others:
  assumes "io_raises K m" shows "io_raises K (try_finally m (modifying f))"
  unfolding io_raises_def
proof
  fix w
  from io_raisesD [OF assms, of w] obtain r w' where "m w = Some (r, w')" "\<forall>e. r = Inl e \<longrightarrow> K e" by blast
  then show "\<exists>r w'. try_finally m (modifying f) w = Some (r, w') \<and> (\<forall>e. r = Inl e \<longrightarrow> K e)"
    by (simp add: try_finally_modifying)
qed

lemma process_service_dependable:
  assumes "steady sv" and "progressing lp os buffered \<delta>" and "stoppable os"
  shows "dependable (process_service lp os os_environ cfg others sv)"
proof -
  from assms(1) have "steady (process_service lp os os_environ cfg others sv)"
    by (simp add: steady_def process_service_def)
  then show ?thesis
    unfolding dependable_def
    by (auto simp: process_service_def intro!: io_raises_then_others io_raises_outer
        run_with_timeout_returns [OF assms(2)] process_cancel_returns [OF assms(3)])
qed

lemma process_image_operation_ends:
  assumes "steady sv" and "progressing lp os buffered \<delta>" and "stoppable os"
  shows "\<exists>a'. execute_image_operation (process_service lp os os_environ cfg others sv) s command reference a
    = Some (Inr (), a') \<and> ended s (snd a')"
  by (rule image_operation_ends [OF process_service_dependable [OF assms]])

text \<open>
  C9. A test run on real processes ends: pytest and the publisher may hang, fail to start, write
  without end or exit anyhow, and reading and writing the log, reading a report and ReportPortal may
  raise anything. As long as time passes, stopping a container comes back, and the clock, the
  state file and the file system's answers do not raise, the task returns with a final status in
  the state file under the operation's id, with an end time and no container.
\<close>

theorem process_test_run_ends:
  assumes "steady sv" and "progressing lp os buffered \<delta>" and "stoppable os" and "op_run_id s \<noteq> None"
  shows "\<exists>a'. execute_test_run (process_service lp os os_environ cfg others sv) cfg s command a
    = Some (Inr (), a') \<and> ended s (snd a')"
  by (rule test_run_ends [OF process_service_dependable [OF assms(1-3)] assms(4)])

text \<open>A test run whose process never writes and never exits.\<close>

definition stuck_os :: "(bytes \<times> pystr, unit) process_os" where
  "stuck_os = sample_os\<lparr>ps_readline := (\<lambda>p w. None)\<rparr>"

theorem process_test_run_ends_witness:
  "\<exists>a'. execute_test_run (process_service still_loop stuck_os [] default_runner_settings id idle_service)
     default_runner_settings sample_run [lit ''docker''] ((([], []), None), idle_coordinator) = Some (Inr (), a') \<and>
   ended sample_run (snd a')"
proof (rule process_test_run_ends [where \<delta> = 1 and buffered = "\<lambda>p w. 0"])
  show "steady idle_service" by (simp add: steady_def idle_service_def io_raises_def run_simps)
  show "progressing still_loop stuck_os (\<lambda>p w. 0) 1"
    by (simp add: progressing_def stuck_os_def sample_os_def still_loop_def io_raises_def run_simps)
  show "stoppable stuck_os"
    by (simp add: stoppable_def stuck_os_def sample_os_def io_raises_def io_bind_def run_simps)
qed (simp add: sample_run_def)

section \<open>What a timeout terminates\<close>

text \<open>
  The runner forgets its process before the coordinator learns of the timeout, so cancelling
  without a container does nothing: whatever \<^verbatim>\<open>terminate\<close> does, a timed out image operation ends
  in the same way, with its process still running. (A test run's container is stopped by name.)
\<close>

definition idle_runner :: "('w \<times> 'p option) \<times> 's \<Rightarrow> bool" where
  "idle_runner a \<longleftrightarrow> snd (fst a) = None"

lemma idle_runner_parts:
  "io_keeps (\<lambda>a. snd a = None) m \<Longrightarrow> io_keeps idle_runner (outer m)" "io_keeps idle_runner (inner n)"
  by (auto simp: io_keeps_def idle_runner_def outer_Some inner_Some)

lemma process_run_forgets:
  "process_run os os_environ command environment (w, None) = Some (r, (w', h')) \<Longrightarrow> h' = None"
  by (cases r) (auto simp: process_run_def io_cases run_simps)

lemma process_run_terminates_nothing:
  "process_run (timed lp d (os\<lparr>ps_terminate := t\<rparr>)) = process_run (timed lp d os)"
proof -
  have "capture_step (timed lp d (os\<lparr>ps_terminate := t\<rparr>)) = capture_step (timed lp d os)"
    by (intro ext) (simp add: capture_step_def cong: if_cong)
  then have "capture (timed lp d (os\<lparr>ps_terminate := t\<rparr>)) = capture (timed lp d os)"
    by (intro ext) (simp add: capture_def)
  then show ?thesis by (intro ext) (simp add: process_run_def cong: if_cong)
qed

lemma cancel_when_idle: "process_cancel os None (w, None) = Some (Inr (), (w, None))"
  by (simp add: process_cancel_def io_bind_def inner_def run_simps)

lemma process_service_simps:
  "sv_now (process_service lp os os_environ cfg others sv) = sv_now sv"
  "sv_persist (process_service lp os os_environ cfg others sv) = sv_persist sv"
  "sv_run (process_service lp (os\<lparr>ps_terminate := t\<rparr>) os_environ cfg others sv) =
     sv_run (process_service lp os os_environ cfg others sv)"
  by (simp_all add: process_service_def run_with_timeout_def process_run_terminates_nothing)

lemma timed_out_image_keeps_running:
  fixes sv :: "('w \<times> 'p option) service" and lp os_environ cfg others
  assumes now: "io_keeps (\<lambda>a. snd a = None) (sv_now sv)"
    and persist: "\<And>s. io_keeps (\<lambda>a. snd a = None) (sv_persist sv s)"
    and others: "\<And>b. idle_runner b \<Longrightarrow> idle_runner (others b)" and "idle_runner a"
  defines "psv \<equiv> \<lambda>os. process_service lp os os_environ cfg others sv"
  shows "execute_image_operation (psv (os\<lparr>ps_terminate := t\<rparr>)) s command reference a =
    execute_image_operation (psv os) s command reference a"
proof -
  let ?os = "os\<lparr>ps_terminate := t\<rparr>"
  have same: "sv_now (psv o') = sv_now sv" "sv_persist (psv o') = sv_persist sv" "sv_run (psv ?os) = sv_run (psv os)" for o'
    by (simp_all add: psv_def process_service_simps)
  have fin: "finish (psv ?os) = finish (psv os)"
    by (intro ext) (simp add: finish_def store_write_def same)
  have body: "image_body (psv ?os) s command reference = image_body (psv os) s command reference"
    by (simp add: image_body_def same fin cong: if_cong)
  have others': "others ((w, None), c) = ((w', h), c') \<Longrightarrow> h = None" for w c w' h c'
    using others [of "((w, None), c)"] by (simp add: idle_runner_def)
  have run: "io_keeps idle_runner (sv_run (psv os) c e)" for c e
    by (auto simp: io_keeps_def psv_def process_service_def run_with_timeout_def try_finally_modifying idle_runner_def
        outer_Some case_prod_unfold
        dest: others' [OF sym] dest!: process_run_forgets [where h' = "snd h" and w' = "fst h" for h, simplified])
  have ends: "io_keeps idle_runner (finish (psv os) s' status code updates)" for s' status code updates
    unfolding finish_def store_write_def same by (intro io_keeps_bind idle_runner_parts now persist)
  have keeps: "io_keeps idle_runner (image_body (psv os) s command reference)"
    unfolding image_body_def
    cancel_requested_def by (intro io_keeps_bind io_keeps_intros run ends idle_runner_parts)
  show ?thesis
  proof (cases "image_body (psv os) s command reference a")
    case (Some z)
    then obtain r b where z: "image_body (psv os) s command reference a = Some (r, b)" by (cases z) auto
    with keeps assms(4) have "idle_runner b" by (blast dest: io_keepsD)
    then have "sv_cancel (psv ?os) None b = sv_cancel (psv os) None b"
      by (cases b) (auto simp: psv_def process_service_def idle_runner_def try_finally_def outer_def cancel_when_idle)
    with z show ?thesis
      by (cases r) (auto simp: execute_image_operation_def try_except_def body fin io_bind_def)
  qed (simp add: execute_image_operation_def try_except_def body)
qed

end
