(* ===== verification/Runner_Store.thy ===== *)
theory Runner_Store
  imports Runner_Events
begin

text \<open>
  The state file on its disk: \<^verbatim>\<open>StateStore\<close> of
  \<^verbatim>\<open>src/helpers/test-runner-service/src/test_runner_service/state.py\<close>. A write is the sequence of
  operations the code asks of the file system; it may stop after any of them, by an exception,
  a kill or a loss of power. The theorem at the end is what \<open>Worker\<close> takes for granted: while
  there is power, the state file is one cell that holds a state or nothing, and a write replaces
  it at once. Nothing syncs the directory, so after a loss of power the cell may be an older one.
\<close>

section \<open>A disk\<close>

text \<open>
  The service's directory maps names to files. A directory changed in memory may or may not
  be on the disk yet: \<open>dk_kept\<close> are the older ones a loss of power may bring back (a rename is
  one change, as on every journaling file system). The contents of a file are on the disk from
  \<^verbatim>\<open>fsync\<close> on; without it anything may be found there.
\<close>

type_synonym directory = "pystr \<Rightarrow> nat option"

record disk =
  dk_dir :: directory
  dk_kept :: "directory set"
  dk_data :: "nat \<Rightarrow> bytes"
  dk_synced :: "nat \<Rightarrow> bool"
  dk_next :: nat

datatype disk_op =
    OpenForWriting pystr          \<comment> \<open>\<^verbatim>\<open>open("w")\<close>: creates or truncates\<close>
  | Append pystr bytes            \<comment> \<open>a part of the buffer reaches the file\<close>
  | Sync pystr                    \<comment> \<open>\<^verbatim>\<open>os.fsync\<close>\<close>
  | Replace pystr pystr           \<comment> \<open>\<^verbatim>\<open>Path.replace\<close>\<close>

definition on_file :: "pystr \<Rightarrow> (nat \<Rightarrow> disk) \<Rightarrow> disk \<Rightarrow> disk" where
  "on_file name f d = (case dk_dir d name of None \<Rightarrow> d | Some i \<Rightarrow> f i)"

fun disk_step :: "disk_op \<Rightarrow> disk \<Rightarrow> disk" where
  "disk_step (OpenForWriting name) d =
     (case dk_dir d name of
        Some i \<Rightarrow> d\<lparr>dk_data := (dk_data d)(i := []), dk_synced := (dk_synced d)(i := False)\<rparr>
      | None \<Rightarrow> d\<lparr>dk_kept := insert (dk_dir d) (dk_kept d), dk_dir := (dk_dir d)(name := Some (dk_next d)),
          dk_data := (dk_data d)(dk_next d := []), dk_synced := (dk_synced d)(dk_next d := False),
          dk_next := Suc (dk_next d)\<rparr>)"
| "disk_step (Append name b) d =
     on_file name (\<lambda>i. d\<lparr>dk_data := (dk_data d)(i := dk_data d i @ b), dk_synced := (dk_synced d)(i := False)\<rparr>) d"
| "disk_step (Sync name) d = on_file name (\<lambda>i. d\<lparr>dk_synced := (dk_synced d)(i := True)\<rparr>) d"
| "disk_step (Replace source target) d =
     on_file source (\<lambda>i. d\<lparr>dk_kept := insert (dk_dir d) (dk_kept d),
       dk_dir := (dk_dir d)(target := Some i, source := None)\<rparr>) d"

definition run_ops :: "disk_op list \<Rightarrow> disk \<Rightarrow> disk" where
  "run_ops ops d = fold disk_step ops d"

text \<open>After a loss of power; a kill of the process alone leaves the disk as it is.\<close>

definition power_lost :: "disk \<Rightarrow> disk \<Rightarrow> bool" where
  "power_lost d d' \<longleftrightarrow> dk_dir d' \<in> insert (dk_dir d) (dk_kept d) \<and> dk_kept d' = {} \<and>
     (\<forall>i. dk_synced d i \<longrightarrow> dk_synced d' i \<and> dk_data d' i = dk_data d i) \<and> dk_next d' = dk_next d"

section \<open>The store\<close>

definition STATE_FILE :: pystr where "STATE_FILE = lit ''current.json''"
definition LOG_FILE :: pystr where "LOG_FILE = lit ''current.log''"
definition STATE_TEMPORARY :: pystr where "STATE_TEMPORARY = lit ''current.json.tmp''"
definition LOG_TEMPORARY :: pystr where "LOG_TEMPORARY = lit ''current.log.tmp''"

text \<open>\<^verbatim>\<open>json.dump(payload, stream, ensure_ascii=False, indent=2)\<close>.\<close>

definition new_line :: "nat \<Rightarrow> pystr" where
  "new_line depth = 10 # replicate (2 * depth) 32"

fun json_dump :: "nat \<Rightarrow> json \<Rightarrow> pystr" where
  "json_dump depth (JList vs) =
     (if vs = [] then lit ''[]''
      else [91] @ new_line (Suc depth) @ join (44 # new_line (Suc depth)) (map (json_dump (Suc depth)) vs) @
        new_line depth @ [93])"
| "json_dump depth (JObj kvs) =
     (if kvs = [] then lit ''{}''
      else [123] @ new_line (Suc depth) @
        join (44 # new_line (Suc depth)) (map (\<lambda>(k, v). plain_string k @ lit '': '' @ json_dump (Suc depth) v) kvs) @
        new_line depth @ [125])"
| "json_dump depth v = plain_dumps v"

definition state_text :: "(operation_state \<Rightarrow> json) \<Rightarrow> operation_state \<Rightarrow> pystr" where
  \<comment> \<open>\<open>dump\<close> is pydantic's \<^verbatim>\<open>model_dump(mode="json")\<close>\<close>
  "state_text dump s = json_dump 0 (dump s) @ [10]"

definition write_ops :: "bytes list \<Rightarrow> disk_op list" where
  \<comment> \<open>\<^verbatim>\<open>write\<close>, of the parts in which the text reaches the file\<close>
  "write_ops parts =
     [OpenForWriting STATE_TEMPORARY] @ map (Append STATE_TEMPORARY) parts @
     [Sync STATE_TEMPORARY, Replace STATE_TEMPORARY STATE_FILE]"

definition reset_log_ops :: "disk_op list" where
  "reset_log_ops = [OpenForWriting LOG_TEMPORARY, Append LOG_TEMPORARY [], Replace LOG_TEMPORARY LOG_FILE]"

definition read_in ::
  "(pystr \<Rightarrow> exn + operation_state) \<Rightarrow> directory \<Rightarrow> (nat \<Rightarrow> bytes) \<Rightarrow> exn + operation_state option" where
  \<comment> \<open>\<open>validate\<close> is pydantic's \<^verbatim>\<open>model_validate_json\<close>\<close>
  "read_in validate dir data =
     (case dir STATE_FILE of
        None \<Rightarrow> Inr None
      | Some i \<Rightarrow> try_bind (utf8_decode (data i)) (\<lambda>content. try_bind (validate content) (\<lambda>s. Inr (Some s))))"

definition read_state :: "(pystr \<Rightarrow> exn + operation_state) \<Rightarrow> disk \<Rightarrow> exn + operation_state option" where
  "read_state validate d = read_in validate (dk_dir d) (dk_data d)"

section \<open>A state is whole or it is not there\<close>

text \<open>
  Every directory that may come back names a state file that is on the disk and reads as one of
  \<open>V\<close>, and nothing else that is being written is that file.
\<close>

definition names_ok :: "nat \<Rightarrow> directory \<Rightarrow> bool" where
  \<comment> \<open>files are below the next one, and each has one name\<close>
  "names_ok next_file dir \<longleftrightarrow> (\<forall>n i. dir n = Some i \<longrightarrow> i < next_file) \<and>
     (\<forall>n m i. dir n = Some i \<longrightarrow> dir m = Some i \<longrightarrow> n = m)"

definition apart :: "directory \<Rightarrow> directory \<Rightarrow> bool" where
  "apart current dir \<longleftrightarrow> (\<forall>n. n \<noteq> STATE_FILE \<longrightarrow> current n \<noteq> None \<longrightarrow> current n \<noteq> dir STATE_FILE)"

definition sound_dir ::
  "(pystr \<Rightarrow> exn + operation_state) \<Rightarrow> operation_state option set \<Rightarrow> disk \<Rightarrow> directory \<Rightarrow> bool" where
  "sound_dir validate V d dir \<longleftrightarrow>
     (\<forall>i. dir STATE_FILE = Some i \<longrightarrow> dk_synced d i) \<and> (\<exists>r \<in> V. read_in validate dir (dk_data d) = Inr r) \<and>
     names_ok (dk_next d) dir \<and> apart (dk_dir d) dir"

definition intact ::
  "(pystr \<Rightarrow> exn + operation_state) \<Rightarrow> operation_state option set \<Rightarrow> disk \<Rightarrow> bool" where
  "intact validate V d \<longleftrightarrow> (\<forall>dir \<in> insert (dk_dir d) (dk_kept d). sound_dir validate V d dir)"

lemma intactD: "intact validate V d \<Longrightarrow> dir \<in> insert (dk_dir d) (dk_kept d) \<Longrightarrow> sound_dir validate V d dir"
  unfolding intact_def by blast

lemma intact_reads: "intact validate V d \<Longrightarrow> \<exists>r \<in> V. read_state validate d = Inr r"
  by (simp add: intact_def sound_dir_def read_state_def)

lemma intact_mono: "intact validate V d \<Longrightarrow> V \<subseteq> W \<Longrightarrow> intact validate W d"
  unfolding intact_def sound_dir_def by blast

lemma read_in_other:
  "dir STATE_FILE \<noteq> Some i \<Longrightarrow> read_in validate dir (data(i := b)) = read_in validate dir data"
  by (auto simp: read_in_def split: option.splits)

lemma sound_dir_same:
  "sound_dir validate V d dir \<Longrightarrow> dir' STATE_FILE = dir STATE_FILE \<Longrightarrow> names_ok (dk_next d) dir'
     \<Longrightarrow> sound_dir validate V d dir'"
  by (simp add: sound_dir_def apart_def read_in_def)

text \<open>Renaming within a directory.\<close>

lemma rename_names:
  assumes "names_ok k cur" and "cur source = Some i"
  shows "names_ok k (cur(target := Some i, source := None))"
proof -
  have one: "n = source" if "cur n = Some i" for n using assms that unfolding names_ok_def by metis
  show ?thesis using assms one unfolding names_ok_def by (auto split: if_splits)
qed

lemma names_fresh:
  assumes "names_ok k dir" shows "names_ok (Suc k) (dir(n := Some k))"
proof -
  have less: "i < k" if "dir m = Some i" for m i using assms that unfolding names_ok_def by blast
  have inj: "m = m'" if "dir m = Some i" "dir m' = Some i" for m m' i
    using assms that unfolding names_ok_def by blast
  show ?thesis unfolding names_ok_def using less inj by (auto simp: less_Suc_eq split: if_splits)
qed

lemma names_apart: "names_ok k dir \<Longrightarrow> apart dir dir"
  unfolding names_ok_def apart_def by (metis option.collapse)

lemma rename_apart:
  assumes "apart cur dir" and "cur source = Some i" and "source \<noteq> STATE_FILE"
  shows "apart (cur(target := Some i, source := None)) dir"
  using assms unfolding apart_def by auto

text \<open>Writing to a file that is not the state file.\<close>

lemma intact_data:
  assumes "intact validate V d" and "dk_dir d n = Some i" and "n \<noteq> STATE_FILE"
  shows "intact validate V (d\<lparr>dk_data := (dk_data d)(i := b), dk_synced := (dk_synced d)(i := v)\<rparr>)"
    (is "intact validate V ?d")
proof -
  have "sound_dir validate V ?d dir" if "dir \<in> insert (dk_dir d) (dk_kept d)" for dir
  proof -
    note sound = intactD [OF assms(1) that]
    then have "dir STATE_FILE \<noteq> Some i" using assms(2,3) unfolding sound_dir_def apart_def by (metis option.discI)
    with sound show ?thesis by (auto simp: sound_dir_def read_in_other)
  qed
  then show ?thesis by (simp add: intact_def)
qed

lemma intact_open:
  assumes "intact validate V d" and "n \<noteq> STATE_FILE"
  shows "intact validate V (disk_step (OpenForWriting n) d)"
proof (cases "dk_dir d n")
  case (Some i)
  with intact_data [OF assms(1) Some assms(2)] show ?thesis by simp
next
  case None
  let ?i = "dk_next d" and ?d = "disk_step (OpenForWriting n) d"
  have d: "dk_dir ?d = (dk_dir d)(n := Some ?i)" "dk_kept ?d = insert (dk_dir d) (dk_kept d)"
    "dk_data ?d = (dk_data d)(?i := [])" "dk_synced ?d = (dk_synced d)(?i := False)" "dk_next ?d = Suc ?i"
    by (simp_all add: None)
  have fresh: "dir m \<noteq> Some ?i" if "dir \<in> insert (dk_dir d) (dk_kept d)" for dir m
    using intactD [OF assms(1) that] by (auto simp: sound_dir_def names_ok_def)
  have cur: "sound_dir validate V d (dk_dir d)" by (rule intactD [OF assms(1)]) simp
  have old: "sound_dir validate V ?d dir" if "dir \<in> insert (dk_dir d) (dk_kept d)" for dir
  proof -
    have "names_ok ?i dir \<Longrightarrow> names_ok (Suc ?i) dir" unfolding names_ok_def by (auto simp: less_Suc_eq)
    with intactD [OF assms(1) that] fresh [OF that, of STATE_FILE] show ?thesis
      unfolding sound_dir_def d by (auto simp: read_in_other apart_def)
  qed
  have "read_in validate (dk_dir ?d) (dk_data ?d) = read_in validate (dk_dir d) (dk_data d)"
    using fresh [of "dk_dir d" STATE_FILE] assms(2) unfolding d by (auto simp: read_in_def split: option.splits)
  moreover have "names_ok (Suc ?i) (dk_dir ?d)"
    using cur names_fresh unfolding sound_dir_def d(1) by blast
  moreover from calculation(2) have "apart (dk_dir ?d) (dk_dir ?d)" by (rule names_apart)
  moreover have "dk_dir ?d STATE_FILE = Some i \<Longrightarrow> dk_synced ?d i" for i
    using cur fresh [of "dk_dir d" STATE_FILE] assms(2) unfolding sound_dir_def d by auto
  ultimately have "sound_dir validate V ?d (dk_dir ?d)" using cur unfolding sound_dir_def d(5) by metis
  with old show ?thesis unfolding intact_def d(2) by blast
qed

text \<open>A replacement of whatever other file.\<close>

lemma intact_replace_other:
  assumes "intact validate V d" and "source \<noteq> STATE_FILE" and "target \<noteq> STATE_FILE"
  shows "intact validate V (disk_step (Replace source target) d)"
proof (cases "dk_dir d source")
  case (Some i)
  let ?d = "disk_step (Replace source target) d"
  have d: "dk_dir ?d = (dk_dir d)(target := Some i, source := None)" "dk_kept ?d = insert (dk_dir d) (dk_kept d)"
    "dk_data ?d = dk_data d" "dk_synced ?d = dk_synced d" "dk_next ?d = dk_next d"
    by (simp_all add: Some on_file_def)
  have old: "sound_dir validate V ?d dir" if "dir \<in> insert (dk_dir d) (dk_kept d)" for dir
    using intactD [OF assms(1) that] rename_apart [where source = source and cur = "dk_dir d", OF _ Some assms(2)] unfolding sound_dir_def d by blast
  have same: "dk_dir ?d STATE_FILE = dk_dir d STATE_FILE" unfolding d(1) using assms(2,3) by simp
  have "names_ok (dk_next d) (dk_dir d)" using intactD [OF assms(1), of "dk_dir d"] by (simp add: sound_dir_def)
  then have names: "names_ok (dk_next ?d) (dk_dir ?d)" unfolding d(1,5) using Some by (rule rename_names)
  have "sound_dir validate V ?d (dk_dir d)" by (rule old) simp
  from sound_dir_same [OF this same names] have "sound_dir validate V ?d (dk_dir ?d)" .
  with old show ?thesis unfolding intact_def d(2) by blast
qed (use assms(1) in \<open>simp add: on_file_def\<close>)

text \<open>The one step that changes the state file: its new contents are on the disk.\<close>

lemma intact_replace_state:
  assumes "intact validate V d" and "dk_dir d source = Some i" and "source \<noteq> STATE_FILE" and "dk_synced d i"
    and "read_in validate (\<lambda>_. Some i) (dk_data d) = Inr (Some s)"
  shows "intact validate (insert (Some s) V) (disk_step (Replace source STATE_FILE) d)"
    and "read_state validate (disk_step (Replace source STATE_FILE) d) = Inr (Some s)"
proof -
  let ?d = "disk_step (Replace source STATE_FILE) d"
  have d: "dk_dir ?d = (dk_dir d)(STATE_FILE := Some i, source := None)" "dk_kept ?d = insert (dk_dir d) (dk_kept d)"
    "dk_data ?d = dk_data d" "dk_synced ?d = dk_synced d" "dk_next ?d = dk_next d"
    by (simp_all add: assms(2) on_file_def)
  have cur: "sound_dir validate V d (dk_dir d)" by (rule intactD [OF assms(1)]) simp
  have now: "dk_dir ?d STATE_FILE = Some i" unfolding d(1) using assms(3) by simp
  then have new: "read_in validate (dk_dir ?d) (dk_data ?d) = Inr (Some s)"
    using assms(5) unfolding d(3) by (simp add: read_in_def)
  then show "read_state validate ?d = Inr (Some s)" by (simp add: read_state_def)
  have "names_ok (dk_next d) (dk_dir d)" using cur by (simp add: sound_dir_def)
  from rename_names [OF this assms(2), of STATE_FILE] names_apart [OF rename_names [OF this assms(2), of STATE_FILE]] new now assms(4)
  have "sound_dir validate (insert (Some s) V) ?d (dk_dir ?d)"
    unfolding sound_dir_def d(4,5) d(1) [symmetric] by auto
  moreover have "sound_dir validate (insert (Some s) V) ?d dir" if "dir \<in> insert (dk_dir d) (dk_kept d)" for dir
    using intactD [OF assms(1) that] rename_apart [where source = source and cur = "dk_dir d", OF _ assms(2,3)] unfolding sound_dir_def d by blast
  ultimately show "intact validate (insert (Some s) V) ?d" unfolding intact_def d(2) by blast
qed

lemma intact_power_lost:
  assumes "intact validate V d" and "power_lost d d'" shows "intact validate V d'"
proof -
  have dir: "dk_dir d' \<in> insert (dk_dir d) (dk_kept d)" using assms(2) by (simp add: power_lost_def)
  note sound = intactD [OF assms(1) this]
  have same: "read_in validate (dk_dir d') (dk_data d') = read_in validate (dk_dir d') (dk_data d)"
    using sound assms(2) by (auto simp: read_in_def sound_dir_def power_lost_def split: option.splits)
  have "apart (dk_dir d') (dk_dir d')" using sound names_apart unfolding sound_dir_def by blast
  with sound same assms(2) have "sound_dir validate V d' (dk_dir d')"
    unfolding sound_dir_def power_lost_def by metis
  then show ?thesis using assms(2) by (simp add: intact_def power_lost_def)
qed

section \<open>Writes, whole and interrupted\<close>

definition encodes ::
  "(pystr \<Rightarrow> exn + operation_state) \<Rightarrow> (operation_state \<Rightarrow> json) \<Rightarrow> operation_state \<Rightarrow> bytes list \<Rightarrow> bool" where
  \<comment> \<open>the text of \<open>s\<close> can be encoded, reaches the file in \<open>parts\<close>, and is valid JSON of \<open>s\<close>\<close>
  "encodes validate dump s parts \<longleftrightarrow>
     utf8_encode (state_text dump s) = Inr (concat parts) \<and> validate (state_text dump s) = Inr s"

lemma names_differ: "STATE_TEMPORARY \<noteq> STATE_FILE" "LOG_TEMPORARY \<noteq> STATE_FILE" "LOG_FILE \<noteq> STATE_FILE"
  by code_simp+

lemma run_ops_simps [simp]: "run_ops [] d = d" "run_ops (x # xs) d = run_ops xs (disk_step x d)"
  "run_ops (xs @ ys) d = run_ops ys (run_ops xs d)"
  by (simp_all add: run_ops_def)

text \<open>The operations on files other than the state file.\<close>

fun elsewhere :: "disk_op \<Rightarrow> bool" where
  "elsewhere (OpenForWriting n) \<longleftrightarrow> n \<noteq> STATE_FILE"
| "elsewhere (Append n b) \<longleftrightarrow> n \<noteq> STATE_FILE"
| "elsewhere (Sync n) \<longleftrightarrow> n \<noteq> STATE_FILE"
| "elsewhere (Replace m n) \<longleftrightarrow> m \<noteq> STATE_FILE \<and> n \<noteq> STATE_FILE"

lemma intact_elsewhere:
  assumes "intact validate V d" and "elsewhere x" shows "intact validate V (disk_step x d)"
proof (cases x)
  case (Append n b)
  with assms intact_data [OF assms(1)] show ?thesis by (auto simp: on_file_def split: option.split)
next
  case (Sync n)
  show ?thesis
  proof (cases "dk_dir d n")
    case (Some i)
    with intact_data [where i = i and n = n and b = "dk_data d i" and v = True, OF assms(1) Some] assms(2) Sync show ?thesis by (simp add: on_file_def)
  qed (use assms(1) Sync in \<open>simp add: on_file_def\<close>)
qed (use assms intact_open [OF assms(1)] intact_replace_other [OF assms(1)] in auto)

lemma intact_run:
  "intact validate V d \<Longrightarrow> list_all elsewhere xs \<Longrightarrow> intact validate V (run_ops xs d)"
  by (induction xs arbitrary: d) (auto intro: intact_elsewhere)

lemma opened: "\<exists>i. dk_dir (disk_step (OpenForWriting n) d) n = Some i \<and> dk_data (disk_step (OpenForWriting n) d) i = []"
  by (auto split: option.split)

lemma appended:
  "dk_dir d n = Some i \<Longrightarrow> dk_data d i = b \<Longrightarrow> dk_dir (run_ops (map (Append n) parts) d) n = Some i \<and>
     dk_data (run_ops (map (Append n) parts) d) i = b @ concat parts"
  by (induction parts arbitrary: d b) (auto simp: on_file_def)

lemma whole_write:
  assumes "intact validate V d" and "encodes validate dump s parts"
  shows "intact validate (insert (Some s) V) (run_ops (write_ops parts) d)"
    and "read_state validate (run_ops (write_ops parts) d) = Inr (Some s)"
proof -
  let ?d0 = "disk_step (OpenForWriting STATE_TEMPORARY) d"
  let ?d1 = "run_ops (map (Append STATE_TEMPORARY) parts) ?d0"
  obtain i where "dk_dir ?d0 STATE_TEMPORARY = Some i" "dk_data ?d0 i = []" using opened by blast
  from appended [OF this] have i: "dk_dir ?d1 STATE_TEMPORARY = Some i" "dk_data ?d1 i = concat parts" by simp_all
  let ?d2 = "disk_step (Sync STATE_TEMPORARY) ?d1"
  have d2: "dk_dir ?d2 STATE_TEMPORARY = Some i" "dk_data ?d2 i = concat parts" "dk_synced ?d2 i"
    using i by (simp_all add: on_file_def)
  have all: "run_ops (write_ops parts) d = disk_step (Replace STATE_TEMPORARY STATE_FILE) ?d2"
    by (simp add: write_ops_def)
  have "intact validate V (run_ops ([OpenForWriting STATE_TEMPORARY] @ map (Append STATE_TEMPORARY) parts @
      [Sync STATE_TEMPORARY]) d)"
    using assms(1) by (rule intact_run) (simp add: names_differ list_all_iff)
  then have before: "intact validate V ?d2" by simp
  have read: "read_in validate (\<lambda>_. Some i) (dk_data ?d2) = Inr (Some s)"
    using assms(2) d2(2) decode_encode [of "state_text dump s" "concat parts"]
    unfolding encodes_def read_in_def by simp
  note done' = intact_replace_state [OF before d2(1) names_differ(1) d2(3) read]
  from done' show "intact validate (insert (Some s) V) (run_ops (write_ops parts) d)"
    "read_state validate (run_ops (write_ops parts) d) = Inr (Some s)" unfolding all .
qed

lemma part_write:
  assumes "intact validate V d" and "k < length (write_ops parts)"
  shows "intact validate V (run_ops (take k (write_ops parts)) d)"
proof -
  let ?xs = "[OpenForWriting STATE_TEMPORARY] @ map (Append STATE_TEMPORARY) parts @ [Sync STATE_TEMPORARY]"
  have "write_ops parts = ?xs @ [Replace STATE_TEMPORARY STATE_FILE]" by (simp add: write_ops_def)
  then have "take k (write_ops parts) = take k ?xs" using assms(2) by (simp only: take_append length_append) simp
  moreover have "list_all elsewhere (take k ?xs)"
    using set_take_subset [of k ?xs] names_differ(1) by (fastforce simp: list_all_iff)
  ultimately show ?thesis using intact_run [OF assms(1)] by metis
qed

text \<open>
  The lives of the store: the states in \<open>V\<close> are those a reader may meet. A write of a state that
  cannot be encoded fails with an exception before it replaces the file.
\<close>

inductive stored ::
  "(pystr \<Rightarrow> exn + operation_state) \<Rightarrow> (operation_state \<Rightarrow> json) \<Rightarrow> operation_state option set \<Rightarrow> disk \<Rightarrow> bool"
  for validate dump where
  fresh: "dk_dir d = Map.empty \<Longrightarrow> dk_kept d = {} \<Longrightarrow> stored validate dump {None} d"
| writing: "stored validate dump V d \<Longrightarrow> encodes validate dump s parts
    \<Longrightarrow> stored validate dump (insert (Some s) V) (run_ops (take k (write_ops parts)) d)"
| failing: "stored validate dump V d \<Longrightarrow> k < length (write_ops parts)
    \<Longrightarrow> stored validate dump V (run_ops (take k (write_ops parts)) d)"
| resetting: "stored validate dump V d \<Longrightarrow> stored validate dump V (run_ops (take k reset_log_ops) d)"
| crashing: "stored validate dump V d \<Longrightarrow> power_lost d d' \<Longrightarrow> stored validate dump V d'"
| settling: "stored validate dump V d \<Longrightarrow> read_state validate d = Inr r
    \<Longrightarrow> stored validate dump {r} (d\<lparr>dk_kept := {}\<rparr>)"

lemma cut_write:
  assumes "intact validate V d" and "encodes validate dump s parts"
  shows "intact validate (insert (Some s) V) (run_ops (take k (write_ops parts)) d)"
proof (cases "k < length (write_ops parts)")
  case True
  from intact_mono [OF part_write [OF assms(1) this]] show ?thesis by blast
next
  case False
  with whole_write(1) [OF assms] show ?thesis by simp
qed

lemma stored_intact: "stored validate dump V d \<Longrightarrow> intact validate V d"
proof (induction rule: stored.induct)
  case (fresh d)
  then show ?case by (simp add: intact_def sound_dir_def names_ok_def apart_def read_in_def)
next
  case (writing V d s parts k)
  from cut_write [OF writing.IH writing.hyps(2)] show ?case .
next
  case (failing V d k parts)
  from part_write [OF failing.IH failing.hyps(2)] show ?case .
next
  case (resetting V d k)
  have "list_all elsewhere (take k reset_log_ops)"
    using set_take_subset [of k reset_log_ops] names_differ by (fastforce simp: list_all_iff reset_log_ops_def)
  with resetting.IH show ?case by (rule intact_run)
next
  case (crashing V d d')
  from crashing.IH crashing.hyps(2) show ?case by (rule intact_power_lost)
next
  case (settling V d r)
  have "sound_dir validate V d (dk_dir d)" using intactD [OF settling.IH] by blast
  with settling.hyps(2) show ?case by (simp add: intact_def sound_dir_def read_state_def)
qed

text \<open>What the directories before were decides nothing until the power is lost.\<close>

lemma step_kept: "\<exists>L. disk_step x (d\<lparr>dk_kept := K\<rparr>) = (disk_step x d)\<lparr>dk_kept := L\<rparr>"
  by (cases x) (auto simp: on_file_def split: option.splits
      intro: exI [of _ K] exI [of _ "insert (dk_dir d) K"])

lemma run_kept: "\<exists>L. run_ops ops (d\<lparr>dk_kept := K\<rparr>) = (run_ops ops d)\<lparr>dk_kept := L\<rparr>"
proof (induction ops arbitrary: d K)
  case (Cons x ops)
  obtain L where "disk_step x (d\<lparr>dk_kept := K\<rparr>) = (disk_step x d)\<lparr>dk_kept := L\<rparr>" using step_kept by blast
  with Cons.IH [where d = "disk_step x d" and K = L] show ?case by simp
qed auto

lemma read_kept: "read_state validate (d\<lparr>dk_kept := K\<rparr>) = read_state validate d"
  by (simp add: read_state_def)

text \<open>
  C7. The state file is never torn: wherever a write stops - after any of its operations, with
  any part of the text written - the next start of the service reads the old state or the new
  one, whole, and a write that returns is read back. A loss of power at that point is no worse
  on a disk that has settled; as the directory is not synced, on any other it may also bring
  back a state of an earlier write. Reading never raises.
\<close>

theorem write_atomic:
  assumes "stored validate dump V d" and "encodes validate dump s parts"
    and "d' = run_ops (take k (write_ops parts)) d"
  shows "read_state validate d' \<in> {read_state validate d, Inr (Some s)} \<and>
    (\<exists>r \<in> V. read_state validate d = Inr r) \<and>
    (length (write_ops parts) \<le> k \<longrightarrow> read_state validate d' = Inr (Some s)) \<and>
    (\<forall>d''. power_lost d' d'' \<longrightarrow> (\<exists>r \<in> insert (Some s) V. read_state validate d'' = Inr r) \<and>
      (dk_kept d = {} \<longrightarrow> read_state validate d'' \<in> {read_state validate d, Inr (Some s)}))"
proof -
  note now = stored_intact [OF assms(1)]
  obtain r where r: "r \<in> V" "read_state validate d = Inr r" using intact_reads [OF now] by blast
  have settled: "intact validate {r} (d\<lparr>dk_kept := {}\<rparr>)"
    by (rule stored_intact [OF stored.settling [OF assms(1) r(2)]])
  have lost: "\<exists>r \<in> insert (Some s) W. read_state validate d'' = Inr r" if "intact validate W d" "power_lost d' d''" for W d''
    using intact_reads [OF intact_power_lost [OF cut_write [OF that(1) assms(2), of k, folded assms(3)] that(2)]] .
  obtain L where "run_ops (take k (write_ops parts)) (d\<lparr>dk_kept := {}\<rparr>) = d'\<lparr>dk_kept := L\<rparr>"
    using run_kept [where ops = "take k (write_ops parts)" and d = d and K = "{}"] by (auto simp: assms(3))
  with intact_reads [OF cut_write [OF settled assms(2), of k]] have killed: "read_state validate d' \<in> {Inr r, Inr (Some s)}"
    by (auto simp: read_kept)
  have "read_state validate d'' \<in> {Inr r, Inr (Some s)}" if "dk_kept d = {}" "power_lost d' d''" for d''
  proof -
    from that(1) have "d\<lparr>dk_kept := {}\<rparr> = d" by simp
    with settled have "intact validate {r} d" by simp
    from lost [OF this that(2)] show ?thesis by auto
  qed
  moreover have "read_state validate d' = Inr (Some s)" if "length (write_ops parts) \<le> k"
    using whole_write(2) [OF now assms(2)] that by (simp add: assms(3))
  ultimately show ?thesis using killed r lost [OF now] by auto
qed

text \<open>A first write is cut off before the file is synced, and the power is lost.\<close>

definition empty_disk :: disk where
  "empty_disk = \<lparr>dk_dir = Map.empty, dk_kept = {}, dk_data = (\<lambda>i. []), dk_synced = (\<lambda>i. False), dk_next = 0\<rparr>"

definition id_text :: "operation_state \<Rightarrow> json" where
  "id_text s = JStr (op_id s)"

definition validate_sample :: "pystr \<Rightarrow> exn + operation_state" where
  "validate_sample t = (if t = state_text id_text sample_final then Inr sample_final
     else Inl (raise_txt ValidationError ''state''))"

lemma sample_text: "state_text id_text sample_final = [34, 114, 117, 110, 45, 48, 34, 10]"
  by code_simp

theorem write_atomic_witness:
  "\<exists>d' d''. d' = run_ops (take 3 (write_ops [[34, 114], [117, 110, 45, 48, 34, 10]])) empty_disk \<and> power_lost d' d'' \<and>
     dk_data d'' 0 = [9, 9] \<and> read_state validate_sample d'' \<in> {Inr None, Inr (Some sample_final)}"
proof -
  let ?parts = "[[34, 114], [117, 110, 45, 48, 34, 10]] :: bytes list"
  let ?d' = "run_ops (take 3 (write_ops ?parts)) empty_disk"
  define d'' where "d'' = ?d'\<lparr>dk_kept := {}, dk_data := (dk_data ?d')(0 := [9, 9])\<rparr>"
  have "list_all scalar_value [34, 114, 117, 110, 45, 48, 34, 10]" by (simp add: scalar_value_def)
  then have "encodes validate_sample id_text sample_final ?parts"
    by (simp add: encodes_def sample_text validate_sample_def utf8_encode_def utf8_char_def byte_def)
  moreover have "stored validate_sample id_text {None} empty_disk"
    by (rule stored.fresh) (simp_all add: empty_disk_def)
  moreover have lost: "power_lost ?d' d''"
    by (auto simp: power_lost_def d''_def write_ops_def empty_disk_def on_file_def)
  moreover have "dk_kept empty_disk = {}" by (simp add: empty_disk_def)
  ultimately have "read_state validate_sample d'' \<in> {read_state validate_sample empty_disk, Inr (Some sample_final)}"
    using write_atomic [of validate_sample id_text "{None}" empty_disk sample_final ?parts ?d' 3] by blast
  moreover have "read_state validate_sample empty_disk = Inr None"
    by (simp add: read_state_def read_in_def empty_disk_def)
  moreover have "dk_data d'' 0 = [9, 9]" by (simp add: d''_def)
  ultimately show ?thesis using lost by auto
qed

end
