(* ===== verification/Custom_Entities.thy ===== *)
theory Custom_Entities
  imports Stand
begin

text \<open>
  The documented extension of the framework, \<^verbatim>\<open>src/docs/examples/custom_entities.py\<close>: a project
  adds a transport over a client of its own and a device of its own, with schemas, settings and
  factories, and leaves the loading of inventories, the composition of stands and their
  lifecycle to the framework. The client is an interface, the locale \<open>console_client\<close>.
\<close>

section \<open>Schemas\<close>

record tcp_console_config =
  tcp_host :: pystr
  tcp_port :: int
  tcp_credentials :: pystr

definition tcp_console_errors :: "tcp_console_config \<Rightarrow> exn list" where
  "tcp_console_errors c =
     constraint (tcp_host c \<noteq> []) ''host'' @
     constraint (1 \<le> tcp_port c \<and> tcp_port c \<le> 65535) ''port'' @
     constraint (tcp_credentials c \<noteq> []) ''credentials''"

datatype project_transport_config =
    StandardTransport transport_config
  | TcpConsoleTransportConfig tcp_console_config

datatype raw_project_transport = RawStandard raw_transport | RawTcpConsole tcp_console_config

fun build_project_transport :: "raw_project_transport \<Rightarrow> project_transport_config" where
  "build_project_transport (RawStandard r) = StandardTransport (build_transport r)"
| "build_project_transport (RawTcpConsole c) = TcpConsoleTransportConfig c"

fun project_transport_errors :: "project_transport_config \<Rightarrow> exn list" where
  "project_transport_errors (StandardTransport t) = transport_errors t"
| "project_transport_errors (TcpConsoleTransportConfig c) = tcp_console_errors c"

text \<open>The class of a device configuration, beside the fields of \<^verbatim>\<open>DeviceConfig\<close>; the document's
  fields are as they are before the discriminator \<^verbatim>\<open>type\<close> has chosen a class.\<close>

datatype project_config_class = BuiltinDeviceConfig | CustomMeterConfig (cm_channel: int)

record 't project_device_config = "'t device_config" +
  pd_class :: project_config_class

record 't raw_project_device = "'t device_config" +
  rd_channel :: "int option"

definition builtin_device_types :: "pystr list" where
  "builtin_device_types = [lit ''dut'', lit ''analyzer'', lit ''generator'']"

definition project_class_errors :: "pystr \<Rightarrow> int option \<Rightarrow> exn list" where
  "project_class_errors type' channel =
     (if type' \<in> set builtin_device_types then constraint (channel = None) ''channel''
      else if type' = lit ''custom_meter''
      then (case channel of None \<Rightarrow> constraint False ''channel'' | Some c \<Rightarrow> constraint (1 \<le> c) ''channel'')
      else constraint False ''type'')"

definition build_project_device ::
  "raw_project_transport raw_project_device \<Rightarrow> project_transport_config project_device_config" where
  "build_project_device d = \<lparr>dc_type = dc_type d, dc_model = dc_model d,
     dc_transport = build_project_transport (dc_transport d),
     pd_class = (case rd_channel d of
       Some c \<Rightarrow> if dc_type d = lit ''custom_meter'' then CustomMeterConfig c else BuiltinDeviceConfig
     | None \<Rightarrow> BuiltinDeviceConfig)\<rparr>"

definition project_devices ::
  "('y \<Rightarrow> exn + int \<times> (pystr, raw_project_transport raw_project_device) dict)
     \<Rightarrow> 'y \<Rightarrow> exn + project_transport_config project_device_config device_inventory" where
  \<comment> \<open>\<^verbatim>\<open>TypeAdapter(DeviceInventory[ProjectDeviceConfig])\<close> after coercion\<close>
  "project_devices coerce y =
     try_bind (coerce y) (\<lambda>(v, raw).
       checked (constraint (v = 1) ''version'' @
           concat (map (\<lambda>(n, d). project_class_errors (dc_type d) (rd_channel d) @
             project_transport_errors (build_project_transport (dc_transport d))) raw))
         \<lparr>di_version = v, di_devices = map (\<lambda>(n, d). (n, build_project_device d)) raw\<rparr>)"

definition load_project_inventory ::
  "(ppath \<Rightarrow> exn + 'y) \<Rightarrow> ('y \<Rightarrow> exn + stand_inventory)
     \<Rightarrow> ('y \<Rightarrow> exn + int \<times> (pystr, raw_project_transport raw_project_device) dict) \<Rightarrow> ppath
     \<Rightarrow> exn + project_transport_config project_device_config inventory" where
  \<comment> \<open>both adapters are given, so the loader's own are not used\<close>
  "load_project_inventory load stand_validate coerce path =
     load_inventory load stand_validate (project_devices coerce) inventory_model
       (Some (project_devices coerce)) (Some inventory_model) path"

section \<open>Settings and factories\<close>

record project_settings = settings +
  ps_tcp :: "(pystr, credential) dict"      \<comment> \<open>\<^verbatim>\<open>credentials.tcp\<close>\<close>

record tcp_console_transport =
  tt_config :: tcp_console_config
  tt_credentials :: credential
  tt_connect_timeout :: rat
  tt_command_timeout :: rat

datatype project_transport =
    StandardLockable lockable_transport
  | SynchronizedTcpConsole tcp_console_transport      \<comment> \<open>over a new client\<close>

datatype project_device =
    StandardDevice "project_transport device"
  | CustomMeter (mt_transport: project_transport) (mt_model: pystr) (mt_channel: int)

fun project_transport_of :: "project_device \<Rightarrow> project_transport" where
  "project_transport_of (StandardDevice d) = dev_transport d"
| "project_transport_of (CustomMeter t m c) = t"

definition project_device_create ::
  "project_transport_config project_device_config \<Rightarrow> project_transport \<Rightarrow> exn + project_device" where
  "project_device_create config transport =
     (case pd_class config of
        CustomMeterConfig channel \<Rightarrow> Inr (CustomMeter transport (dc_model config) channel)
      | BuiltinDeviceConfig \<Rightarrow>
          try_bind (create_device (device_config.truncate config) transport) (\<lambda>d. Inr (StandardDevice d)))"

definition project_transport_create ::
  "project_settings \<Rightarrow> project_transport_config \<Rightarrow> exn + project_transport" where
  "project_transport_create st config =
     (case config of
        TcpConsoleTransportConfig c \<Rightarrow>
          (case map_of (ps_tcp st) (tcp_credentials c) of
             None \<Rightarrow> Inl (Exn FactoryError [Txt (lit ''TCP credentials ''), quoted (tcp_credentials c),
               Txt (lit '' are not configured'')])
           | Some credential \<Rightarrow> Inr (SynchronizedTcpConsole \<lparr>tt_config = c, tt_credentials = credential,
               tt_connect_timeout = connect_timeout st, tt_command_timeout = command_timeout st\<rparr>))
      | StandardTransport c \<Rightarrow>
          try_bind (create_transport c (settings.truncate st)) (\<lambda>t. Inr (StandardLockable t)))"

definition build_stand ::
  "project_settings \<Rightarrow> (pystr, project_transport_config project_device_config) dict \<Rightarrow> stand_config
     \<Rightarrow> exn + project_device test_stand" where
  \<comment> \<open>\<^verbatim>\<open>build_stand_factory(settings, ...).create\<close>\<close>
  "build_stand st = stand_create (project_transport_create st) project_device_create"

text \<open>The project's factories fulfil the contract of the framework's stand factory.\<close>

lemma project_transport_error:
  "project_transport_create st c = Inl e \<Longrightarrow>
     exn_kind e \<in> (if has_control_char (serial_agent_command st) then {FactoryError, PyValueError} else {FactoryError})"
  by (auto simp: project_transport_create_def result_simps settings.defs split: project_transport_config.splits
      option.splits dest!: create_transport_error split: if_splits)

interpretation project: stand_factories "project_transport_create st" project_device_create
  project_transport_of
  "if has_control_char (serial_agent_command st) then {FactoryError, PyValueError} else {FactoryError}"
  for st
  by unfold_locales
    (auto simp: project_device_create_def create_device_def result_simps
      dest: project_transport_error split: project_config_class.splits option.splits)

section \<open>Well-typed inventories\<close>

datatype project_class = StandardClass device_class | CustomMeterClass

fun class_of :: "project_device \<Rightarrow> project_class" where
  "class_of (StandardDevice d) = StandardClass (dev_class d)"
| "class_of (CustomMeter t m c) = CustomMeterClass"

definition declared_class :: "pystr \<Rightarrow> project_class option" where
  \<comment> \<open>the class a \<^verbatim>\<open>type\<close> tag stands for\<close>
  "declared_class type' =
     (if type' = lit ''custom_meter'' then Some CustomMeterClass
      else map_option StandardClass (map_of device_types type'))"

definition well_typed :: "'t project_device_config \<Rightarrow> bool" where
  "well_typed c \<longleftrightarrow>
     (case pd_class c of
        BuiltinDeviceConfig \<Rightarrow> dc_type c \<in> set builtin_device_types
      | CustomMeterConfig channel \<Rightarrow> dc_type c = lit ''custom_meter'' \<and> 1 \<le> channel)"

lemma custom_meter_not_builtin: "lit ''custom_meter'' \<notin> set builtin_device_types"
  by code_simp

lemma build_project_device_typed:
  "project_class_errors (dc_type d) (rd_channel d) = [] \<Longrightarrow> well_typed (build_project_device d)"
  using custom_meter_not_builtin
  by (auto simp: project_class_errors_def build_project_device_def well_typed_def split: if_splits option.splits)

lemma project_devices_typed:
  assumes "project_devices coerce y = Inr di" and "(n, c) \<in> set (di_devices di)"
  shows "well_typed c"
  using assms by (fastforce simp: project_devices_def result_simps intro: build_project_device_typed)

lemma builtin_types_known:
  "t \<in> set builtin_device_types \<Longrightarrow>
     t \<noteq> lit ''custom_meter'' \<and> (\<exists>k. map_of device_types t = Some k \<and> declared_class t = Some (StandardClass k))"
  using custom_meter_not_builtin by (auto simp: builtin_device_types_def declared_class_def device_types_def)

definition as_declared :: "'t project_device_config \<Rightarrow> project_device \<Rightarrow> bool" where
  "as_declared c d \<longleftrightarrow> declared_class (dc_type c) = Some (class_of d) \<and>
     (\<forall>t m channel. d = CustomMeter t m channel \<longrightarrow> 1 \<le> channel \<and> pd_class c = CustomMeterConfig channel)"

lemma device_created_as_declared:
  assumes "well_typed c" shows "\<exists>d. project_device_create c t = Inr d \<and> as_declared c d"
proof (cases "pd_class c")
  case BuiltinDeviceConfig
  with assms obtain k where "map_of device_types (dc_type c) = Some k"
    "declared_class (dc_type c) = Some (StandardClass k)"
    using builtin_types_known by (auto simp: well_typed_def)
  with BuiltinDeviceConfig show ?thesis
    by (simp add: project_device_create_def create_device_def device_config.defs as_declared_def)
next
  case (CustomMeterConfig channel)
  with assms show ?thesis
    by (simp add: project_device_create_def well_typed_def declared_class_def as_declared_def)
qed

definition distinct_ids :: "('y \<Rightarrow> exn + int \<times> (pystr, 'd) dict) \<Rightarrow> bool" where
  \<comment> \<open>a document's devices are a dictionary\<close>
  "distinct_ids coerce \<longleftrightarrow> (\<forall>y v raw. coerce y = Inr (v, raw) \<longrightarrow> dict_ok raw)"

lemma load_project_inventory_typed:
  assumes "load_project_inventory load stand_validate coerce path = Inr i"
    and "distinct_ids coerce"
  shows "references_ok i" and "(n, c) \<in> set (inv_devices i) \<Longrightarrow> well_typed c"
proof -
  have keys: "dict_ok (di_devices di)" if "try_bind (load p) (project_devices coerce) = Inr di" for p di
    using that assms(2) by (fastforce simp: distinct_ids_def project_devices_def result_simps dict_ok_def comp_def case_prod_unfold)
  have "load_inventory_with load stand_validate (project_devices coerce) inventory_model path = Inr i"
    using assms(1) by (simp add: load_project_inventory_def load_inventory_def)
  then obtain si :: stand_inventory and parts where
    parts: "list_all2 (\<lambda>f part. read_devices load (project_devices coerce) (path_join (path_parent path) f) = Some part)
      (si_device_files si) parts"
    and model: "inventory_model (si_version si) (concat parts) (si_stands si) = Inr i"
    using keys by (rule load_inventory_with_Inr) blast
  from model [unfolded inventory_model_Inr_iff] show "references_ok i" by (elim conjE)
  assume "(n, c) \<in> set (inv_devices i)"
  with model obtain part where part: "part \<in> set parts" "(n, c) \<in> set part"
    by (auto simp: inventory_model_Inr_iff)
  with parts obtain f where "read_devices load (project_devices coerce) (path_join (path_parent path) f) = Some part"
    using part(1) by (auto simp: list_all2_conv_all_nth in_set_conv_nth)
  with part(2) show "well_typed c"
    by (auto simp: read_devices_def result_simps split: sum.splits dest: project_devices_typed)
qed

text \<open>
  C15. Well-typed inventories do not go wrong. From an inventory the project's schema has accepted,
  composing a stand of it never fails over a type or a missing device, only because the
  transport of one of its devices cannot be created; and in the composed stand every role leads
  to a device of the very class its inventory entry declares by its tag, a meter with the
  positive channel of the entry.
\<close>

theorem project_types_sound:
  assumes "load_project_inventory load stand_validate coerce path = Inr i"
    and "distinct_ids coerce"
    and "get_stand i name = Inr config" and "dict_ok (sd_devices config)"
  shows "case build_stand st (inv_devices i) config of
      Inl e \<Rightarrow> \<exists>c. project_transport_create st c = Inl e
    | Inr stand \<Rightarrow> \<forall>(role, n) \<in> set (sd_devices config). \<exists>oid c.
        map_of (ts_devices stand) role = Some oid \<and> map_of (inv_devices i) n = Some c \<and>
        as_declared c (ts_objects stand ! oid)"
proof -
  note typed = load_project_inventory_typed [OF assms(1,2)]
  from assms(3) have stand: "(name, config) \<in> set (inv_stands i)"
    by (auto simp: get_stand_def Let_def split: option.splits dest: map_of_SomeD)
  show ?thesis
  proof (cases "build_stand st (inv_devices i) config")
    case (Inr stand)
    then have "stand_create (project_transport_create st) project_device_create (inv_devices i) config = Inr stand"
      by (simp add: build_stand_def)
    from stand_create_inv [OF this assms(4)] obtain physical where
      inv: "stand_inv (project_transport_create st) project_device_create (inv_devices i) (sd_devices config)
        physical (ts_devices stand) (ts_objects stand)" by blast
    have "\<exists>oid c. map_of (ts_devices stand) role = Some oid \<and> map_of (inv_devices i) n = Some c \<and>
        as_declared c (ts_objects stand ! oid)"
      if "(role, n) \<in> set (sd_devices config)" for role n
    proof -
      from stand_inv_role [OF inv assms(4) that] obtain oid c t where
        oid: "map_of (ts_devices stand) role = Some oid" "map_of (inv_devices i) n = Some c"
        and made: "project_device_create c t = Inr (ts_objects stand ! oid)" by (auto simp: built_def)
      from device_created_as_declared [OF typed(2) [OF map_of_SomeD [OF oid(2)]], of t] made oid show ?thesis by auto
    qed
    with Inr show ?thesis by auto
  next
    case (Inl e)
    with typed(1) stand have "\<exists>c. project_transport_create st c = Inl e \<or>
        (\<exists>n dc t. map_of (inv_devices i) n = Some dc \<and> project_device_create dc t = Inl e)"
      by (auto simp: build_stand_def stand_create_def result_simps references_ok_def
          dest!: stand_loop_error_of)
    moreover have "project_device_create dc t \<noteq> Inl e" if "map_of (inv_devices i) n = Some dc" for n dc t
      using device_created_as_declared [OF typed(2) [OF map_of_SomeD [OF that]], of t] by auto
    ultimately show ?thesis using Inl by auto
  qed
qed

text \<open>An inventory of one meter in two roles, with the documents already parsed.\<close>

definition meter_stand :: stand_config where
  "meter_stand = \<lparr>sd_description = None, sd_capabilities = [],
     sd_devices = [(lit ''reference_meter'', lit ''meter-01''), (lit ''alias'', lit ''meter-01'')]\<rparr>"

definition meter_stands :: "ppath \<Rightarrow> exn + stand_inventory" where
  "meter_stands y = Inr \<lparr>si_version = 1, si_device_files = [parse_path (lit ''meters.yaml'')],
     si_stands = [(lit ''example'', meter_stand)]\<rparr>"

definition meter_documents ::
  "ppath \<Rightarrow> exn + int \<times> (pystr, raw_project_transport raw_project_device) dict" where
  "meter_documents y = Inr (1, [(lit ''meter-01'', \<lparr>dc_type = lit ''custom_meter'', dc_model = lit ''m'',
     dc_transport = RawTcpConsole \<lparr>tcp_host = lit ''h'', tcp_port = 9000, tcp_credentials = lit ''meter_link''\<rparr>,
     rd_channel = Some 2\<rparr>)])"

definition meter_settings :: project_settings where
  "meter_settings = settings.extend default_settings
     \<lparr>ps_tcp = [(lit ''meter_link'', \<lparr>cr_username = lit ''tester'', cr_password = lit ''fake''\<rparr>)]\<rparr>"

lemma meter_inventory:
  "load_project_inventory Inr meter_stands meter_documents (parse_path (lit ''stands.yaml'')) =
     Inr \<lparr>inv_version = 1, inv_devices = [(lit ''meter-01'', \<lparr>dc_type = lit ''custom_meter'', dc_model = lit ''m'',
       dc_transport = TcpConsoleTransportConfig
         \<lparr>tcp_host = lit ''h'', tcp_port = 9000, tcp_credentials = lit ''meter_link''\<rparr>,
       pd_class = CustomMeterConfig 2\<rparr>)], inv_stands = [(lit ''example'', meter_stand)]\<rparr>"
  by code_simp

theorem project_types_sound_witness:
  "\<exists>i stand oid. load_project_inventory Inr meter_stands meter_documents (parse_path (lit ''stands.yaml'')) = Inr i \<and>
     build_stand meter_settings (inv_devices i) meter_stand = Inr stand \<and>
     map_of (ts_devices stand) (lit ''alias'') = Some oid \<and> class_of (ts_objects stand ! oid) = CustomMeterClass"
proof -
  define i where "i = \<lparr>inv_version = 1, inv_devices = [(lit ''meter-01'', \<lparr>dc_type = lit ''custom_meter'', dc_model = lit ''m'',
       dc_transport = TcpConsoleTransportConfig
         \<lparr>tcp_host = lit ''h'', tcp_port = 9000, tcp_credentials = lit ''meter_link''\<rparr>,
       pd_class = CustomMeterConfig 2\<rparr>)], inv_stands = [(lit ''example'', meter_stand)]\<rparr>"
  have load: "load_project_inventory Inr meter_stands meter_documents (parse_path (lit ''stands.yaml'')) = Inr i"
    unfolding i_def by (rule meter_inventory)
  have ids: "distinct_ids meter_documents" by (auto simp: distinct_ids_def meter_documents_def dict_ok_def)
  have found: "get_stand i (lit ''example'') = Inr meter_stand" by (simp add: i_def get_stand_def)
  have keys: "dict_ok (sd_devices meter_stand)" by (simp add: meter_stand_def dict_ok_def)
  obtain stand where stand: "build_stand meter_settings (inv_devices i) meter_stand = Inr stand"
    by (simp add: i_def build_stand_def stand_create_def meter_stand_def meter_settings_def Let_def
        project_transport_create_def project_device_create_def settings.defs)
  have declared: "declared_class (lit ''custom_meter'') = Some CustomMeterClass" by (simp add: declared_class_def)
  from project_types_sound [OF load ids found keys, of meter_settings] stand declared load
  show ?thesis by (auto simp: i_def meter_stand_def as_declared_def split: if_splits)
qed

section \<open>The console transport\<close>

record ('w, 'k) client =
  cl_connect :: "pystr \<Rightarrow> int \<Rightarrow> pystr \<Rightarrow> pystr \<Rightarrow> rat \<Rightarrow> ('w \<times> 'k, unit) io"
  cl_execute :: "pystr \<Rightarrow> rat \<Rightarrow> ('w \<times> 'k, command_result) io"
  cl_close :: "('w \<times> 'k, unit) io"

text \<open>\<^verbatim>\<open>except TimeoutError\<close> before \<^verbatim>\<open>except OSError\<close>, with what each handler does first.\<close>

definition os_errors_as :: "('w, unit) io \<Rightarrow> string \<Rightarrow> string \<Rightarrow> ('w, 'a) io \<Rightarrow> ('w, 'a) io" where
  "os_errors_as cleanup timed_out failed m =
     try_except m (\<lambda>e.
       if caught_by e PyTimeoutError
       then io_then cleanup (raising (raise_txt TransportTimeoutError timed_out))
       else if caught_by e PyOSError
       then io_then cleanup (raising (raise_txt TransportError failed))
       else raising e)"

definition tcp_close :: "('w, 'k) client \<Rightarrow> ('w \<times> 'k, unit) io" where
  "tcp_close client =
     os_errors_as (returning ()) ''TCP console close timed out'' ''Cannot close TCP console'' (cl_close client)"

definition close_after_failed_connect :: "('w, 'k) client \<Rightarrow> ('w \<times> 'k, unit) io" where
  \<comment> \<open>the warning it logs is not modelled\<close>
  "close_after_failed_connect client =
     try_except (tcp_close client) (\<lambda>e. if caught_by e TransportError then returning () else raising e)"

definition tcp_connect :: "tcp_console_transport \<Rightarrow> ('w, 'k) client \<Rightarrow> ('w \<times> 'k, unit) io" where
  "tcp_connect t client =
     os_errors_as (close_after_failed_connect client) ''TCP console connection timed out''
       ''Cannot connect to TCP console''
       (cl_connect client (tcp_host (tt_config t)) (tcp_port (tt_config t))
         (cr_username (tt_credentials t)) (cr_password (tt_credentials t)) (tt_connect_timeout t))"

definition tcp_execute ::
  "tcp_console_transport \<Rightarrow> ('w, 'k) client \<Rightarrow> command \<Rightarrow> ('w \<times> 'k, command_result) io" where
  "tcp_execute t client command =
     (if \<not> is_text_command command
      then raising (raise_txt UnsupportedCommandError ''TCP console requires TextCommand'')
      else
        os_errors_as (returning ()) ''TCP console command timed out'' ''TCP console command failed''
          (case command_text command of
             None \<Rightarrow> raising (raise_txt PyTypeError ''query must be str'')
           | Some q \<Rightarrow> cl_execute client q (timeout_or (cmd_timeout command) (tt_command_timeout t))))"

definition meter_measure ::
  "(pystr \<Rightarrow> exn + 'f) \<Rightarrow> (command \<Rightarrow> ('s, command_result) io) \<Rightarrow> int \<Rightarrow> ('s, 'f) io" where
  \<comment> \<open>\<^verbatim>\<open>CustomMeter.measure\<close> over its transport's \<open>execute\<close>, of \<^verbatim>\<open>float\<close>\<close>
  "meter_measure to_float execute channel =
     io_bind (execute (TextCommand (StrQuery (lit ''MEASURE '' @ int_text channel)) None)) (\<lambda>result.
     if exit_code result \<noteq> 0 then raising (raise_txt TransportError ''Meter measurement failed'')
     else lifting (to_float (stdout result)))"

section \<open>What a client promises\<close>

text \<open>
  \<^verbatim>\<open>ConsoleClient\<close>: after \<open>connect\<close> returns it holds a connection, after \<open>close\<close> returns it holds
  none, and it fails only with \<^verbatim>\<open>OSError\<close>, which includes \<^verbatim>\<open>TimeoutError\<close>.
\<close>

definition closed_last :: "('w, 'k) client \<Rightarrow> ('k \<Rightarrow> bool) \<Rightarrow> 'w \<times> 'k \<Rightarrow> bool" where
  \<comment> \<open>the last thing asked of the client was to close, and if it did, it holds no connection\<close>
  "closed_last client opened a' \<longleftrightarrow>
     (\<exists>b q. cl_close client b = Some (q, a') \<and> (\<forall>u. q = Inr u \<longrightarrow> \<not> opened (snd a')))"

locale console_client =
  fixes client :: "('w, 'k) client" and opened :: "'k \<Rightarrow> bool"
  assumes connect_opens: "cl_connect client h p u pw t a = Some (Inr x, a') \<Longrightarrow> opened (snd a')"
    and close_closes: "cl_close client a = Some (Inr x, a') \<Longrightarrow> \<not> opened (snd a')"
    and connect_os: "cl_connect client h p u pw t a = Some (Inl e, a') \<Longrightarrow> caught_by e PyOSError"
    and close_os: "cl_close client a = Some (Inl e, a') \<Longrightarrow> caught_by e PyOSError"
    and execute_os: "cl_execute client q t a = Some (Inl e, a') \<Longrightarrow> caught_by e PyOSError"
begin

lemma tcp_close_outcome:
  assumes "tcp_close client a = Some (r, a')"
  shows "\<exists>q. cl_close client a = Some (q, a') \<and>
    (case r of Inr u \<Rightarrow> q = Inr u \<and> \<not> opened (snd a')
     | Inl e \<Rightarrow> e \<in> {raise_txt TransportTimeoutError ''TCP console close timed out'',
         raise_txt TransportError ''Cannot close TCP console''})"
proof -
  from assms obtain q a1 where q: "cl_close client a = Some (q, a1)"
    by (cases "cl_close client a") (auto simp: tcp_close_def os_errors_as_def try_except_def)
  with assms show ?thesis
    by (cases q) (auto simp: tcp_close_def os_errors_as_def try_except_def io_bind_def run_simps
        dest: close_os close_closes split: if_splits)
qed

lemma cleanup_outcome:
  assumes "close_after_failed_connect client a = Some (r, a')"
  shows "r = Inr () \<and> closed_last client opened a'"
proof -
  have "\<not> subclass_of PyOSError TransportError" "subclass_of TransportTimeoutError TransportError"
    "subclass_of TransportError TransportError" by code_simp+
  moreover from assms obtain q a1 where q: "tcp_close client a = Some (q, a1)"
    by (cases "tcp_close client a") (auto simp: close_after_failed_connect_def try_except_def)
  moreover from tcp_close_outcome [OF q] obtain q' where "cl_close client a = Some (q', a1)"
    "\<forall>u. q' = Inr u \<longrightarrow> \<not> opened (snd a1)" by (auto dest: close_closes)
  then have "closed_last client opened a1" unfolding closed_last_def by blast
  ultimately show ?thesis
    using assms tcp_close_outcome [OF q]
    by (cases q) (auto simp: close_after_failed_connect_def try_except_def run_simps caught_by_def raise_txt_def
        split: if_splits)
qed

lemma tcp_connect_outcome:
  assumes "tcp_connect t client a = Some (r, a')"
  shows "case r of Inr u \<Rightarrow> opened (snd a')
    | Inl e \<Rightarrow> e \<in> {raise_txt TransportTimeoutError ''TCP console connection timed out'',
        raise_txt TransportError ''Cannot connect to TCP console''} \<and>
      closed_last client opened a'"
proof -
  let ?connect = "cl_connect client (tcp_host (tt_config t)) (tcp_port (tt_config t))
    (cr_username (tt_credentials t)) (cr_password (tt_credentials t)) (tt_connect_timeout t)"
  from assms obtain q b where q: "?connect a = Some (q, b)"
    by (cases "?connect a") (auto simp: tcp_connect_def os_errors_as_def try_except_def)
  show ?thesis
  proof (cases q)
    case (Inr u)
    with assms q show ?thesis
      by (auto simp: tcp_connect_def os_errors_as_def try_except_def dest: connect_opens)
  next
    case (Inl e)
    with connect_os q have "caught_by e PyOSError" by blast
    with assms q Inl obtain x where x: "x \<in> {raise_txt TransportTimeoutError ''TCP console connection timed out'',
        raise_txt TransportError ''Cannot connect to TCP console''}"
      "io_then (close_after_failed_connect client) (raising x) b = Some (r, a')"
      by (auto simp: tcp_connect_def os_errors_as_def try_except_def split: if_splits)
    from x(2) obtain r' b' where r': "close_after_failed_connect client b = Some (r', b')"
      by (cases "close_after_failed_connect client b") (auto simp: io_bind_def)
    from cleanup_outcome [OF r'] x r' show ?thesis by (auto simp: io_bind_def run_simps)
  qed
qed

lemma tcp_execute_errors:
  assumes "tcp_execute t client c a = Some (Inl e, a')"
  shows "exn_kind e \<in> {UnsupportedCommandError, TransportError, TransportTimeoutError, PyTypeError}"
proof (cases "is_text_command c")
  case True
  have os: "subclass_of (exn_kind e) PyOSError" if "cl_execute client q t a = Some (Inl e, a')" for q t a e a'
    using execute_os [OF that] by (simp add: caught_by_def)
  from True show ?thesis
    using assms
    by (cases "command_text c")
      (auto simp: tcp_execute_def os_errors_as_def try_except_def io_bind_def run_simps raise_txt_def caught_by_def
        dest: os split: option.splits sum.splits if_splits)
qed (use assms in \<open>auto simp: tcp_execute_def run_simps raise_txt_def\<close>)

end

section \<open>A stand of both kinds of transport\<close>

text \<open>
  What a device slot of a stand holds: the state of a transport of the framework and that of a
  client, of which a device uses one.
\<close>

type_synonym ('w, 'k, 'a) project_io = "('w \<times> (nat \<Rightarrow> transport_state \<times> 'k), 'a) io"

definition on_transport :: "nat \<Rightarrow> ('w, 'a) agent_transport_io \<Rightarrow> ('w, 'k, 'a) project_io" where
  "on_transport oid m = (\<lambda>(w, S).
     case m ((w, fst (fst (S oid))), snd (fst (S oid))) of
       None \<Rightarrow> None
     | Some (r, ((w', b), s)) \<Rightarrow> Some (r, (w', S(oid := ((b, s), snd (S oid))))))"

definition on_client :: "nat \<Rightarrow> ('w \<times> 'k, 'a) io \<Rightarrow> ('w, 'k, 'a) project_io" where
  "on_client oid m = (\<lambda>(w, S).
     case m (w, snd (S oid)) of
       None \<Rightarrow> None
     | Some (r, (w', k)) \<Rightarrow> Some (r, (w', S(oid := (fst (S oid), k)))))"

lemma on_slot_Some [io_cases]:
  "on_transport i m (w, S) = Some (r, (w', S')) \<longleftrightarrow>
     (\<exists>b s. m ((w, fst (fst (S i))), snd (fst (S i))) = Some (r, ((w', b), s)) \<and> S' = S(i := ((b, s), snd (S i))))"
  "on_client i n (w, S) = Some (q, (w', S')) \<longleftrightarrow>
     (\<exists>k. n (w, snd (S i)) = Some (q, (w', k)) \<and> S' = S(i := (fst (S i), k)))"
  by (auto simp: on_transport_def on_client_def split: option.splits)

definition project_connect ::
  "'w libraries \<Rightarrow> ('w, 'k) client \<Rightarrow> project_device test_stand \<Rightarrow> nat \<Rightarrow> ('w, 'k, unit) project_io" where
  "project_connect lib client stand i =
     (case project_transport_of (ts_objects stand ! i) of
        StandardLockable t \<Rightarrow> on_transport i (transport_connect lib (wrapped t))
      | SynchronizedTcpConsole t \<Rightarrow> on_client i (tcp_connect t client))"

definition project_close ::
  "'w libraries \<Rightarrow> ('w, 'k) client \<Rightarrow> project_device test_stand \<Rightarrow> nat \<Rightarrow> ('w, 'k, unit) project_io" where
  "project_close lib client stand i =
     (case project_transport_of (ts_objects stand ! i) of
        StandardLockable t \<Rightarrow> on_transport i (transport_close lib (wrapped t))
      | SynchronizedTcpConsole t \<Rightarrow> on_client i (tcp_close client))"

definition project_up :: "('k \<Rightarrow> bool) \<Rightarrow> project_device test_stand \<Rightarrow> nat \<Rightarrow> transport_state \<times> 'k \<Rightarrow> bool" where
  "project_up opened stand i s =
     (case project_transport_of (ts_objects stand ! i) of
        StandardLockable t \<Rightarrow> holds (wrapped t) (snd (fst s))
      | SynchronizedTcpConsole t \<Rightarrow> opened (snd s))"

definition project_quiet :: "'w libraries \<Rightarrow> ('w, 'k) client \<Rightarrow> project_device test_stand \<Rightarrow> nat \<Rightarrow> bool" where
  \<comment> \<open>closing after a connection that failed does not raise\<close>
  "project_quiet lib client stand i \<longleftrightarrow>
     (case project_transport_of (ts_objects stand ! i) of
        StandardLockable t \<Rightarrow> quiet_library lib (wrapped t)
      | SynchronizedTcpConsole t \<Rightarrow> \<forall>a e a'. cl_close client a \<noteq> Some (Inl e, a'))"

context console_client
begin

lemma failed_connect_down:
  assumes "tcp_connect t client a = Some (Inl e, a')" and "\<forall>a e a'. cl_close client a \<noteq> Some (Inl e, a')"
  shows "\<not> opened (snd a')"
proof -
  from tcp_connect_outcome [OF assms(1)] obtain b q where "cl_close client b = Some (q, a')"
    "\<forall>u. q = Inr u \<longrightarrow> \<not> opened (snd a')" by (auto simp: closed_last_def)
  with assms(2) show ?thesis by (cases q) blast+
qed

text \<open>Such a stand is a pool of devices, whatever mixture of transports it has.\<close>

lemma project_pool:
  "device_pool (project_connect lib client stand) (project_close lib client stand) (project_up opened stand)
     (project_quiet lib client stand)"
proof (unfold_locales, goal_cases)
  case (1 i w S r w' S' j)
  then show ?case by (auto simp: project_connect_def on_slot_Some split: project_transport.splits)
next
  case (2 i w S r w' S' j)
  then show ?case by (auto simp: project_close_def on_slot_Some split: project_transport.splits)
next
  case (3 i w S u w' S')
  then show ?case
    by (auto simp: project_connect_def project_up_def on_slot_Some split: project_transport.splits
        dest: any.connect_holds dest!: tcp_connect_outcome)
next
  case (4 i w S e w' S')
  then show ?case
    by (auto simp: project_connect_def project_up_def project_quiet_def on_slot_Some
        split: project_transport.splits dest: any.connect_failed dest!: failed_connect_down)
next
  case (5 i w S u w' S')
  then show ?case
    by (auto simp: project_close_def project_up_def on_slot_Some split: project_transport.splits
        dest: any.close_releases dest!: tcp_close_outcome)
qed

end

definition project_stand_connect ::
  "'w libraries \<Rightarrow> ('w, 'k) client \<Rightarrow> project_device test_stand \<Rightarrow> ('w, 'k, unit) project_io" where
  "project_stand_connect lib client stand =
     connect_devices (project_connect lib client stand) (project_close lib client stand) [] (unique_devices stand)"

text \<open>So the framework's guarantee holds of a stand with the project's devices as well.\<close>

lemma project_stand_all_or_none:
  assumes "console_client client opened"
    and "project_stand_connect lib client stand (w, S) = Some (r, (w', S'))"
    and "\<forall>d \<in> set (unique_devices stand). \<not> project_up opened stand d (S d)"
    and "\<forall>d \<in> set (unique_devices stand). project_quiet lib client stand d"
    and "\<forall>d \<in> set (unique_devices stand). \<forall>a e a'. project_close lib client stand d a \<noteq> Some (Inl e, a')"
  shows "\<forall>d \<in> set (unique_devices stand). project_up opened stand d (S' d) \<longleftrightarrow> (\<exists>u. r = Inr u)"
proof -
  have "distinct ([] @ unique_devices stand)" by (simp add: unique_devices_def)
  from device_pool.connect_all [OF console_client.project_pool [OF assms(1)]
      assms(2) [unfolded project_stand_connect_def] this assms(3)] assms(4,5)
  show ?thesis by (cases r) (auto simp: split_paired_all)
qed

section \<open>The errors of the transport\<close>

text \<open>
  Whatever a client does within its promises stays inside the transport: connecting, closing
  and executing raise none of its errors, only a \<^verbatim>\<open>TransportError\<close> with one of the fixed messages
  (so no detail of the client's, and no secret, gets out), \<^verbatim>\<open>UnsupportedCommandError\<close> for another
  kind of command, or \<^verbatim>\<open>TypeError\<close> for a query that is no text. A connection either opens or
  ends with the client asked to close.
\<close>

lemma tcp_console_contained:
  assumes "console_client client opened"
  shows "(tcp_connect t client a = Some (r, a') \<longrightarrow>
      (case r of Inr u \<Rightarrow> opened (snd a')
       | Inl e \<Rightarrow> e \<in> {raise_txt TransportTimeoutError ''TCP console connection timed out'',
           raise_txt TransportError ''Cannot connect to TCP console''} \<and> closed_last client opened a')) \<and>
    (tcp_close client a = Some (r, a') \<longrightarrow>
      (case r of Inr u \<Rightarrow> \<not> opened (snd a')
       | Inl e \<Rightarrow> e \<in> {raise_txt TransportTimeoutError ''TCP console close timed out'',
           raise_txt TransportError ''Cannot close TCP console''})) \<and>
    (tcp_execute t client c a = Some (Inl e, a') \<longrightarrow>
      exn_kind e \<in> {UnsupportedCommandError, TransportError, TransportTimeoutError, PyTypeError})"
proof (intro conjI impI)
  assume "tcp_connect t client a = Some (r, a')"
  then show "case r of Inr u \<Rightarrow> opened (snd a')
    | Inl e \<Rightarrow> e \<in> {raise_txt TransportTimeoutError ''TCP console connection timed out'',
        raise_txt TransportError ''Cannot connect to TCP console''} \<and> closed_last client opened a'"
    by (rule console_client.tcp_connect_outcome [OF assms])
next
  assume "tcp_close client a = Some (r, a')"
  from console_client.tcp_close_outcome [OF assms this]
  show "case r of Inr u \<Rightarrow> \<not> opened (snd a')
    | Inl e \<Rightarrow> e \<in> {raise_txt TransportTimeoutError ''TCP console close timed out'',
        raise_txt TransportError ''Cannot close TCP console''}" by (cases r) simp_all
next
  assume "tcp_execute t client c a = Some (Inl e, a')"
  then show "exn_kind e \<in> {UnsupportedCommandError, TransportError, TransportTimeoutError, PyTypeError}"
    by (rule console_client.tcp_execute_errors [OF assms])
qed

section \<open>The fake client of the project's tests\<close>

text \<open>\<^verbatim>\<open>FakeConsoleClient\<close> of \<^verbatim>\<open>src/tests/integration/test_custom_entities.py\<close>, by the calls it has
  recorded, with its switches and the errors it can be given.\<close>

datatype os_failure = OSFailure "piece list" | TimeoutFailure "piece list"

fun fake_failure :: "os_failure \<Rightarrow> exn" where
  "fake_failure (OSFailure m) = Exn PyOSError m"
| "fake_failure (TimeoutFailure m) = Exn PyTimeoutError m"

record fake_options =
  fail_connect :: bool
  fail_execute :: bool
  connect_error :: "os_failure option"
  execute_error :: "os_failure option"
  close_error :: "os_failure option"

datatype fake_call = FakeConnect pystr int pystr pystr rat | FakeExecute pystr rat | FakeClose

definition failing_with :: "os_failure option \<Rightarrow> bool \<Rightarrow> string \<Rightarrow> 'a \<Rightarrow> ('s, 'a) io" where
  "failing_with error switch m x =
     (case error of
        Some f \<Rightarrow> raising (fake_failure f)
      | None \<Rightarrow> if switch then raising (raise_txt PyOSError m) else returning x)"

definition fake_console :: "fake_options \<Rightarrow> ('w, fake_call list) client" where
  "fake_console fo =
     \<lparr>cl_connect = (\<lambda>h p u pw t. io_then (inner (modifying (\<lambda>calls. calls @ [FakeConnect h p u pw t])))
        (failing_with (connect_error fo) (fail_connect fo) ''fake connection failed'' ())),
      cl_execute = (\<lambda>q t. io_then (inner (modifying (\<lambda>calls. calls @ [FakeExecute q t])))
        (failing_with (execute_error fo) (fail_execute fo) ''fake command failed''
           \<lparr>stdout = lit ''3.3'', stderr = [], exit_code = 0\<rparr>)),
      cl_close = io_then (inner (modifying (\<lambda>calls. calls @ [FakeClose])))
        (failing_with (close_error fo) False [] ())\<rparr>"

lemma failing_with_os:
  "failing_with error switch m x s = Some (Inl e, s') \<Longrightarrow> caught_by e PyOSError"
proof -
  assume run: "failing_with error switch m x s = Some (Inl e, s')"
  have "subclass_of PyOSError PyOSError" "subclass_of PyTimeoutError PyOSError" by code_simp+
  then have "caught_by (fake_failure f) PyOSError" for f by (cases f) (simp_all add: caught_by_def)
  with run \<open>subclass_of PyOSError PyOSError\<close> show ?thesis
    by (auto simp: failing_with_def run_simps raise_txt_def caught_by_def split: option.splits if_splits)
qed

definition fake_opened :: "fake_call list \<Rightarrow> bool" where
  "fake_opened calls =
     (case filter (\<lambda>c. case c of FakeExecute q t \<Rightarrow> False | _ \<Rightarrow> True) (rev calls) of
        FakeConnect h p u pw t # rest \<Rightarrow> True | _ \<Rightarrow> False)"

interpretation fake: console_client "fake_console fo" fake_opened
  for fo
proof (unfold_locales, goal_cases)
  case (1 h p u pw t a x a')
  then show ?case by (auto simp: fake_console_def fake_opened_def failing_with_def io_cases run_simps split: option.splits if_splits)
next
  case (2 a x a')
  then show ?case by (auto simp: fake_console_def fake_opened_def failing_with_def io_cases run_simps split: option.splits)
qed (auto simp: fake_console_def io_cases run_simps dest: failing_with_os)

definition sample_tcp :: tcp_console_transport where
  "sample_tcp = \<lparr>tt_config = \<lparr>tcp_host = lit ''192.0.2.30'', tcp_port = 9000, tcp_credentials = lit ''meter_link''\<rparr>,
     tt_credentials = \<lparr>cr_username = lit ''tester'', cr_password = lit ''fake''\<rparr>,
     tt_connect_timeout = 7, tt_command_timeout = 11\<rparr>"

definition refusing_console :: fake_options where
  "refusing_console = \<lparr>fail_connect = True, fail_execute = False, connect_error = None, execute_error = None,
     close_error = Some (TimeoutFailure [])\<rparr>"

lemma tcp_console_contained_witness:
  "\<exists>calls. tcp_connect sample_tcp (fake_console refusing_console) ((), [])
       = Some (Inl (raise_txt TransportError ''Cannot connect to TCP console''), ((), calls)) \<and>
     closed_last (fake_console refusing_console) fake_opened ((), calls)"
proof -
  have "subclass_of PyOSError PyOSError" "\<not> subclass_of PyOSError PyTimeoutError"
    "subclass_of PyTimeoutError PyTimeoutError" "subclass_of TransportTimeoutError TransportError" by code_simp+
  then obtain calls where run: "tcp_connect sample_tcp (fake_console refusing_console) ((), [])
      = Some (Inl (raise_txt TransportError ''Cannot connect to TCP console''), ((), calls))"
    by (simp add: tcp_connect_def os_errors_as_def close_after_failed_connect_def tcp_close_def fake_console_def
        refusing_console_def failing_with_def
        io_bind_def try_except_def inner_def run_simps caught_by_def raise_txt_def)
  with tcp_console_contained [OF fake.console_client_axioms] show ?thesis by fastforce
qed

end
