(* ===== verification/Spec2Isabelle.thy ===== *)
theory Spec2Isabelle
  imports Plugin Commands Loader Factory Console_Frames Console_Login Transports Agent_Link Synchronized
    Docker_Commands Artifacts Reportportal Worker Login Processes Runner_Events Runner_Api
    Runner_Processes Runner_Store Custom_Entities
begin

text \<open>
  Three programs of one repository: the hardware-test framework (\<^verbatim>\<open>src/hardware_test\<close>), the
  serial agent (\<^verbatim>\<open>helpers/serial-agent\<close>) and the test-runner service
  (\<^verbatim>\<open>helpers/test-runner-service\<close>).

  \<^bold>\<open>Framework.\<close> \<open>Loader\<close> (over \<open>Inventory\<close>, \<open>Paths\<close>, \<open>Transport_Config\<close>) loads the inventory of a
  stand; \<open>Factory\<close> (over \<open>Credentials\<close>) builds the stand's devices and transports; \<open>Stand\<close>
  connects, looks up and closes them; \<open>Transports\<close> (over \<open>Paramiko\<close>, \<open>Console\<close>) and
  \<open>Agent_Channel\<close> are the four transports, \<open>Console_Frames\<close> and \<open>Console_Login\<close> the theorems on the
  console session, \<open>Synchronized\<close> the lock around a transport; \<open>Plugin\<close> (over \<open>Scenarios\<close>) selects
  and orders tests, \<open>Commands\<close> is the command protocol. \<open>Custom_Entities\<close> is the documented extension
  (\<^verbatim>\<open>docs/examples/custom_entities.py\<close>): a schema, a transport and a device of a project's own, shown
  to fulfil the contracts of the framework (\<open>stand_factories\<close> of \<open>Factory\<close>, \<open>device_pool\<close> of \<open>Stand\<close>), so
  that the framework's guarantees hold of the project's stands.

  \<^bold>\<open>Serial agent.\<close> \<open>Agent_Protocol\<close> (over \<open>Json\<close>, \<open>Base64\<close>, \<open>Utf8\<close>) decodes, checks and answers
  requests, \<open>Serial_Agent\<close> holds the device and the main loop. \<open>Agent_Link\<close> joins the client's
  channel with the agent.

  \<^bold>\<open>Runner service.\<close> \<open>Runner_Settings\<close> validates the settings; \<open>Docker_Commands\<close> builds argument
  vectors; \<open>Artifacts\<close> finds report files; \<open>Runner_State\<close> is the state of an operation;
  \<open>Reportportal\<close> and \<open>Oidc\<close> talk to other services; \<open>Worker\<close> runs operations one at a time and
  \<open>Processes\<close> their commands; \<open>Runner_Processes\<close> puts the one on the other, under the timeout of the
  event loop, and shows what a verdict stands for and that test runs end. \<open>Session\<close> holds the signed
  cookies, \<open>Auth\<close> the authenticators, the middleware and the login handlers, \<open>Login\<close> the theorems
  that span them. \<open>Runner_Api\<close> is the HTTP
  API with its request models and the application of \<^verbatim>\<open>main.py\<close>: a request passes the middleware,
  is matched to a route of the API, of the login or to a page, and its handler answers it, the API's
  with the coordinator; \<open>Runner_Events\<close> is the live log. \<open>Runner_Store\<close> is the state file on a disk
  that may lose power: \<open>Worker\<close> takes it for one cell, and its theorem is that it behaves as one
  while the power lasts; what a loss of power may bring back is stated there.

  \<^bold>\<open>How the code is modelled.\<close> Strings are lists of code points (\<open>pystr\<close>), bytes are \<open>8 word\<close>
  lists, dictionaries association lists, Python's integers \<open>int\<close>. A raise is \<open>Inl\<close> of an exception
  with its class and message pieces (\<open>Exceptions\<close>); code with effects is a function of the world
  to an outcome and a world, \<open>None\<close> where it does not return (\<open>Effects\<close>). Polling loops are
  \<^theory_text>\<open>partial_function (option)\<close>, shown to return by measures on the clock; the JSON decoder takes the length of its text plus one as fuel, which
  its nesting cannot exceed. Third-party code (Paramiko, pyserial, PyYAML, pydantic's coercions,
  PyJWT, HTTP, docker, XML, the UTF-16 and UTF-32 codecs) is a parameter; what a theorem needs of it
  is a hypothesis of the theorem. Awaited operations may change the state of the coordinator and of
  the OIDC client, as other requests would; code between two awaits runs undisturbed. A timeout is an
  error of the await it interrupts, also of one that would never come back; it does not interrupt
  an await that has no need to wait.

  A generator that others interleave with (\<open>Runner_Events\<close>) runs against an arbitrary history of
  what they write, indexed by its suspensions.

  \<^bold>\<open>Not modelled.\<close> The parsing of HTTP and of bodies, the rendering of responses, the JSON form of an
  operation's state (pydantic's \<^verbatim>\<open>model_dump\<close>, whose text is modelled), the contents of the static
  pages, \<^verbatim>\<open>uvicorn.run\<close> and the argument parsers, warnings that are only logged, exceptions that are
  no \<^verbatim>\<open>Exception\<close>, Python's recursion limit and double rounding: each is another library's code, or
  input and output with nothing to prove.
\<close>

end
